(* ===== verification/Prelude.thy ===== *)
theory Prelude
  imports Main "HOL-Library.Word" "HOL-Library.Monad_Syntax"
begin

text \<open>
  Shared vocabulary of the development: the machine integer types, the C library functions on
  strings that the sources call, error numbers, and generic lemmas on options, lists and words.
  The target is the 32-bit ARM board of the repository, so a pointer, \<open>size_t\<close> and
  \<open>unsigned long\<close> are 32 bits wide.

  A C string is a \<open>string\<close> without its terminating NUL. A computation that may dereference
  a null or freed pointer returns an option, and \<open>None\<close> stands for the memory fault.
\<close>

unbundle bit_operations_syntax

named_theorems cstr_simps \<open>facts about C string functions\<close>
named_theorems fault_simps \<open>unfolding of the fault monad\<close>

type_synonym u8 = "8 word"
type_synonym u16 = "16 word"
type_synonym u32 = "32 word"
type_synonym u64 = "64 word"

type_synonym bytes = "u8 list"

section \<open>Error numbers\<close>

text \<open>The values of \<open>errno.h\<close> that the sources name.\<close>

abbreviation EPERM :: int where "EPERM \<equiv> 1"
abbreviation ENOENT :: int where "ENOENT \<equiv> 2"
abbreviation EIO :: int where "EIO \<equiv> 5"
abbreviation ENOMEM :: int where "ENOMEM \<equiv> 12"
abbreviation EACCES :: int where "EACCES \<equiv> 13"
abbreviation EEXIST :: int where "EEXIST \<equiv> 17"
abbreviation ENODEV :: int where "ENODEV \<equiv> 19"
abbreviation EINVAL :: int where "EINVAL \<equiv> 22"
abbreviation ENOSYS :: int where "ENOSYS \<equiv> 38"

section \<open>C library functions on strings\<close>

definition tolower :: "char \<Rightarrow> char" where
  "tolower c = (if 65 \<le> (of_char c :: nat) \<and> (of_char c :: nat) \<le> 90
                then char_of ((of_char c :: nat) + 32) else c)"

text \<open>\<open>strcasecmp\<close> returned zero.\<close>

definition strcaseeq :: "string \<Rightarrow> string \<Rightarrow> bool" where
  "strcaseeq a b \<longleftrightarrow> map tolower a = map tolower b"

definition isspace :: "char \<Rightarrow> bool" where
  "isspace c \<longleftrightarrow> (let n = (of_char c :: nat) in n = 32 \<or> (9 \<le> n \<and> n \<le> 13))"

definition isdigit :: "char \<Rightarrow> bool" where
  "isdigit c \<longleftrightarrow> (let n = (of_char c :: nat) in 48 \<le> n \<and> n \<le> 57)"

definition digits_value :: "string \<Rightarrow> nat" where
  "digits_value ds = foldl (\<lambda>acc c. acc * 10 + ((of_char c :: nat) - 48)) 0 ds"

text \<open>
  \<open>strtoul(s, NULL, 10)\<close> with a 32-bit \<open>unsigned long\<close>: white space, an optional sign, the
  longest run of digits; a value out of range is \<open>ULONG_MAX\<close> and a minus sign negates.
\<close>

definition strtoul10 :: "string \<Rightarrow> u32" where
  "strtoul10 s =
     (let t = dropWhile isspace s;
          neg = (case t of c # _ \<Rightarrow> c = CHR ''-'' | [] \<Rightarrow> False);
          sgn = (case t of c # _ \<Rightarrow> c = CHR ''-'' \<or> c = CHR ''+'' | [] \<Rightarrow> False);
          ds = takeWhile isdigit (if sgn then drop 1 t else t);
          v = digits_value ds
      in if 2 ^ 32 \<le> v then -1 else if neg then - of_nat v else of_nat v)"

lemma strcaseeq_refl [simp, intro]: "strcaseeq a a"
  by (simp add: strcaseeq_def)

lemma strcaseeq_sym: "strcaseeq a b \<longleftrightarrow> strcaseeq b a"
  by (auto simp: strcaseeq_def)

lemma strcaseeq_trans: "strcaseeq a b \<Longrightarrow> strcaseeq b c \<Longrightarrow> strcaseeq a c"
  by (simp add: strcaseeq_def)

lemma strcaseeq_length [cstr_simps]: "strcaseeq a b \<Longrightarrow> length a = length b"
  unfolding strcaseeq_def by (metis length_map)

section \<open>Results and faults\<close>

type_synonym 'a result = "int + 'a"

lemma bind_eq_None_iff [fault_simps]:
  "(Option.bind x f = None) \<longleftrightarrow> x = None \<or> (\<exists>v. x = Some v \<and> f v = None)"
  by (cases x) auto

lemma bind_eq_Some_iff [fault_simps]:
  "(Option.bind x f = Some y) \<longleftrightarrow> (\<exists>v. x = Some v \<and> f v = Some y)"
  by (cases x) auto

text \<open>
  The two postcondition readings of a computation that may fault: \<open>holds\<close> says nothing of a
  fault, \<open>ensures\<close> excludes it. Their rules walk through the fault monad from the outside.
\<close>

definition holds :: "('a \<Rightarrow> bool) \<Rightarrow> 'a option \<Rightarrow> bool" where
  "holds Q m \<longleftrightarrow> (\<forall>x. m = Some x \<longrightarrow> Q x)"

definition ensures :: "('a \<Rightarrow> bool) \<Rightarrow> 'a option \<Rightarrow> bool" where
  "ensures Q m \<longleftrightarrow> (\<exists>x. m = Some x \<and> Q x)"

named_theorems wp_simps \<open>postconditions through the fault monad\<close>

lemma holds_simps [wp_simps]:
  "holds Q None" "holds Q (Some x) = Q x"
  "holds Q (Option.bind m f) = holds (\<lambda>x. holds Q (f x)) m"
  "holds Q (if c then i else j) = (if c then holds Q i else holds Q j)"
  "holds Q (let z = d in g z) = (let z = d in holds Q (g z))"
  "holds Q (case p of (a, b) \<Rightarrow> h a b) = (case p of (a, b) \<Rightarrow> holds Q (h a b))"
  "holds Q (case s of Inl e \<Rightarrow> k e | Inr v \<Rightarrow> l v) = (case s of Inl e \<Rightarrow> holds Q (k e) | Inr v \<Rightarrow> holds Q (l v))"
  "holds Q (case ov of None \<Rightarrow> u | Some y \<Rightarrow> n y) = (case ov of None \<Rightarrow> holds Q u | Some y \<Rightarrow> holds Q (n y))"
  by (auto simp: holds_def fault_simps split: prod.split sum.split option.split)

lemma ensures_simps [wp_simps]:
  "\<not> ensures Q None" "ensures Q (Some x) = Q x"
  "ensures Q (Option.bind m f) = ensures (\<lambda>x. ensures Q (f x)) m"
  "ensures Q (if c then i else j) = (if c then ensures Q i else ensures Q j)"
  "ensures Q (let z = d in g z) = (let z = d in ensures Q (g z))"
  "ensures Q (case p of (a, b) \<Rightarrow> h a b) = (case p of (a, b) \<Rightarrow> ensures Q (h a b))"
  "ensures Q (case s of Inl e \<Rightarrow> k e | Inr v \<Rightarrow> l v) = (case s of Inl e \<Rightarrow> ensures Q (k e) | Inr v \<Rightarrow> ensures Q (l v))"
  "ensures Q (case ov of None \<Rightarrow> u | Some y \<Rightarrow> n y) = (case ov of None \<Rightarrow> ensures Q u | Some y \<Rightarrow> ensures Q (n y))"
  by (auto simp: ensures_def fault_simps split: prod.split sum.split option.split)

lemmas wp_congs = if_cong option.case_cong sum.case_cong prod.case_cong

lemma holdsI: "(\<And>x. m = Some x \<Longrightarrow> Q x) \<Longrightarrow> holds Q m"
  by (simp add: holds_def)

lemma ensuresI: "m = Some x \<Longrightarrow> Q x \<Longrightarrow> ensures Q m"
  by (simp add: ensures_def)

lemma holdsD: "holds Q m \<Longrightarrow> m = Some x \<Longrightarrow> Q x"
  by (simp add: holds_def)

lemma ensuresE: "ensures Q m \<Longrightarrow> (\<And>x. m = Some x \<Longrightarrow> Q x \<Longrightarrow> R) \<Longrightarrow> R"
  by (auto simp: ensures_def)

lemma ensures_mono: "ensures Q m \<Longrightarrow> (\<And>x. m = Some x \<Longrightarrow> Q x \<Longrightarrow> R x) \<Longrightarrow> ensures R m"
  by (auto simp: ensures_def)

lemma holds_mono: "holds Q m \<Longrightarrow> (\<And>x. Q x \<Longrightarrow> R x) \<Longrightarrow> holds R m"
  by (auto simp: holds_def)

section \<open>Words\<close>

lemma unat_inc_if: "unat (w :: u32) + 1 < 2 ^ 32 \<Longrightarrow> unat (w + 1) = unat w + 1"
  by (simp add: unat_word_ariths)

lemma unat_dec_if: "0 < (w :: u32) \<Longrightarrow> unat (w - 1) = unat w - 1"
  by (metis unat_minus_one word_gt_0)

lemma finite_u32 [simp]: "finite (A :: u32 set)"
  by simp

end
