(* ===== verification/Fuse_Types.thy ===== *)
theory Fuse_Types
  imports Prelude
begin

text \<open>
  The data of the FUSE daemon of \<open>system/core/sdcard\<close>: permission modes, nodes, the
  global state, the four mounted views (\<open>fuse.h\<close>), and the messages exchanged with the kernel.
  Nodes live in a heap from addresses to node records; the embedded root node has the fixed
  address \<open>root_ptr\<close>. The \<open>sizeof\<close> constants and flag values are those of the kernel's
  FUSE interface (\<open>linux/fuse.h\<close>).
\<close>

section \<open>Constants\<close>

abbreviation MAX_WRITE :: nat where "MAX_WRITE \<equiv> 256 * 1024"
abbreviation MAX_READ :: nat where "MAX_READ \<equiv> 128 * 1024"
abbreviation PATH_MAX :: nat where "PATH_MAX \<equiv> 4096"
abbreviation NO_STATUS :: int where "NO_STATUS \<equiv> 1"
abbreviation FUSE_ROOT_ID :: u64 where "FUSE_ROOT_ID \<equiv> 1"
abbreviation FUSE_UNKNOWN_INO :: u64 where "FUSE_UNKNOWN_INO \<equiv> 0xffffffff"
abbreviation FUSE_KERNEL_VERSION :: u32 where "FUSE_KERNEL_VERSION \<equiv> 7"

abbreviation sizeof_in_header :: nat where "sizeof_in_header \<equiv> 40"
abbreviation sizeof_out_header :: nat where "sizeof_out_header \<equiv> 16"
abbreviation sizeof_notify_delete_out :: nat where "sizeof_notify_delete_out \<equiv> 24"
abbreviation sizeof_dirent :: nat where "sizeof_dirent \<equiv> 24"

definition FUSE_DIRENT_ALIGN :: "nat \<Rightarrow> nat" where
  "FUSE_DIRENT_ALIGN x = ((x + 7) div 8) * 8"

abbreviation R_OK :: int where "R_OK \<equiv> 4"
abbreviation W_OK :: int where "W_OK \<equiv> 2"

section \<open>Permission modes, nodes and the package map\<close>

datatype perm_t =
    PERM_INHERIT
  | PERM_PRE_ROOT
  | PERM_ROOT
  | PERM_ANDROID
  | PERM_ANDROID_DATA
  | PERM_ANDROID_OBB
  | PERM_ANDROID_MEDIA

type_synonym ptr = u32

text \<open>The null pointer is 0 and the root node embedded in \<open>struct fuse_global\<close> sits at a
  fixed address.\<close>

definition root_ptr :: ptr where
  "root_ptr = 0xBEFFE000"

lemma root_ptr_not_null [simp]: "root_ptr \<noteq> 0"
  by (simp add: root_ptr_def)

record node =
  refcount :: u32
  nid :: u64
  gen :: u64
  ino :: u32
  perm :: perm_t
  userid :: u32
  node_uid :: u32
  under_android :: bool
  next_node :: ptr
  child :: ptr
  parent :: ptr
  namelen :: nat
  name :: string
  actual_name :: "string option"
  graft_path :: "string option"
  graft_pathlen :: nat
  deleted :: bool

type_synonym heap = "ptr \<rightharpoonup> node"

text \<open>
  \<open>AppIdMap\<close> is a \<open>std::map\<close> ordered by \<open>strcasecmp\<close>: two names that differ only by
  case are the same key. The map is never iterated, so its entries are kept in order of insertion.
\<close>

type_synonym app_id_map = "(string \<times> u32) list"

definition appid_find :: "app_id_map \<Rightarrow> string \<Rightarrow> u32 option" where
  "appid_find m k = map_option snd (find (\<lambda>e. strcaseeq (fst e) k) m)"

definition appid_emplace :: "app_id_map \<Rightarrow> string \<Rightarrow> u32 \<Rightarrow> app_id_map \<times> bool" where
  "appid_emplace m k v = (case appid_find m k of None \<Rightarrow> (m @ [(k, v)], True) | Some _ \<Rightarrow> (m, False))"

section \<open>Mounts and global state\<close>

text \<open>
  \<open>struct fuse\<close>: the pointers to the four mounts (\<open>fuse_default\<close>, \<open>fuse_read\<close>,
  \<open>fuse_write\<close>, \<open>fuse_full\<close>) are the four values of \<open>view\<close>.
\<close>

datatype view = FuseDefault | FuseRead | FuseWrite | FuseFull

record fuse =
  dest_path :: string
  fuse_fd :: int
  fuse_gid :: u32
  mask :: u32

record fuse_global =
  g_uid :: u32
  g_gid :: u32
  multi_user :: bool
  source_path :: string
  obb_path :: string
  package_to_appid :: app_id_map
  next_generation :: u64
  nodes :: heap
  inode_ctr :: u32
  mounts :: "view \<Rightarrow> fuse"

section \<open>Messages\<close>

record fuse_in_header =
  hdr_len :: nat
  unique :: u64
  nodeid :: u64
  hdr_uid :: u32

record stat =
  st_mode :: u32
  st_nlink :: u32
  st_size :: u64
  st_blocks :: u64
  st_atim :: "u32 \<times> u32"
  st_mtim :: "u32 \<times> u32"
  st_ctim :: "u32 \<times> u32"

record fuse_attr =
  a_ino :: u64
  a_size :: u64
  a_blocks :: u64
  a_atime :: u64
  a_mtime :: u64
  a_ctime :: u64
  a_atimensec :: u32
  a_mtimensec :: u32
  a_ctimensec :: u32
  a_mode :: u32
  a_nlink :: u32
  a_uid :: u32
  a_gid :: u32

record statfs =
  f_blocks :: u64
  f_bfree :: u64
  f_bavail :: u64
  f_files :: u64
  f_ffree :: u64
  f_bsize :: u32
  f_namelen :: u32
  f_frsize :: u32

datatype payload =
    NoData
  | EntryOut u64 u64 u64 u64 fuse_attr \<comment> \<open>nodeid, generation, entry_valid, attr_valid\<close>
  | AttrOut u64 fuse_attr
  | OpenOut u64 u32
  | WriteOut u32 u32
  | StatfsOut statfs
  | InitOut u32 u32 u32 u32 u32 u32 nat
      \<comment> \<open>major, minor, max_readahead, flags, max_background, congestion_threshold, max_write\<close>
  | DirentOut u64 u64 nat u32 string \<comment> \<open>ino, off, namelen, type, name\<close>
  | BytesOut bytes
  | PathOut string
  | NotifyDeleteOut u64 u64 nat string \<comment> \<open>parent, child, namelen, name\<close>

record fuse_out =
  out_len :: nat
  out_error :: int
  out_unique :: u64
  out_data :: payload

end
