(* ===== verification/Fuse_Node.thy ===== *)
theory Fuse_Node
  imports Fuse_Types
begin

text \<open>
  The node operations of \<open>fuse.cpp\<close> on the heap of nodes: reference counting, the
  per-directory sibling lists, path construction, permission derivation, creation, renaming and
  lookup. Every operation returns \<open>None\<close> exactly when the code would dereference a null or
  freed node, free the embedded root, or loop forever on a malformed sibling list.
\<close>

section \<open>Parameters\<close>

text \<open>
  What the daemon takes from outside the repository: the user/app id arithmetic of
  \<open>libcutils\<close>, the platform's group ids, the allocator. An allocation that can fail is asked
  for by its site, so that every combination of failures is a value of the parameter.
\<close>

datatype alloc_site = SName | SActual | SReallocName | SReallocActual | SRenameActual

record platform =
  multiuser_get_uid :: "u32 \<Rightarrow> u32 \<Rightarrow> u32"
  AID_ROOT :: u32
  AID_SDCARD_RW :: u32
  AID_EVERYBODY :: u32
  calloc_node :: "heap \<Rightarrow> ptr"
  malloc_ok :: "alloc_site \<Rightarrow> bool"

section \<open>Pointers\<close>

definition id_to_ptr :: "u64 \<Rightarrow> ptr" where
  "id_to_ptr i = ucast i"

definition ptr_to_id :: "ptr \<Rightarrow> u64" where
  "ptr_to_id p = ucast p"

definition deref :: "heap \<Rightarrow> ptr \<Rightarrow> node option" where
  "deref h p = (if p = 0 then None else h p)"

definition modify :: "heap \<Rightarrow> ptr \<Rightarrow> (node \<Rightarrow> node) \<Rightarrow> heap option" where
  "modify h p f = map_option (\<lambda>n. h(p \<mapsto> f n)) (deref h p)"

section \<open>Reference counts and sibling lists\<close>

definition acquire_node_locked :: "heap \<Rightarrow> ptr \<Rightarrow> heap option" where
  "acquire_node_locked h p = modify h p (\<lambda>n. n\<lparr>refcount := refcount n + 1\<rparr>)"

definition add_node_to_parent_locked :: "heap \<Rightarrow> ptr \<Rightarrow> ptr \<Rightarrow> heap option" where
  "add_node_to_parent_locked h p par = do {
     h1 \<leftarrow> modify h p (\<lambda>n. n\<lparr>parent := par\<rparr>);
     pn \<leftarrow> deref h1 par;
     h2 \<leftarrow> modify h1 p (\<lambda>n. n\<lparr>next_node := child pn\<rparr>);
     h3 \<leftarrow> modify h2 par (\<lambda>n. n\<lparr>child := p\<rparr>);
     acquire_node_locked h3 par
   }"

text \<open>The loop \<open>while (node2->next != node) node2 = node2->next\<close>.\<close>

partial_function (option) find_prev :: "heap \<Rightarrow> ptr \<Rightarrow> ptr \<Rightarrow> ptr option" where
  "find_prev h node2 p = do {
     n2 \<leftarrow> deref h node2;
     if next_node n2 \<noteq> p then find_prev h (next_node n2) p else Some node2
   }"

text \<open>The part of \<open>remove_node_from_parent_locked\<close> that takes the node off its parent's list.\<close>

definition unlink_sibling :: "heap \<Rightarrow> ptr \<Rightarrow> heap option" where
  "unlink_sibling h p = do {
     n \<leftarrow> deref h p;
     pn \<leftarrow> deref h (parent n);
     if child pn = p
     then do {
       c \<leftarrow> deref h (child pn);
       modify h (parent n) (\<lambda>m. m\<lparr>child := next_node c\<rparr>)
     }
     else do {
       node2 \<leftarrow> find_prev h (child pn) p;
       modify h node2 (\<lambda>m. m\<lparr>next_node := next_node n\<rparr>)
     }
   }"

text \<open>
  \<open>release_node_locked\<close> and \<open>remove_node_from_parent_locked\<close> call each other. The former is
  defined with the body of the latter in place (\<open>release_node_locked_eq\<close> below gives the
  equation over the two functions, as in the source).
\<close>

partial_function (option) release_node_locked :: "heap \<Rightarrow> ptr \<Rightarrow> heap option" where
  "release_node_locked h p = do {
     n \<leftarrow> deref h p;
     if 0 < refcount n
     then do {
       h1 \<leftarrow> modify h p (\<lambda>n. n\<lparr>refcount := refcount n - 1\<rparr>);
       if refcount n - 1 = 0
       then do {
         h2 \<leftarrow> (if parent n \<noteq> 0
               then do {
                 h2 \<leftarrow> unlink_sibling h1 p;
                 h3 \<leftarrow> release_node_locked h2 (parent n);
                 modify h3 p (\<lambda>m. m\<lparr>parent := 0, next_node := 0\<rparr>)
               }
               else Some h1);
         if p = root_ptr then None else Some (h2(p := None))
       }
       else Some h1
     }
     else Some h
   }"

definition remove_node_from_parent_locked :: "heap \<Rightarrow> ptr \<Rightarrow> heap option" where
  "remove_node_from_parent_locked h p = do {
     n \<leftarrow> deref h p;
     if parent n \<noteq> 0
     then do {
       h2 \<leftarrow> unlink_sibling h p;
       h3 \<leftarrow> release_node_locked h2 (parent n);
       modify h3 p (\<lambda>m. m\<lparr>parent := 0, next_node := 0\<rparr>)
     }
     else Some h
   }"

section \<open>Paths\<close>

text \<open>
  The buffer is the returned string; the inner \<open>None\<close> is the return value \<open>-1\<close>. The
  recursion hands the parent a strictly smaller buffer.
\<close>

definition stored_name :: "node \<Rightarrow> string \<times> nat" where
  "stored_name n = (case graft_path n of
       Some g \<Rightarrow> (g, graft_pathlen n)
     | None \<Rightarrow> (case actual_name n of
           Some a \<Rightarrow> (a, namelen n)
         | None \<Rightarrow> (name n, namelen n)))"

function get_node_path_locked :: "heap \<Rightarrow> ptr \<Rightarrow> nat \<Rightarrow> string option option" where
  "get_node_path_locked h p bufsize = do {
     n \<leftarrow> deref h p;
     let (nm, nlen) = stored_name n;
     if bufsize < nlen + 1 then Some None
     else if parent n \<noteq> 0 \<and> graft_path n = None
     then do {
       r \<leftarrow> get_node_path_locked h (parent n) (bufsize - nlen - 1);
       (case r of
          None \<Rightarrow> Some None
        | Some path \<Rightarrow> Some (Some (path @ ''/'' @ take nlen nm)))
     }
     else Some (Some (take nlen nm))
   }"
  by pat_completeness auto
termination
  by (relation "measure (\<lambda>(h, p, bufsize). bufsize)") auto

declare get_node_path_locked.simps [simp del]

section \<open>Derived permissions\<close>

definition derive_permissions :: "platform \<Rightarrow> fuse_global \<Rightarrow> node \<Rightarrow> node \<Rightarrow> node" where
  "derive_permissions pf g par n =
     (let n = n\<lparr>perm := PERM_INHERIT, userid := userid par, node_uid := node_uid par,
                under_android := under_android par\<rparr>
      in case perm par of
           PERM_INHERIT \<Rightarrow> n
         | PERM_PRE_ROOT \<Rightarrow> n\<lparr>perm := PERM_ROOT, userid := strtoul10 (name n)\<rparr>
         | PERM_ROOT \<Rightarrow>
             if strcaseeq (name n) ''Android''
             then n\<lparr>perm := PERM_ANDROID, under_android := True\<rparr> else n
         | PERM_ANDROID \<Rightarrow>
             if strcaseeq (name n) ''data'' then n\<lparr>perm := PERM_ANDROID_DATA\<rparr>
             else if strcaseeq (name n) ''obb''
             then n\<lparr>perm := PERM_ANDROID_OBB, graft_path := Some (obb_path g),
                     graft_pathlen := length (obb_path g)\<rparr>
             else if strcaseeq (name n) ''media'' then n\<lparr>perm := PERM_ANDROID_MEDIA\<rparr>
             else n
         | _ \<Rightarrow>
             (case appid_find (package_to_appid g) (name n) of
                Some appid \<Rightarrow> n\<lparr>node_uid := multiuser_get_uid pf (userid par) appid\<rparr>
              | None \<Rightarrow> n))"

definition derive_permissions_locked ::
    "platform \<Rightarrow> fuse_global \<Rightarrow> heap \<Rightarrow> ptr \<Rightarrow> ptr \<Rightarrow> heap option" where
  "derive_permissions_locked pf g h par p = do {
     pn \<leftarrow> deref h par;
     modify h p (derive_permissions pf g pn)
   }"

text \<open>
  \<open>derive_permissions_recursive_locked (fuse, parent)\<close> is the loop over the sibling list that
  starts at \<open>parent->child\<close>; the loop calls the function again on a node with children.
\<close>

partial_function (option) derive_children ::
    "platform \<Rightarrow> fuse_global \<Rightarrow> ptr \<Rightarrow> heap \<Rightarrow> ptr \<Rightarrow> heap option" where
  "derive_children pf g par h p =
     (if p = 0 then Some h
      else do {
        h1 \<leftarrow> derive_permissions_locked pf g h par p;
        n \<leftarrow> deref h1 p;
        h2 \<leftarrow> (if child n \<noteq> 0 then derive_children pf g p h1 (child n) else Some h1);
        n2 \<leftarrow> deref h2 p;
        derive_children pf g par h2 (next_node n2)
      })"

definition derive_permissions_recursive_locked ::
    "platform \<Rightarrow> fuse_global \<Rightarrow> heap \<Rightarrow> ptr \<Rightarrow> heap option" where
  "derive_permissions_recursive_locked pf g h par = do {
     pn \<leftarrow> deref h par;
     derive_children pf g par h (child pn)
   }"

section \<open>Creation, renaming, lookup\<close>

definition fresh_node :: "ptr \<Rightarrow> u32 \<Rightarrow> u64 \<Rightarrow> string \<Rightarrow> string \<Rightarrow> node" where
  "fresh_node p i gn nm act =
     \<lparr>refcount = 0, nid = ptr_to_id p, gen = gn, ino = i, perm = PERM_INHERIT, userid = 0,
      node_uid = 0, under_android = False, next_node = 0, child = 0, parent = 0,
      namelen = length nm, name = nm,
      actual_name = (if nm \<noteq> act then Some (take (length nm + 1) act) else None),
      graft_path = None, graft_pathlen = 0, deleted = False\<rparr>"

text \<open>The returned pointer is 0 when the code returns \<open>NULL\<close>.\<close>

definition create_node_locked ::
    "platform \<Rightarrow> fuse_global \<Rightarrow> ptr \<Rightarrow> string \<Rightarrow> string \<Rightarrow> (ptr \<times> fuse_global) option" where
  "create_node_locked pf g par nm act =
     (if inode_ctr g = 0 then Some (0, g)
      else let p = calloc_node pf (nodes g) in
      if p = 0 then Some (0, g)
      else if \<not> malloc_ok pf SName then Some (0, g)
      else if nm \<noteq> act \<and> \<not> malloc_ok pf SActual then Some (0, g)
      else do {
        let h0 = (nodes g)(p \<mapsto> fresh_node p (inode_ctr g) (next_generation g) nm act);
        let g1 = g\<lparr>inode_ctr := inode_ctr g + 1, next_generation := next_generation g + 1\<rparr>;
        h1 \<leftarrow> derive_permissions_locked pf g1 h0 par p;
        h2 \<leftarrow> acquire_node_locked h1 p;
        h3 \<leftarrow> add_node_to_parent_locked h2 p par;
        Some (p, g1\<lparr>nodes := h3\<rparr>)
      })"

text \<open>
  Storage is grown before a name is overwritten: on \<open>-ENOMEM\<close> the names are unchanged. The
  copy into \<open>actual_name\<close> takes \<open>namelen + 1\<close> bytes of the new actual name.
\<close>

definition rename_node :: "platform \<Rightarrow> node \<Rightarrow> string \<Rightarrow> string \<Rightarrow> int \<times> node" where
  "rename_node pf n nm act =
     (let need = (nm \<noteq> act);
          grow = (length nm > namelen n)
      in if grow \<and> \<not> malloc_ok pf SReallocName then (- ENOMEM, n)
         else if grow \<and> need \<and> actual_name n \<noteq> None \<and> \<not> malloc_ok pf SReallocActual
         then (- ENOMEM, n)
         else if need \<and> actual_name n = None \<and> \<not> malloc_ok pf SRenameActual
         then (- ENOMEM, n)
         else (0, n\<lparr>actual_name := (if need then Some (take (length nm + 1) act) else None),
                    name := nm, namelen := length nm\<rparr>))"

definition rename_node_locked ::
    "platform \<Rightarrow> heap \<Rightarrow> ptr \<Rightarrow> string \<Rightarrow> string \<Rightarrow> (int \<times> heap) option" where
  "rename_node_locked pf h p nm act = do {
     n \<leftarrow> deref h p;
     let (res, n') = rename_node pf n nm act;
     Some (res, h(p \<mapsto> n'))
   }"

text \<open>The four calls of \<open>handle_rename\<close> that move the renamed node under its new parent.\<close>

definition move_node_locked :: "platform \<Rightarrow> fuse_global \<Rightarrow> heap \<Rightarrow> ptr \<Rightarrow> ptr \<Rightarrow> heap option" where
  "move_node_locked pf g h p par = do {
     h1 \<leftarrow> remove_node_from_parent_locked h p;
     h2 \<leftarrow> derive_permissions_locked pf g h1 par p;
     h3 \<leftarrow> derive_permissions_recursive_locked pf g h2 p;
     add_node_to_parent_locked h3 p par
   }"

definition lookup_node_by_id_locked :: "u64 \<Rightarrow> ptr" where
  "lookup_node_by_id_locked i = (if i = FUSE_ROOT_ID then root_ptr else id_to_ptr i)"

definition lookup_node_and_path_by_id_locked ::
    "heap \<Rightarrow> u64 \<Rightarrow> nat \<Rightarrow> (ptr \<times> string) option" where
  "lookup_node_and_path_by_id_locked h i bufsize =
     (let p = lookup_node_by_id_locked i in
      if p = 0 then Some (0, [])
      else do {
        r \<leftarrow> get_node_path_locked h p bufsize;
        Some (case r of None \<Rightarrow> (0, []) | Some path \<Rightarrow> (p, path))
      })"

partial_function (option) find_child :: "heap \<Rightarrow> string \<Rightarrow> ptr \<Rightarrow> ptr option" where
  "find_child h nm p =
     (if p = 0 then Some 0
      else do {
        n \<leftarrow> deref h p;
        if nm = name n \<and> \<not> deleted n then Some p else find_child h nm (next_node n)
      })"

definition lookup_child_by_name_locked :: "heap \<Rightarrow> ptr \<Rightarrow> string \<Rightarrow> ptr option" where
  "lookup_child_by_name_locked h p nm = do { n \<leftarrow> deref h p; find_child h nm (child n) }"

definition acquire_or_create_child_locked ::
    "platform \<Rightarrow> fuse_global \<Rightarrow> ptr \<Rightarrow> string \<Rightarrow> string \<Rightarrow> (ptr \<times> fuse_global) option" where
  "acquire_or_create_child_locked pf g par nm act = do {
     c \<leftarrow> lookup_child_by_name_locked (nodes g) par nm;
     if c \<noteq> 0
     then do { h \<leftarrow> acquire_node_locked (nodes g) c; Some (c, g\<lparr>nodes := h\<rparr>) }
     else create_node_locked pf g par nm act
   }"

text \<open>The equations of the possibly non-terminating loops are executable.\<close>

declare find_prev.simps [code] release_node_locked.simps [code] derive_children.simps [code]
  find_child.simps [code] get_node_path_locked.simps [code]

end
