(* ===== verification/Fuse_Tree.thy ===== *)
theory Fuse_Tree
  imports Fuse_Node
begin

text \<open>
  The structural invariant of the node heap and what the pointer operations do to it: every
  directory's sibling list is a finite chain through \<open>next\<close> that holds exactly the nodes whose
  \<open>parent\<close> field names the directory, the parent relation is acyclic, and a node's reference
  count is the number of its children plus the references held by the kernel. A set of nodes
  in flight (taken off one list, not yet on another) is carried as a parameter.
\<close>

section \<open>Sibling lists\<close>

primrec sibs :: "heap \<Rightarrow> ptr \<Rightarrow> ptr list \<Rightarrow> bool" where
  "sibs h p [] \<longleftrightarrow> p = 0"
| "sibs h p (x # xs) \<longleftrightarrow> p = x \<and> x \<noteq> 0 \<and> (\<exists>n. h x = Some n \<and> sibs h (next_node n) xs)"

lemma sibs_null [simp]: "sibs h 0 xs \<longleftrightarrow> xs = []"
  by (cases xs) auto

lemma sibs_cong:
  assumes "\<And>x. x \<in> set xs \<Longrightarrow> map_option next_node (h' x) = map_option next_node (h x)"
  shows "sibs h' p xs = sibs h p xs"
  using assms
proof (induction xs arbitrary: p)
  case (Cons x xs)
  from Cons.prems [of x] have "map_option next_node (h' x) = map_option next_node (h x)" by simp
  then show ?case
    using Cons.IH Cons.prems by (cases "h x"; cases "h' x") auto
qed simp

lemma sibs_unique: "sibs h p xs \<Longrightarrow> sibs h p ys \<Longrightarrow> xs = ys"
proof (induction xs arbitrary: p ys)
  case (Cons x xs)
  then show ?case by (cases ys) auto
qed simp

lemma sibs_append_iff:
  "sibs h p (xs @ y # ys) \<Longrightarrow> \<exists>n. h y = Some n \<and> y \<noteq> 0 \<and> sibs h y (y # ys) \<and> sibs h (next_node n) ys"
  by (induction xs arbitrary: p) auto

lemma sibs_distinct: "sibs h p xs \<Longrightarrow> distinct xs"
proof (induction xs arbitrary: p)
  case (Cons x xs)
  then obtain n where n: "h x = Some n" "sibs h (next_node n) xs" by auto
  have "x \<notin> set xs"
  proof
    assume "x \<in> set xs"
    then obtain as bs where xs: "xs = as @ x # bs" by (meson split_list)
    with n have "sibs h (next_node n) bs" by (auto dest: sibs_append_iff)
    with n have "xs = bs" by (blast intro: sibs_unique)
    with xs show False by simp
  qed
  with Cons.IH [OF n(2)] show ?case by simp
qed simp

lemma sibs_in_heap: "sibs h p xs \<Longrightarrow> x \<in> set xs \<Longrightarrow> x \<noteq> 0 \<and> (\<exists>n. h x = Some n)"
  by (induction xs arbitrary: p) auto

lemma sibs_nonempty: "sibs h p xs \<Longrightarrow> p \<noteq> 0 \<Longrightarrow> p \<in> set xs"
  by (cases xs) auto

lemma find_prev_sibs:
  assumes "sibs h p (as @ q # x # bs)"
  shows "find_prev h p x = Some q"
  using assms
proof (induction as arbitrary: p)
  case Nil
  then show ?case by (auto simp: find_prev.simps [of h q] deref_def)
next
  case (Cons a as)
  then obtain n where n: "p = a" "a \<noteq> 0" "h a = Some n" "sibs h (next_node n) (as @ q # x # bs)"
    by auto
  have d: "distinct (as @ q # x # bs)" using n(4) by (rule sibs_distinct)
  have "next_node n \<noteq> x"
    using n(4) d by (cases as) auto
  with n Cons.IH [OF n(4)] show ?case
    by (simp add: find_prev.simps [of h a] deref_def)
qed

text \<open>Cutting a node out of the middle of a list redirects its predecessor.\<close>

lemma sibs_cut:
  assumes "sibs h p (as @ q # x # bs)" and "h q = Some nq" and "h x = Some nx"
  shows "sibs (h(q \<mapsto> nq\<lparr>next_node := next_node nx\<rparr>)) p (as @ q # bs)"
  using assms
proof (induction as arbitrary: p)
  case Nil
  have d: "distinct (q # x # bs)" using sibs_distinct [OF Nil.prems(1)] by simp
  have "sibs h (next_node nx) bs" using Nil.prems by auto
  then have "sibs (h(q \<mapsto> nq\<lparr>next_node := next_node nx\<rparr>)) (next_node nx) bs"
    using d by (subst sibs_cong [where h = h]) auto
  then show ?case using Nil.prems by (auto simp: fun_upd_def)
next
  case (Cons a as)
  have "distinct ((a # as) @ q # x # bs)" using sibs_distinct [OF Cons.prems(1)] .
  then have "a \<noteq> q" by auto
  then show ?case using Cons by auto
qed

section \<open>The invariant\<close>

text \<open>\<open>kids D h p\<close>: the nodes whose parent is \<open>p\<close>, except those in flight.\<close>

definition kids :: "ptr set \<Rightarrow> heap \<Rightarrow> ptr \<Rightarrow> ptr set" where
  "kids D h p = {q. q \<notin> D \<and> (\<exists>n. h q = Some n \<and> parent n = p)}"

definition prel :: "ptr set \<Rightarrow> heap \<Rightarrow> (ptr \<times> ptr) set" where
  "prel D h = {(p, q). q \<in> kids D h p}"

definition shape :: "ptr set \<Rightarrow> heap \<Rightarrow> bool" where
  "shape D h \<longleftrightarrow>
     h 0 = None \<and> root_ptr \<notin> D \<and> (\<exists>r. h root_ptr = Some r \<and> parent r = 0) \<and>
     (\<forall>p n. h p = Some n \<and> p \<notin> D \<and> p \<noteq> root_ptr \<longrightarrow> h (parent n) \<noteq> None) \<and>
     (\<forall>p n. h p = Some n \<longrightarrow> (\<exists>xs. sibs h (child n) xs \<and> set xs = kids D h p)) \<and>
     acyclic (prel D h)"

definition counts :: "ptr set \<Rightarrow> (ptr \<Rightarrow> nat) \<Rightarrow> heap \<Rightarrow> bool" where
  "counts D K h \<longleftrightarrow>
     (\<forall>p n. h p = Some n \<longrightarrow> unat (refcount n) = card (kids D h p) + K p) \<and>
     (\<forall>p n. h p = Some n \<and> p \<notin> D \<longrightarrow> 0 < refcount n) \<and>
     (\<forall>p. 0 < K p \<longrightarrow> h p \<noteq> None)"

definition node_inv :: "(ptr \<Rightarrow> nat) \<Rightarrow> heap \<Rightarrow> bool" where
  "node_inv K h \<longleftrightarrow> shape {} h \<and> counts {} K h \<and> 2 \<le> K root_ptr"

lemma shape_null [simp]: "shape D h \<Longrightarrow> h 0 = None"
  by (simp add: shape_def)

lemma shape_root: "shape D h \<Longrightarrow> \<exists>r. h root_ptr = Some r \<and> parent r = 0"
  by (simp add: shape_def)

lemma shape_parent:
  "shape D h \<Longrightarrow> h p = Some n \<Longrightarrow> p \<notin> D \<Longrightarrow> p \<noteq> root_ptr \<Longrightarrow> \<exists>m. h (parent n) = Some m"
  by (auto simp: shape_def)

lemma shape_sibs:
  "shape D h \<Longrightarrow> h p = Some n \<Longrightarrow> \<exists>xs. sibs h (child n) xs \<and> set xs = kids D h p"
  by (auto simp: shape_def)

lemma shape_acyclic: "shape D h \<Longrightarrow> acyclic (prel D h)"
  by (simp add: shape_def)

lemma shape_parent_ne: "shape D h \<Longrightarrow> q \<in> kids D h p \<Longrightarrow> p \<noteq> q"
  using shape_acyclic [of D h] by (auto simp: acyclic_def prel_def)

lemma deref_shape [simp]: "shape D h \<Longrightarrow> deref h p = h p"
  by (auto simp: deref_def)

lemma counts_eq: "counts D K h \<Longrightarrow> h p = Some n \<Longrightarrow> unat (refcount n) = card (kids D h p) + K p"
  by (simp add: counts_def)

lemma counts_pos: "counts D K h \<Longrightarrow> h p = Some n \<Longrightarrow> p \<notin> D \<Longrightarrow> 0 < refcount n"
  by (auto simp: counts_def)

lemma counts_held: "counts D K h \<Longrightarrow> 0 < K p \<Longrightarrow> \<exists>n. h p = Some n"
  by (auto simp: counts_def)

text \<open>Two heaps with the same links: same addresses, same parent, child and next fields.\<close>

definition links :: "node \<Rightarrow> ptr \<times> ptr \<times> ptr" where
  "links n = (parent n, child n, next_node n)"

definition same_links :: "heap \<Rightarrow> heap \<Rightarrow> bool" where
  "same_links h h' \<longleftrightarrow> (\<forall>q. map_option links (h' q) = map_option links (h q))"

lemma same_links_refl [simp, intro]: "same_links h h"
  by (simp add: same_links_def)

lemma same_links_trans: "same_links h h' \<Longrightarrow> same_links h' h'' \<Longrightarrow> same_links h h''"
  by (simp add: same_links_def)

lemma same_links_upd:
  "h p = Some n \<Longrightarrow> links n' = links n \<Longrightarrow> same_links h (h(p \<mapsto> n'))"
  by (simp add: same_links_def)

lemma same_linksD:
  "same_links h h' \<Longrightarrow> h p = Some n \<Longrightarrow> \<exists>n'. h' p = Some n' \<and> links n' = links n"
  unfolding same_links_def by (drule spec [of _ p]) auto

lemma same_links_sym: "same_links h h' \<Longrightarrow> same_links h' h"
  by (simp add: same_links_def)

lemma same_links_parent:
  "same_links h h' \<Longrightarrow> (\<exists>n. h' q = Some n \<and> parent n = p) \<longleftrightarrow> (\<exists>n. h q = Some n \<and> parent n = p)"
  unfolding same_links_def links_def by (drule spec [of _ q]) (cases "h q"; cases "h' q"; auto)

lemma same_links_kids: "same_links h h' \<Longrightarrow> kids D h' p = kids D h p"
  by (simp add: kids_def same_links_parent)

lemma same_links_sibs: "same_links h h' \<Longrightarrow> sibs h' p xs = sibs h p xs"
proof (rule sibs_cong)
  fix x assume "same_links h h'"
  then have "map_option links (h' x) = map_option links (h x)" by (simp add: same_links_def)
  then show "map_option next_node (h' x) = map_option next_node (h x)"
    by (cases "h x"; cases "h' x") (auto simp: links_def)
qed

lemma same_links_shape: assumes sl: "same_links h h'" and sh: "shape D h" shows "shape D h'"
proof -
  have eq: "kids D h' p = kids D h p" for p using sl by (rule same_links_kids)
  have old: "\<exists>m. h p = Some m \<and> links m = links n" if "h' p = Some n" for p n
    using same_linksD [OF same_links_sym [OF sl] that] by auto
  have "h' 0 = None" using sl sh by (metis old not_Some_eq shape_null)
  moreover have "\<exists>r. h' root_ptr = Some r \<and> parent r = 0"
    using shape_root [OF sh] same_linksD [OF sl] by (fastforce simp: links_def)
  moreover have "h' (parent n) \<noteq> None" if a: "h' p = Some n" "p \<notin> D" "p \<noteq> root_ptr" for p n
  proof -
    obtain m where m: "h p = Some m" "links m = links n" using old a(1) by blast
    then obtain k where "h (parent n) = Some k"
      using shape_parent [OF sh m(1) a(2,3)] by (auto simp: links_def)
    then show ?thesis using same_linksD [OF sl] by fastforce
  qed
  moreover have "\<exists>xs. sibs h' (child n) xs \<and> set xs = kids D h' p" if a: "h' p = Some n" for p n
  proof -
    obtain m where m: "h p = Some m" "links m = links n" using old a by blast
    then have "child m = child n" by (simp add: links_def)
    with shape_sibs [OF sh m(1)] show ?thesis by (simp add: eq same_links_sibs [OF sl])
  qed
  moreover have "prel D h' = prel D h" by (simp add: prel_def eq)
  ultimately show ?thesis using sh by (auto simp: shape_def)
qed

lemma same_links_counts:
  assumes sl: "same_links h h'" and rc: "\<And>q. map_option refcount (h' q) = map_option refcount (h q)"
    and c: "counts D K h"
  shows "counts D K h'"
proof -
  have "\<exists>m. h p = Some m \<and> refcount m = refcount n" if "h' p = Some n" for p n
    using rc [of p] that by (cases "h p") auto
  moreover have "h' p \<noteq> None" if "h p \<noteq> None" for p
    using rc [of p] that by (cases "h' p") auto
  ultimately show ?thesis
    using c unfolding counts_def same_links_kids [OF sl] by (metis (no_types, lifting))
qed

section \<open>Taking a node off its list\<close>

lemma kids_parents:
  assumes "\<And>q. map_option parent (h' q) = map_option parent (h q)"
  shows "kids D h' r = kids D h r"
proof -
  have "(\<exists>n. h' q = Some n \<and> parent n = r) = (\<exists>n. h q = Some n \<and> parent n = r)" for q
    using assms [of q] by (cases "h q"; cases "h' q") auto
  then show ?thesis by (simp add: kids_def)
qed

lemma kids_insert: "kids (insert p D) h r = kids D h r - {p}"
  by (auto simp: kids_def)

lemma shape_relink:
  assumes sh: "shape D h" and par: "\<And>q. map_option parent (h' q) = map_option parent (h q)"
    and D: "D \<subseteq> D'" "root_ptr \<notin> D'"
    and lists: "\<And>r n. h' r = Some n \<Longrightarrow> \<exists>xs. sibs h' (child n) xs \<and> set xs = kids D' h' r"
  shows "shape D' h'"
proof -
  have iff: "h' q = None \<longleftrightarrow> h q = None" for q
    using par [of q] by (cases "h q"; cases "h' q") auto
  have old: "\<exists>m. h q = Some m \<and> parent m = parent n" if "h' q = Some n" for q n
    using par [of q] that by (cases "h q") auto
  have "prel D' h' \<subseteq> prel D h"
    using D by (auto simp: prel_def kids_def dest!: old)
  then have "acyclic (prel D' h')" using shape_acyclic [OF sh] by (rule acyclic_subset [rotated])
  moreover have "\<exists>r. h' root_ptr = Some r \<and> parent r = 0"
    using shape_root [OF sh] par [of root_ptr] by (cases "h' root_ptr") auto
  moreover have "h' (parent n) \<noteq> None" if a: "h' q = Some n" "q \<notin> D'" "q \<noteq> root_ptr" for q n
  proof -
    obtain m where m: "h q = Some m" "parent m = parent n" using old [OF a(1)] by blast
    then have "\<exists>k. h (parent n) = Some k" using shape_parent [OF sh m(1)] a D by auto
    then show ?thesis by (auto simp: iff)
  qed
  ultimately show ?thesis using sh D lists by (auto simp: shape_def iff)
qed

text \<open>What an operation on links and counts leaves alone.\<close>

definition core :: "node \<Rightarrow> node" where
  "core n = n\<lparr>refcount := 0, child := 0, next_node := 0\<rparr>"

definition shrinks :: "heap \<Rightarrow> heap \<Rightarrow> bool" where
  "shrinks h h' \<longleftrightarrow> (\<forall>q n'. h' q = Some n' \<longrightarrow> (\<exists>n. h q = Some n \<and> core n' = core n))"

lemma core_parent: "core a = core b \<Longrightarrow> parent a = parent b"
  unfolding core_def by (metis node.select_convs(11) node.surjective node.update_convs(1,9,10))

lemma core_upd [simp]:
  "core (n\<lparr>refcount := x\<rparr>) = core n" "core (n\<lparr>child := y\<rparr>) = core n"
  "core (n\<lparr>next_node := y\<rparr>) = core n"
  by (simp_all add: core_def)

lemma shrinks_refl [simp, intro]: "shrinks h h"
  by (auto simp: shrinks_def)

lemma shrinks_trans: "shrinks h h' \<Longrightarrow> shrinks h' h'' \<Longrightarrow> shrinks h h''"
  unfolding shrinks_def by metis

lemma shrinks_upd: "h q = Some m \<Longrightarrow> core m' = core m \<Longrightarrow> shrinks h (h(q \<mapsto> m'))"
  by (auto simp: shrinks_def)

lemma shrinks_kids: "shrinks h h' \<Longrightarrow> kids D h' r \<subseteq> kids D h r"
  unfolding shrinks_def kids_def by (fastforce dest: core_parent)

lemma unlink_first:
  assumes sh: "shape D h" and p: "h p = Some n" "p \<notin> D" "p \<noteq> root_ptr"
    and pn: "h (parent n) = Some pn" and xs: "sibs h (child pn) (p # bs)"
      "set (p # bs) = kids D h (parent n)"
  shows "unlink_sibling h p = Some (h(parent n \<mapsto> pn\<lparr>child := next_node n\<rparr>))"
    and "shape (insert p D) (h(parent n \<mapsto> pn\<lparr>child := next_node n\<rparr>))"
proof -
  let ?h = "h(parent n \<mapsto> pn\<lparr>child := next_node n\<rparr>)"
  show "unlink_sibling h p = Some ?h"
    using assms by (simp add: unlink_sibling_def modify_def)
  have par: "map_option parent (?h q) = map_option parent (h q)" for q using pn by simp
  have eqs: "sibs ?h q zs = sibs h q zs" for q zs by (rule sibs_cong) (simp add: pn)
  have kd: "kids (insert p D) ?h r = kids D h r - {p}" for r
    by (simp only: kids_insert kids_parents [OF par])
  show "shape (insert p D) ?h"
  proof (rule shape_relink [OF sh par])
    fix r m assume m: "?h r = Some m"
    show "\<exists>xs. sibs ?h (child m) xs \<and> set xs = kids (insert p D) ?h r"
    proof (cases "r = parent n")
      case True
      then have "child m = next_node n" using m by auto
      then have "sibs ?h (child m) bs" using xs p by (simp only: eqs) auto
      moreover have "set bs = kids D h r - {p}"
        using True xs sibs_distinct [OF xs(1)] by auto
      ultimately show ?thesis by (auto simp: kd)
    next
      case False
      with m have "h r = Some m" by simp
      then obtain ys where ys: "sibs h (child m) ys" "set ys = kids D h r"
        using shape_sibs [OF sh] by blast
      have "p \<notin> kids D h r" using p False by (auto simp: kids_def)
      with ys show ?thesis by (auto simp: kd eqs)
    qed
  qed (use sh p in \<open>auto simp: shape_def\<close>)
qed

lemma unlink_later:
  assumes sh: "shape D h" and p: "h p = Some n" "p \<notin> D" "p \<noteq> root_ptr"
    and pn: "h (parent n) = Some pn" and xs: "sibs h (child pn) (as @ q # p # bs)"
      "set (as @ q # p # bs) = kids D h (parent n)" and q: "h q = Some nq"
  shows "unlink_sibling h p = Some (h(q \<mapsto> nq\<lparr>next_node := next_node n\<rparr>))"
    and "shape (insert p D) (h(q \<mapsto> nq\<lparr>next_node := next_node n\<rparr>))"
proof -
  let ?h = "h(q \<mapsto> nq\<lparr>next_node := next_node n\<rparr>)"
  have d: "distinct (as @ q # p # bs)" using xs(1) by (rule sibs_distinct)
  have "child pn \<noteq> p" using xs(1) d by (cases as) auto
  then show "unlink_sibling h p = Some ?h"
    using assms by (simp add: unlink_sibling_def modify_def find_prev_sibs)
  have par: "map_option parent (?h r) = map_option parent (h r)" for r using q by simp
  have kd: "kids (insert p D) ?h r = kids D h r - {p}" for r
    by (simp only: kids_insert kids_parents [OF par])
  have qk: "q \<in> kids D h (parent n)" using xs(2) by auto
  show "shape (insert p D) ?h"
  proof (rule shape_relink [OF sh par])
    fix r m assume m: "?h r = Some m"
    show "\<exists>xs. sibs ?h (child m) xs \<and> set xs = kids (insert p D) ?h r"
    proof (cases "r = parent n")
      case True
      then have "child m = child pn" using m pn q by (auto split: if_splits)
      with sibs_cut [OF xs(1) q p(1)] have "sibs ?h (child m) (as @ q # bs)" by simp
      moreover have "set (as @ q # bs) = kids D h r - {p}"
        unfolding True xs(2) [symmetric] using d by auto
      ultimately show ?thesis by (auto simp: kd)
    next
      case False
      obtain m0 where m0: "h r = Some m0" "child m = child m0"
        using m q by (auto split: if_splits)
      then obtain ys where ys: "sibs h (child m) ys" "set ys = kids D h r"
        using shape_sibs [OF sh] by metis
      have "q \<notin> set ys" using ys qk False by (auto simp: kids_def)
      then have "sibs ?h (child m) ys = sibs h (child m) ys" by (intro sibs_cong) auto
      moreover have "p \<notin> kids D h r" using p False by (auto simp: kids_def)
      ultimately show ?thesis using ys by (auto simp: kd)
    qed
  qed (use sh p in \<open>auto simp: shape_def\<close>)
qed

lemma unlink_sibling_ok:
  assumes sh: "shape D h" and p: "h p = Some n" "p \<notin> D" "p \<noteq> root_ptr"
  shows "\<exists>h'. unlink_sibling h p = Some h' \<and> shape (insert p D) h' \<and> shrinks h h' \<and>
    (\<forall>q. map_option refcount (h' q) = map_option refcount (h q)) \<and> h' p = h p \<and>
    (\<forall>q. map_option parent (h' q) = map_option parent (h q))"
proof -
  obtain pn where pn: "h (parent n) = Some pn" using shape_parent [OF sh p] by blast
  obtain xs where xs: "sibs h (child pn) xs" "set xs = kids D h (parent n)"
    using shape_sibs [OF sh pn] by blast
  have k: "p \<in> kids D h (parent n)" using p by (simp add: kids_def)
  then obtain as bs where split: "xs = as @ p # bs" using xs(2) by (metis split_list)
  have ne: "parent n \<noteq> p" using shape_parent_ne [OF sh k] .
  show ?thesis
  proof (cases as rule: rev_cases)
    case Nil
    with split xs have "sibs h (child pn) (p # bs)" "set (p # bs) = kids D h (parent n)" by auto
    from unlink_first [OF sh p pn this] show ?thesis
      using pn ne by (auto intro: shrinks_upd)
  next
    case (snoc as' q)
    with split xs have l: "sibs h (child pn) (as' @ q # p # bs)"
      "set (as' @ q # p # bs) = kids D h (parent n)" by auto
    then obtain nq where q: "h q = Some nq" using sibs_in_heap [OF l(1), of q] by auto
    have "q \<noteq> p" using sibs_distinct [OF l(1)] by auto
    with unlink_later [OF sh p pn l q] q show ?thesis by (auto intro: shrinks_upd)
  qed
qed

section \<open>Releasing references\<close>

text \<open>The equations of \<open>release_node_locked\<close> as in the source, over the two functions.\<close>

lemma modify_Some: "h p = Some n \<Longrightarrow> p \<noteq> 0 \<Longrightarrow> modify h p f = Some (h(p \<mapsto> f n))"
  by (simp add: modify_def deref_def)

lemma release_node_locked_eq:
  "release_node_locked h p = do {
     n \<leftarrow> deref h p;
     if 0 < refcount n
     then do {
       h1 \<leftarrow> modify h p (\<lambda>n. n\<lparr>refcount := refcount n - 1\<rparr>);
       if refcount n - 1 = 0
       then do {
         h2 \<leftarrow> remove_node_from_parent_locked h1 p;
         if p = root_ptr then None else Some (h2(p := None))
       }
       else Some h1
     }
     else Some h
   }"
proof (cases "deref h p")
  case None
  then show ?thesis by (simp add: release_node_locked.simps [of h p])
next
  case (Some n)
  then have "p \<noteq> 0" by (auto simp: deref_def split: if_splits)
  with Some show ?thesis
    by (simp add: release_node_locked.simps [of h p] modify_def remove_node_from_parent_locked_def
        deref_def)
qed

lemma counts_dec:
  assumes c: "counts D K h" and p: "h p = Some n" "0 < K p" "1 < unat (refcount n)"
  shows "counts D (K(p := K p - 1)) (h(p \<mapsto> n\<lparr>refcount := refcount n - 1\<rparr>))"
proof -
  let ?h = "h(p \<mapsto> n\<lparr>refcount := refcount n - 1\<rparr>)"
  have kd: "kids D ?h r = kids D h r" for r by (rule kids_parents) (simp add: p)
  have u: "unat (refcount n - 1) = unat (refcount n) - 1"
    using p(3) by (intro unat_dec_if) (simp add: word_less_nat_alt)
  have "0 < unat (refcount n - 1)" using u p(3) by simp
  then have "0 < refcount n - 1" by (simp add: word_less_nat_alt)
  then show ?thesis using c p u unfolding counts_def kd by auto
qed

lemma release_dec:
  assumes sh: "shape D h" and p: "h p = Some n" "1 < unat (refcount n)"
  shows "release_node_locked h p = Some (h(p \<mapsto> n\<lparr>refcount := refcount n - 1\<rparr>))"
    and "shape D (h(p \<mapsto> n\<lparr>refcount := refcount n - 1\<rparr>))"
proof -
  have "0 < refcount n" "refcount n - 1 \<noteq> 0"
    using p(2) by (auto simp: word_less_nat_alt)
  then show "release_node_locked h p = Some (h(p \<mapsto> n\<lparr>refcount := refcount n - 1\<rparr>))"
    using p sh by (simp add: release_node_locked.simps [of h p] modify_def)
  show "shape D (h(p \<mapsto> n\<lparr>refcount := refcount n - 1\<rparr>))"
    using p sh by (intro same_links_shape [OF same_links_upd]) (auto simp: links_def)
qed

lemma kids_free: "kids D (h(p := None)) r = kids (insert p D) h r"
  by (auto simp: kids_def)

lemma free_shape:
  assumes sh: "shape (insert p D) h" and leaf: "kids (insert p D) h p = {}" and ne: "p \<noteq> root_ptr"
  shows "shape D (h(p := None))"
proof -
  let ?h = "h(p := None)"
  have "?h (parent n) \<noteq> None" if a: "?h q = Some n" "q \<notin> D" "q \<noteq> root_ptr" for q n
  proof -
    have q: "q \<noteq> p" "h q = Some n" using a by (auto split: if_splits)
    then have "parent n \<noteq> p" using leaf a by (auto simp: kids_def)
    moreover have "\<exists>m. h (parent n) = Some m" using shape_parent [OF sh q(2)] q a by auto
    ultimately show ?thesis by auto
  qed
  moreover have "\<exists>xs. sibs ?h (child n) xs \<and> set xs = kids D ?h r" if a: "?h r = Some n" for r n
  proof -
    obtain xs where xs: "sibs h (child n) xs" "set xs = kids (insert p D) h r"
      using shape_sibs [OF sh, of r n] a by (auto split: if_splits)
    then have "p \<notin> set xs" by (auto simp: kids_def)
    then have "sibs ?h (child n) xs = sibs h (child n) xs" by (intro sibs_cong) auto
    with xs show ?thesis by (auto simp: kids_free)
  qed
  moreover have "?h 0 = None" "root_ptr \<notin> D" "\<exists>r. ?h root_ptr = Some r \<and> parent r = 0"
    using sh ne by (auto simp: shape_def)
  moreover have "acyclic (prel D ?h)" using shape_acyclic [OF sh] by (simp add: prel_def kids_free)
  ultimately show ?thesis unfolding shape_def by blast
qed

lemma free_counts:
  assumes "counts (insert p D) K h" and "K p = 0"
  shows "counts D K (h(p := None))"
  using assms by (auto simp: counts_def kids_free)

text \<open>The counts after a leaf without references has left its parent's list.\<close>

lemma counts_unlinked:
  assumes sh: "shape D h" and c: "counts D K h"
    and p: "h p = Some n" "p \<notin> D" "refcount n = 1" "0 < K p"
    and par: "h (parent n) = Some pn"
    and rc: "\<And>q. map_option refcount (h2 q) = map_option refcount ((h(p \<mapsto> n\<lparr>refcount := 0\<rparr>)) q)"
    and pa: "\<And>q. map_option parent (h2 q) = map_option parent (h q)"
  shows "counts (insert p D) (K(p := 0, parent n := K (parent n) + 1)) h2"
    and "kids D h p = {}" and "K p = 1"
proof -
  have kp: "p \<in> kids D h (parent n)" using p by (simp add: kids_def)
  then have ne: "parent n \<noteq> p" using shape_parent_ne [OF sh] by blast
  have "1 = card (kids D h p) + K p" using counts_eq [OF c p(1)] p(3) by simp
  with p(4) have z: "card (kids D h p) = 0" and k1: "K p = 1" by linarith+
  from z show e: "kids D h p = {}" by simp
  show "K p = 1" by (fact k1)
  have kd: "kids (insert p D) h2 r = kids D h r - {p}" for r
    by (simp only: kids_insert kids_parents [OF pa])
  have other: "\<exists>m. h q = Some m \<and> refcount m = refcount n2" if "h2 q = Some n2" "q \<noteq> p" for q n2
    using rc [of q] that by (cases "h q") auto
  have ex: "h2 q \<noteq> None" if "h q \<noteq> None" for q
    using pa [of q] that by (cases "h2 q") auto
  have eqn: "unat (refcount n2) = card (kids (insert p D) h2 q) + (K(p := 0, parent n := K (parent n) + 1)) q"
    if a: "h2 q = Some n2" for q n2
  proof (cases "q = p")
    case True
    then have "refcount n2 = 0" using rc [of p] a by simp
    then show ?thesis using True e ne by (simp add: kd)
  next
    case False
    obtain m where m: "h q = Some m" "refcount m = refcount n2" using other [OF a False] by blast
    then have u: "unat (refcount n2) = card (kids D h q) + K q" using c by (force simp: counts_def)
    show ?thesis
    proof (cases "q = parent n")
      case True
      then have "card (kids D h q) = Suc (card (kids D h q - {p}))"
        using kp by (metis card.remove finite_u32)
      then show ?thesis using True u ne by (simp add: kd)
    next
      case False
      then have "p \<notin> kids D h q" using p by (auto simp: kids_def)
      then show ?thesis using u \<open>q \<noteq> p\<close> False by (simp add: kd)
    qed
  qed
  moreover have "0 < refcount n2" if "h2 q = Some n2" "q \<notin> insert p D" for q n2
    using other [OF that(1)] that(2) c by (force simp: counts_def)
  moreover have "h2 q \<noteq> None" if "0 < (K(p := 0, parent n := K (parent n) + 1)) q" for q
    using that c par ex by (auto simp: counts_def split: if_splits)
  ultimately show "counts (insert p D) (K(p := 0, parent n := K (parent n) + 1)) h2"
    unfolding counts_def by blast
qed

text \<open>
  Releasing a reference the kernel holds never faults and keeps the invariant; it frees the node
  and, going up, every ancestor that is left with no child and no reference.
\<close>

definition released :: "ptr set \<Rightarrow> (ptr \<Rightarrow> nat) \<Rightarrow> heap \<Rightarrow> heap \<Rightarrow> bool" where
  "released D K h h' \<longleftrightarrow> shape D h' \<and> counts D K h' \<and> shrinks h h' \<and>
     (\<forall>q\<in>D. h q \<noteq> None \<longrightarrow> h' q \<noteq> None)"

lemma released_dec:
  assumes "shape D h" "counts D K h" "h p = Some n" "0 < K p" "1 < unat (refcount n)"
  shows "\<exists>h'. release_node_locked h p = Some h' \<and> released D (K(p := K p - 1)) h h'"
  using assms release_dec [OF assms(1,3,5)] counts_dec [OF assms(2-5)]
  by (auto simp: released_def intro: shrinks_upd)

lemma release_step:
  assumes sh: "shape D h" and c: "counts D K h" and p: "h p = Some n" "p \<notin> D" "p \<noteq> root_ptr"
    and one: "refcount n = 1" and K: "0 < K p" and leaf: "\<forall>d\<in>D. kids D h d = {}"
    and IH: "\<And>h2. shape (insert p D) h2 \<Longrightarrow>
       counts (insert p D) (K(p := 0, parent n := K (parent n) + 1)) h2 \<Longrightarrow>
       h2 (parent n) \<noteq> None \<Longrightarrow> dom h2 = dom h \<Longrightarrow> \<forall>d\<in>insert p D. kids (insert p D) h2 d = {} \<Longrightarrow>
       parent n \<notin> insert p D \<Longrightarrow>
       \<exists>h3. release_node_locked h2 (parent n) = Some h3 \<and> released (insert p D) (K(p := 0)) h2 h3"
  shows "\<exists>h'. release_node_locked h p = Some h' \<and> released D (K(p := K p - 1)) h h'"
proof -
  let ?h1 = "h(p \<mapsto> n\<lparr>refcount := 0\<rparr>)"
  obtain pn where pn: "h (parent n) = Some pn" using shape_parent [OF sh p] by blast
  have par: "parent n \<noteq> 0" using pn sh by auto
  have pz: "p \<noteq> 0" using p sh by auto
  have kp: "p \<in> kids D h (parent n)" using p by (simp add: kids_def)
  have pd: "parent n \<notin> insert p D" using kp leaf shape_parent_ne [OF sh kp] by auto
  have sh1: "shape D ?h1" using p sh by (intro same_links_shape [OF same_links_upd]) (auto simp: links_def)
  obtain h2 where h2: "unlink_sibling ?h1 p = Some h2" "shape (insert p D) h2" "shrinks ?h1 h2"
    "\<And>q. map_option refcount (h2 q) = map_option refcount (?h1 q)" "h2 p = ?h1 p"
    "\<And>q. map_option parent (h2 q) = map_option parent (?h1 q)"
    using unlink_sibling_ok [OF sh1, of p "n\<lparr>refcount := 0\<rparr>"] p by auto
  have pa: "map_option parent (h2 q) = map_option parent (h q)" for q
    using h2(6) [of q] p by (auto split: if_splits)
  note cu = counts_unlinked [OF sh c p(1,2) one K pn h2(4) pa]
  have dom2: "dom h2 = dom h" using pa by (auto simp: dom_def) (metis option.map_disc_iff not_None_eq)+
  have leaf2: "\<forall>d\<in>insert p D. kids (insert p D) h2 d = {}"
    using leaf cu(2) by (simp add: kids_insert kids_parents [OF pa])
  obtain h3 where h3: "release_node_locked h2 (parent n) = Some h3"
    and rel: "released (insert p D) (K(p := 0)) h2 h3"
    using IH [OF h2(2) cu(1) _ dom2 leaf2 pd] pn dom2 by blast
  obtain m where m: "h3 p = Some m" using rel h2(5) p by (auto simp: released_def)
  have "release_node_locked h p = Some (h3(p := None))"
    using p pz one par h2(1) h3 m
    by (simp add: release_node_locked.simps [of h p] modify_def deref_def)
  moreover have "shape D (h3(p := None))"
    using rel leaf2 shrinks_kids [of h2 h3] p by (intro free_shape) (auto simp: released_def)
  moreover have "counts D (K(p := 0)) (h3(p := None))"
    using rel by (intro free_counts) (auto simp: released_def)
  moreover have "shrinks h (h3(p := None))"
  proof -
    have "shrinks h ?h1" using p by (intro shrinks_upd) auto
    then have "shrinks h h3" using h2(3) rel by (meson released_def shrinks_trans)
    then show ?thesis by (auto simp: shrinks_def)
  qed
  moreover have "\<forall>q\<in>D. h q \<noteq> None \<longrightarrow> (h3(p := None)) q \<noteq> None"
    using rel p(2) dom2 by (auto simp: released_def dom_def)
  ultimately show ?thesis using cu(3) by (auto simp: released_def)
qed

lemma release_ok:
  assumes "shape D h" "counts D K h" "h p \<noteq> None" "p \<notin> D" "0 < K p"
    "\<forall>d\<in>D. kids D h d = {}" "0 < (K(p := K p - 1)) root_ptr"
  shows "\<exists>h'. release_node_locked h p = Some h' \<and> released D (K(p := K p - 1)) h h'"
  using assms
proof (induction "card (dom h - D)" arbitrary: h p D K rule: less_induct)
  case less
  obtain n where n: "h p = Some n" using less.prems(3) by blast
  show ?case
  proof (cases "1 < unat (refcount n)")
    case True
    then show ?thesis using less.prems n by (intro released_dec) auto
  next
    case False
    have pos: "0 < refcount n" using less.prems n by (auto simp: counts_def)
    with False have "unat (refcount n) = 1" by (simp add: word_less_nat_alt)
    then have one: "refcount n = 1" by (simp add: word_unat_eq_iff)
    have "unat (1 :: u32) = card (kids D h p) + K p" using counts_eq [OF less.prems(2) n] one by simp
    then have k1: "K p = 1" using less.prems(5) unfolding unat_1 by linarith
    with less.prems(7) have nr: "p \<noteq> root_ptr" by (auto split: if_splits)
    have kp: "p \<in> kids D h (parent n)" using n less.prems(4) by (simp add: kids_def)
    then have ne: "parent n \<noteq> p" using shape_parent_ne [OF less.prems(1)] by blast
    have smaller: "card (dom h - insert p D) < card (dom h - D)"
      using less.prems(4) n by (intro psubset_card_mono) auto
    show ?thesis
    proof (rule release_step [OF less.prems(1,2) n less.prems(4) nr one less.prems(5,6)])
      fix h2 let ?K = "K(p := 0, parent n := K (parent n) + 1)"
      assume a: "shape (insert p D) h2" "counts (insert p D) ?K h2" "h2 (parent n) \<noteq> None"
        "dom h2 = dom h" "\<forall>d\<in>insert p D. kids (insert p D) h2 d = {}" "parent n \<notin> insert p D"
      have eq: "?K(parent n := ?K (parent n) - 1) = K(p := 0)" using ne by auto
      have r: "0 < (K(p := 0)) root_ptr" using less.prems(7) k1 by simp
      show "\<exists>h3. release_node_locked h2 (parent n) = Some h3 \<and> released (insert p D) (K(p := 0)) h2 h3"
        using less.hyps [where h = h2 and D = "insert p D" and p = "parent n" and K = ?K] smaller a r
        unfolding eq by simp
    qed
  qed
qed

end
