(* ===== verification/Fuse_Ops.thy ===== *)
theory Fuse_Ops
  imports Fuse_Tree
begin

text \<open>
  The node operations of \<open>fuse.cpp\<close> keep the structural invariant and never fault: acquiring,
  adding to a directory, creating, looking up and re-deriving permissions.
\<close>

section \<open>Acquiring and adding\<close>

lemma acquire_ok:
  assumes sh: "shape D h" and c: "counts D K h" and p: "h p = Some n"
    and ov: "unat (refcount n) + 1 < 2 ^ 32"
  shows "acquire_node_locked h p = Some (h(p \<mapsto> n\<lparr>refcount := refcount n + 1\<rparr>))"
    and "shape D (h(p \<mapsto> n\<lparr>refcount := refcount n + 1\<rparr>))"
    and "counts D (K(p := K p + 1)) (h(p \<mapsto> n\<lparr>refcount := refcount n + 1\<rparr>))"
proof -
  let ?h = "h(p \<mapsto> n\<lparr>refcount := refcount n + 1\<rparr>)"
  show "acquire_node_locked h p = Some ?h"
    using sh p by (simp add: acquire_node_locked_def modify_def)
  show "shape D ?h" using p sh by (intro same_links_shape [OF same_links_upd]) (auto simp: links_def)
  have kd: "kids D ?h r = kids D h r" for r by (rule kids_parents) (simp add: p)
  have u: "unat (refcount n + 1) = unat (refcount n) + 1" using ov by (rule unat_inc_if)
  then have "0 < refcount n + 1" by (simp add: word_less_nat_alt)
  then show "counts D (K(p := K p + 1)) ?h"
    using c p u unfolding counts_def kd by auto
qed

text \<open>An in-flight node put at the head of a directory's list is in flight no more.\<close>

definition attach :: "heap \<Rightarrow> ptr \<Rightarrow> ptr \<Rightarrow> node \<Rightarrow> node \<Rightarrow> heap" where
  "attach h p par n pn = h(p \<mapsto> n\<lparr>parent := par, next_node := child pn\<rparr>,
                          par \<mapsto> pn\<lparr>child := p, refcount := refcount pn + 1\<rparr>)"

lemma add_node_to_parent_eq:
  assumes "h p = Some n" "h par = Some pn" "p \<noteq> par" "p \<noteq> 0" "par \<noteq> 0"
  shows "add_node_to_parent_locked h p par = Some (attach h p par n pn)"
  using assms
  by (simp add: add_node_to_parent_locked_def acquire_node_locked_def modify_def deref_def attach_def
      fun_upd_twist)

lemma kids_attach:
  assumes "h p = Some n" "h par = Some pn" "p \<noteq> par" "p \<notin> D"
  shows "kids D (attach h p par n pn) r = kids (insert p D) h r \<union> (if r = par then {p} else {})"
  using assms by (auto simp: kids_def attach_def split: if_splits)

lemma attach_shape:
  assumes sh: "shape (insert p D) h" and p: "h p = Some n" "p \<notin> D"
    and par: "h par = Some pn" and cyc: "(p, par) \<notin> (prel (insert p D) h)\<^sup>*"
  shows "shape D (attach h p par n pn)"
proof -
  let ?h = "attach h p par n pn"
  have ne: "p \<noteq> par" using cyc by auto
  have nr: "p \<noteq> root_ptr" "root_ptr \<notin> D" using sh by (auto simp: shape_def)
  note ka = kids_attach [OF p(1) par ne p(2)]
  have dom: "?h q = None \<longleftrightarrow> h q = None" for q using p par by (auto simp: attach_def)
  have "prel D ?h = insert (par, p) (prel (insert p D) h)"
    by (auto simp: prel_def ka split: if_splits)
  then have "acyclic (prel D ?h)"
    using cyc shape_acyclic [OF sh] by (simp add: acyclic_insert)
  moreover have "\<exists>r. ?h root_ptr = Some r \<and> parent r = 0"
    using shape_root [OF sh] nr par by (auto simp: attach_def)
  moreover have "?h (parent m) \<noteq> None" if a: "?h q = Some m" "q \<notin> D" "q \<noteq> root_ptr" for q m
  proof (cases "q = p")
    case True
    then show ?thesis using a par ne by (auto simp: attach_def)
  next
    case False
    then obtain m0 where "h q = Some m0" "parent m = parent m0"
      using a(1) par by (auto simp: attach_def split: if_splits)
    with shape_parent [OF sh this(1)] a False have "h (parent m) \<noteq> None" by auto
    then show ?thesis by (simp only: dom not_False_eq_True)
  qed
  moreover have "\<exists>xs. sibs ?h (child m) xs \<and> set xs = kids D ?h r" if a: "?h r = Some m" for r m
  proof -
    obtain m0 where m0: "h r = Some m0" using a dom by (metis not_None_eq)
    obtain xs where xs: "sibs h (child m0) xs" "set xs = kids (insert p D) h r"
      using shape_sibs [OF sh m0] by blast
    have px: "p \<notin> set xs" using xs by (simp add: kids_def)
    have keep: "sibs ?h q xs = sibs h q xs" for q
      using px par by (intro sibs_cong) (auto simp: attach_def)
    show ?thesis
    proof (cases "r = par")
      case True
      then have "sibs ?h (child m) (p # xs)"
        using a m0 par keep xs(1) ne sh p by (auto simp: attach_def)
      moreover have "set (p # xs) = kids D ?h r" using True xs(2) by (simp add: ka)
      ultimately show ?thesis by blast
    next
      case False
      then have "child m = child m0" using a m0 p by (auto simp: attach_def split: if_splits)
      then show ?thesis using False xs keep by (auto simp: ka)
    qed
  qed
  moreover have "?h 0 = None" using sh by (simp only: dom shape_null)
  ultimately show ?thesis using nr unfolding shape_def by blast
qed

lemma attach_counts:
  assumes c: "counts (insert p D) K h" and p: "h p = Some n" "p \<notin> D" "0 < refcount n"
    and par: "h par = Some pn" "p \<noteq> par" and ov: "unat (refcount pn) + 1 < 2 ^ 32"
  shows "counts D K (attach h p par n pn)"
proof -
  let ?h = "attach h p par n pn"
  note ka = kids_attach [OF p(1) par p(2)]
  have u: "unat (refcount pn + 1) = unat (refcount pn) + 1" using ov by (rule unat_inc_if)
  have "p \<notin> kids (insert p D) h par" by (simp add: kids_def)
  then have cp: "card (kids D ?h par) = card (kids (insert p D) h par) + 1"
    unfolding ka by simp
  have "unat (refcount m) = card (kids D ?h q) + K q" if a: "?h q = Some m" for q m
  proof (cases "q = par")
    case True
    then show ?thesis using a u cp counts_eq [OF c par(1)] by (auto simp: attach_def)
  next
    case False
    then obtain m0 where "h q = Some m0" "refcount m = refcount m0"
      using a p by (auto simp: attach_def split: if_splits)
    then show ?thesis using False counts_eq [OF c] by (simp add: ka)
  qed
  moreover have "0 < refcount m" if a: "?h q = Some m" "q \<notin> D" for q m
  proof (cases "q = par")
    case True
    then have "unat (refcount m) > 0" using a u by (auto simp: attach_def)
    then show ?thesis by (simp add: word_less_nat_alt)
  next
    case False
    then show ?thesis using a p c by (auto simp: attach_def counts_def split: if_splits)
  qed
  moreover have "?h q \<noteq> None" if "0 < K q" for q
    using counts_held [OF c that] by (auto simp: attach_def)
  ultimately show ?thesis unfolding counts_def by blast
qed

end
