(* ===== verification/Fuse_Perm.thy ===== *)
theory Fuse_Perm
  imports Fuse_Ops
begin

text \<open>
  Derived permissions. A node is settled when deriving its permissions again from its parent
  changes nothing. \<open>derive_permissions_recursive_locked\<close> terminates on a well-formed heap,
  settles every descendant and touches nothing else.
\<close>

section \<open>One node\<close>

definition rederived :: "node \<Rightarrow> node \<Rightarrow> bool" where
  "rederived n n' \<longleftrightarrow>
     n' = n\<lparr>perm := perm n', userid := userid n', node_uid := node_uid n',
           under_android := under_android n', graft_path := graft_path n',
           graft_pathlen := graft_pathlen n'\<rparr>"

lemma rederived_refl [simp, intro]: "rederived n n"
  by (simp add: rederived_def)

lemma rederived_trans: "rederived a b \<Longrightarrow> rederived b c \<Longrightarrow> rederived a c"
  unfolding rederived_def by (cases a; cases b; cases c) simp

lemma rederived_keeps:
  assumes "rederived n n'"
  shows "links n' = links n" "refcount n' = refcount n" "nid n' = nid n" "gen n' = gen n"
    "ino n' = ino n" "name n' = name n" "actual_name n' = actual_name n" "namelen n' = namelen n"
    "deleted n' = deleted n" "child n' = child n" "next_node n' = next_node n" "parent n' = parent n"
  using assms unfolding rederived_def links_def by (cases n; cases n'; simp)+

lemma derive_rederived: "rederived n (derive_permissions pf g pn n)"
  by (simp add: rederived_def derive_permissions_def Let_def split: perm_t.split option.split)

lemma derive_idem [simp]:
  "derive_permissions pf g pn (derive_permissions pf g pn n) = derive_permissions pf g pn n"
  by (cases "perm pn") (simp_all add: derive_permissions_def Let_def split: option.split)

lemmas derive_keeps [simp] = rederived_keeps [OF derive_rederived]

section \<open>A whole subtree\<close>

definition settled :: "platform \<Rightarrow> fuse_global \<Rightarrow> heap \<Rightarrow> ptr \<Rightarrow> bool" where
  "settled pf g h q \<longleftrightarrow>
     (\<forall>n pn. h q = Some n \<and> h (parent n) = Some pn \<longrightarrow> derive_permissions pf g pn n = n)"

definition reheaped :: "heap \<Rightarrow> heap \<Rightarrow> bool" where
  "reheaped h h' \<longleftrightarrow> (\<forall>q. rel_option rederived (h q) (h' q))"

lemma reheaped_refl [simp, intro]: "reheaped h h"
  by (auto simp: reheaped_def intro: option.rel_refl)

lemma reheapedD: "reheaped h h' \<Longrightarrow> h q = Some n \<Longrightarrow> \<exists>n'. h' q = Some n' \<and> rederived n n'"
  unfolding reheaped_def by (metis option_rel_Some1)

lemma reheaped_back: "reheaped h h' \<Longrightarrow> h' q = Some n' \<Longrightarrow> \<exists>n. h q = Some n \<and> rederived n n'"
  unfolding reheaped_def by (metis option_rel_Some2)

lemma reheaped_trans: "reheaped a b \<Longrightarrow> reheaped b c \<Longrightarrow> reheaped a c"
  unfolding reheaped_def
proof
  fix q assume "\<forall>q. rel_option rederived (a q) (b q)" "\<forall>q. rel_option rederived (b q) (c q)"
  then have "rel_option rederived (a q) (b q)" "rel_option rederived (b q) (c q)" by blast+
  then show "rel_option rederived (a q) (c q)"
    by (cases "a q"; cases "b q"; cases "c q") (auto intro: rederived_trans)
qed

lemma reheaped_upd: "h q = Some n \<Longrightarrow> rederived n n' \<Longrightarrow> reheaped h (h(q \<mapsto> n'))"
  by (auto simp: reheaped_def intro: option.rel_refl)

lemma reheaped_links: "reheaped h h' \<Longrightarrow> same_links h h'"
  unfolding same_links_def reheaped_def
proof
  fix q assume "\<forall>q. rel_option rederived (h q) (h' q)"
  then have "rel_option rederived (h q) (h' q)" ..
  then show "map_option links (h' q) = map_option links (h q)"
    by (cases "h q"; cases "h' q") (auto simp: rederived_keeps)
qed

lemma reheaped_refcount:
  assumes "reheaped h h'" shows "map_option refcount (h' q) = map_option refcount (h q)"
proof -
  have "rel_option rederived (h q) (h' q)" using assms by (simp add: reheaped_def)
  then show ?thesis by (cases "h q"; cases "h' q") (auto simp: rederived_keeps)
qed

lemma reheaped_shape: "reheaped h h' \<Longrightarrow> shape D h \<Longrightarrow> shape D h'"
  by (rule same_links_shape [OF reheaped_links])

lemma reheaped_counts: "reheaped h h' \<Longrightarrow> counts D K h \<Longrightarrow> counts D K h'"
  by (rule same_links_counts [OF reheaped_links reheaped_refcount])

definition desc :: "ptr set \<Rightarrow> heap \<Rightarrow> ptr set \<Rightarrow> ptr set" where
  "desc D h X = (prel D h)\<^sup>* `` X"

lemma desc_self: "x \<in> X \<Longrightarrow> x \<in> desc D h X"
  by (auto simp: desc_def)

lemma desc_empty [simp]: "desc D h {} = {}"
  by (simp add: desc_def)

lemma desc_insert: "desc D h (insert x X) = desc D h {x} \<union> desc D h X"
  by (auto simp: desc_def)

lemma desc_kids: "desc D h {x} = insert x (desc D h (kids D h x))"
proof -
  have "kids D h x = prel D h `` {x}" by (auto simp: prel_def)
  then show ?thesis unfolding desc_def by (auto elim: converse_rtranclE)
qed

lemma prel_unique: "(p, q) \<in> prel D h \<Longrightarrow> (p', q) \<in> prel D h \<Longrightarrow> p = p'"
  by (auto simp: prel_def kids_def)

lemma prel_confluent:
  assumes "(x, z) \<in> (prel D h)\<^sup>*" "(y, z) \<in> (prel D h)\<^sup>*"
  shows "(x, y) \<in> (prel D h)\<^sup>* \<or> (y, x) \<in> (prel D h)\<^sup>*"
proof -
  have "single_valued ((prel D h)\<inverse>)" by (auto simp: single_valued_def dest: prel_unique)
  then show ?thesis
    using single_valued_confluent [of "(prel D h)\<inverse>" z x y] assms by (auto simp: rtrancl_converse)
qed

lemma no_cycle: "shape D h \<Longrightarrow> (x, y) \<in> prel D h \<Longrightarrow> (y, x) \<in> (prel D h)\<^sup>* \<Longrightarrow> False"
  using shape_acyclic [of D h] by (auto simp: acyclic_def dest: rtrancl_into_trancl2)

lemma prel_wf: "shape D h \<Longrightarrow> wf ((prel D h)\<inverse>)"
  using shape_acyclic [of D h]
  by (intro finite_acyclic_wf_converse) auto

lemma sibling_desc:
  assumes sh: "shape D h" and k: "x \<in> kids D h par" "y \<in> kids D h par" "x \<noteq> y"
  shows "(x, y) \<notin> (prel D h)\<^sup>*"
proof
  assume "(x, y) \<in> (prel D h)\<^sup>*"
  with k(3) obtain z where "(x, z) \<in> (prel D h)\<^sup>*" "(z, y) \<in> prel D h" by (auto elim: rtranclE)
  moreover have "(par, y) \<in> prel D h" "(par, x) \<in> prel D h" using k by (auto simp: prel_def)
  ultimately show False using prel_unique no_cycle [OF sh] by metis
qed

lemma desc_sibling:
  assumes sh: "shape D h" and x: "x \<in> kids D h par" and X: "X \<subseteq> kids D h par" "x \<notin> X"
  shows "desc D h {x} \<inter> desc D h X = {}"
proof -
  have False if "(x, z) \<in> (prel D h)\<^sup>*" "y \<in> X" "(y, z) \<in> (prel D h)\<^sup>*" for y z
    using prel_confluent [OF that(1,3)] sibling_desc [OF sh x] sibling_desc [OF sh _ x] X that(2)
    by blast
  then show ?thesis by (auto simp: desc_def)
qed

lemma par_not_desc:
  assumes "shape D h" "X \<subseteq> kids D h par" shows "par \<notin> desc D h X"
proof -
  have "(par, x) \<in> prel D h" if "x \<in> X" for x using that assms(2) by (auto simp: prel_def)
  then show ?thesis using no_cycle [OF assms(1)] by (auto simp: desc_def)
qed

text \<open>A step of the loop leaves the nodes outside the subtrees it visits alone.\<close>

definition derived :: "platform \<Rightarrow> fuse_global \<Rightarrow> ptr set \<Rightarrow> heap \<Rightarrow> heap \<Rightarrow> bool" where
  "derived pf g X h h' \<longleftrightarrow> reheaped h h' \<and> (\<forall>q. q \<notin> X \<longrightarrow> h' q = h q) \<and> (\<forall>q\<in>X. settled pf g h' q)"

lemma desc_parent:
  assumes "q \<in> desc D h X" "X \<subseteq> kids D h par" "h q = Some n"
  shows "parent n \<in> insert par (desc D h X)"
proof -
  obtain x where x: "x \<in> X" "(x, q) \<in> (prel D h)\<^sup>*" using assms(1) by (auto simp: desc_def)
  from x(2) show ?thesis
  proof (cases rule: rtranclE)
    case base
    then show ?thesis using x(1) assms(2,3) by (auto simp: kids_def)
  next
    case (step z)
    then have "parent n = z" using assms(3) by (auto simp: prel_def kids_def)
    then show ?thesis using x(1) step(1) by (auto simp: desc_def)
  qed
qed

lemma settled_frame:
  assumes s: "settled pf g h1 q" and eq: "h2 q = h1 q"
    and par: "\<And>n. h1 q = Some n \<Longrightarrow> h2 (parent n) = h1 (parent n)"
  shows "settled pf g h2 q"
  using assms by (auto simp: settled_def)

lemma derive_step:
  assumes sh: "shape D h" and re: "reheaped h h1" and x: "x \<in> kids D h par" and par: "h par \<noteq> None"
    and n: "h x = Some n"
    and sub: "\<And>h2. reheaped h h2 \<Longrightarrow> child n \<noteq> 0 \<Longrightarrow>
      \<exists>h3. derive_children pf g x h2 (child n) = Some h3 \<and> derived pf g (desc D h (kids D h x)) h2 h3"
  shows "\<exists>h2. derived pf g (desc D h {x}) h1 h2 \<and>
     derive_children pf g par h1 x = derive_children pf g par h2 (next_node n)"
proof -
  have sh1: "shape D h1" using reheaped_shape [OF re sh] .
  obtain n1 where n1: "h1 x = Some n1" "rederived n n1" using reheapedD [OF re n] by blast
  obtain pn where pn: "h1 par = Some pn" using par reheapedD [OF re] by fastforce
  have ne: "par \<noteq> x" using shape_parent_ne [OF sh x] .
  have pz: "parent n1 = par" using x n n1(2) by (auto simp: kids_def rederived_keeps)
  let ?h = "h1(x \<mapsto> derive_permissions pf g pn n1)"
  have re1: "reheaped h1 ?h" using n1 derive_rederived by (auto intro: reheaped_upd)
  have dl: "derive_permissions_locked pf g h1 par x = Some ?h"
    using sh1 n1 pn by (simp add: derive_permissions_locked_def modify_def)
  have xz: "x \<noteq> 0" using n sh by auto
  have leaf: "kids D h x = {}" if "child n = 0" using shape_sibs [OF sh n] that by auto
  have "\<exists>h3. (if child n \<noteq> 0 then derive_children pf g x ?h (child n) else Some ?h) = Some h3 \<and>
      derived pf g (desc D h (kids D h x)) ?h h3"
    using sub [OF reheaped_trans [OF re re1]] leaf by (auto simp: derived_def)
  then obtain h3 where h3: "(if child n \<noteq> 0 then derive_children pf g x ?h (child n) else Some ?h) = Some h3"
    and d3: "derived pf g (desc D h (kids D h x)) ?h h3" by blast
  have xd: "x \<notin> desc D h (kids D h x)" by (rule par_not_desc [OF sh]) simp
  have pd: "par \<notin> desc D h {x}" by (rule par_not_desc [OF sh]) (use x in simp)
  then have "par \<notin> desc D h (kids D h x)" by (simp add: desc_kids [of D h x])
  then have h3x: "h3 x = Some (derive_permissions pf g pn n1)" and h3p: "h3 par = Some pn"
    using d3 xd ne pn by (auto simp: derived_def)
  have "settled pf g h3 x" using h3x h3p pz by (auto simp: settled_def)
  then have "derived pf g (desc D h {x}) h1 h3"
    using d3 re1 unfolding desc_kids [of D h x] derived_def by (auto intro: reheaped_trans)
  moreover have "derive_children pf g par h1 x = derive_children pf g par h3 (next_node n)"
    using dl h3 h3x xz n1(2)
    by (cases "child n = 0")
       (simp_all add: derive_children.simps [of pf g par h1 x] deref_def rederived_keeps)
  ultimately show ?thesis by blast
qed

lemma derived_append:
  assumes sh: "shape D h" and re: "reheaped h h1" and k: "x \<in> kids D h par" "set xs \<subseteq> kids D h par" "x \<notin> set xs"
    and d2: "derived pf g (desc D h {x}) h1 h2" and d3: "derived pf g (desc D h (set xs)) h2 h3"
  shows "derived pf g (desc D h (set (x # xs))) h1 h3"
proof -
  have dis: "desc D h {x} \<inter> desc D h (set xs) = {}" by (rule desc_sibling [OF sh k])
  have pd: "par \<notin> desc D h (set xs)" by (rule par_not_desc [OF sh k(2)])
  have r2: "reheaped h h2" using re d2 by (meson derived_def reheaped_trans)
  have "settled pf g h3 q" if q: "q \<in> desc D h {x}" for q
  proof (rule settled_frame)
    show "settled pf g h2 q" using d2 q by (simp add: derived_def)
    show "h3 q = h2 q" using d3 q dis by (auto simp: derived_def)
    fix n assume "h2 q = Some n"
    then obtain n0 where n0: "h q = Some n0" "rederived n0 n" using reheaped_back [OF r2] by blast
    have "parent n0 \<in> insert par (desc D h {x})" using desc_parent [OF q _ n0(1)] k(1) by simp
    then have "parent n \<notin> desc D h (set xs)" using dis pd n0(2) by (auto simp: rederived_keeps)
    then show "h3 (parent n) = h2 (parent n)" using d3 by (simp add: derived_def)
  qed
  then show ?thesis
    using d2 d3 unfolding list.set(2) desc_insert [of D h x "set xs"] derived_def
    by (auto intro: reheaped_trans)
qed

theorem derive_children_ok:
  assumes sh: "shape D h"
  shows "h par \<noteq> None \<Longrightarrow> reheaped h h1 \<Longrightarrow> sibs h p xs \<Longrightarrow> set xs \<subseteq> kids D h par \<Longrightarrow>
    \<exists>h2. derive_children pf g par h1 p = Some h2 \<and> derived pf g (desc D h (set xs)) h1 h2"
proof (induction par arbitrary: h1 p xs rule: wf_induct_rule [OF prel_wf [OF sh]])
  case (1 par)
  show ?case using "1.prems"
  proof (induction xs arbitrary: h1 p)
    case Nil
    then show ?case by (auto simp: derive_children.simps [of pf g par h1 0] derived_def)
  next
    case (Cons x xs)
    then obtain n where n: "h x = Some n" "p = x" "sibs h (next_node n) xs" by auto
    have x: "x \<in> kids D h par" "set xs \<subseteq> kids D h par" using Cons.prems by auto
    have xn: "x \<notin> set xs" using sibs_distinct [OF Cons.prems(3)] by simp
    obtain ys where ys: "sibs h (child n) ys" "set ys = kids D h x" using shape_sibs [OF sh n(1)] by blast
    have sub: "\<exists>h3. derive_children pf g x h2 (child n) = Some h3 \<and>
        derived pf g (desc D h (kids D h x)) h2 h3" if "reheaped h h2" for h2
      using "1.IH" [of x h2 "child n" ys] x(1) n(1) that ys by (auto simp: prel_def)
    obtain h2 where d2: "derived pf g (desc D h {x}) h1 h2"
      and e2: "derive_children pf g par h1 x = derive_children pf g par h2 (next_node n)"
      using derive_step [OF sh Cons.prems(2) x(1) Cons.prems(1) n(1) sub] by blast
    have "reheaped h h2" using Cons.prems(2) d2 by (meson derived_def reheaped_trans)
    then obtain h3 where h3: "derive_children pf g par h2 (next_node n) = Some h3"
      "derived pf g (desc D h (set xs)) h2 h3"
      using Cons.IH [OF Cons.prems(1) _ n(3) x(2)] by blast
    then show ?case using e2 n(2) derived_append [OF sh Cons.prems(2) x xn d2 h3(2)] by auto
  qed
qed

lemma derive_recursive_ok:
  assumes sh: "shape D h" and p: "h p \<noteq> None"
  shows "\<exists>h'. derive_permissions_recursive_locked pf g h p = Some h' \<and>
     derived pf g (desc D h (kids D h p)) h h'"
proof -
  obtain n where n: "h p = Some n" using p by blast
  obtain xs where "sibs h (child n) xs" "set xs = kids D h p" using shape_sibs [OF sh n] by blast
  then show ?thesis
    using derive_children_ok [OF sh p reheaped_refl, of "child n" xs] n sh
    by (auto simp: derive_permissions_recursive_locked_def)
qed

end
