(* ===== verification/Fuse_Global.thy ===== *)
theory Fuse_Global
  imports Fuse_Perm
begin

text \<open>
  The invariant of the whole daemon state and the operations that create, find, rename and
  release nodes in it. \<open>K\<close> counts the references the kernel (or a running handler) holds on
  each node.
\<close>

section \<open>The state invariant\<close>

definition ids_ok :: "fuse_global \<Rightarrow> bool" where
  "ids_ok g \<longleftrightarrow>
     (\<forall>p n. nodes g p = Some n \<and> p \<noteq> root_ptr \<longrightarrow>
        nid n = ptr_to_id p \<and> ino n \<noteq> 0 \<and> (inode_ctr g = 0 \<or> ino n < inode_ctr g)) \<and>
     (\<forall>p q n m. nodes g p = Some n \<and> nodes g q = Some m \<and> p \<noteq> root_ptr \<and> q \<noteq> root_ptr \<and>
        ino n = ino m \<longrightarrow> p = q)"

definition ginv :: "platform \<Rightarrow> (ptr \<Rightarrow> nat) \<Rightarrow> fuse_global \<Rightarrow> bool" where
  "ginv pf K g \<longleftrightarrow>
     node_inv K (nodes g) \<and> (\<forall>q. settled pf g (nodes g) q) \<and> ids_ok g \<and> nodes g 1 = None"

text \<open>Every reference count can grow by \<open>k\<close> without wrapping around.\<close>

definition room :: "nat \<Rightarrow> heap \<Rightarrow> bool" where
  "room k h \<longleftrightarrow> (\<forall>p n. h p = Some n \<longrightarrow> unat (refcount n) + k < 2 ^ 32)"

text \<open>What the allocator promises: null, or an aligned address not in use (address 1, whose id
  is the root's, is never returned).\<close>

definition alloc_fresh :: "platform \<Rightarrow> bool" where
  "alloc_fresh pf \<longleftrightarrow> 
     (\<forall>h. calloc_node pf h = 0 \<or> (h (calloc_node pf h) = None \<and> calloc_node pf h \<noteq> 1))"

lemma ginvD:
  assumes "ginv pf K g"
  shows "shape {} (nodes g)" "counts {} K (nodes g)" "2 \<le> K root_ptr" "ids_ok g"
    "settled pf g (nodes g) q" "nodes g 1 = None"
  using assms by (auto simp: ginv_def node_inv_def)

lemma ginvI:
  assumes "shape {} (nodes g)" "counts {} K (nodes g)" "2 \<le> K root_ptr" "ids_ok g"
    "\<And>q. settled pf g (nodes g) q" "nodes g 1 = None"
  shows "ginv pf K g"
  using assms by (auto simp: ginv_def node_inv_def)

lemma ids_ok_cong: "nodes g' = nodes g \<Longrightarrow> inode_ctr g' = inode_ctr g \<Longrightarrow> ids_ok g' = ids_ok g"
  by (simp only: ids_ok_def)

lemma derive_config:
  assumes "obb_path g' = obb_path g" "package_to_appid g' = package_to_appid g"
  shows "derive_permissions pf g' = derive_permissions pf g"
proof (intro ext)
  fix a n show "derive_permissions pf g' a n = derive_permissions pf g a n"
    using assms by (cases "perm a") (simp_all add: derive_permissions_def Let_def)
qed

lemma settled_config:
  assumes "obb_path g' = obb_path g" "package_to_appid g' = package_to_appid g"
  shows "settled pf g' h q = settled pf g h q"
  unfolding settled_def derive_config [OF assms] ..

text \<open>The derivation reads four fields of the parent and writes no link and no count.\<close>

lemma derive_parent_cong:
  assumes "perm a = perm b" "userid a = userid b" "node_uid a = node_uid b"
    "under_android a = under_android b"
  shows "derive_permissions pf g a = derive_permissions pf g b"
proof (intro ext)
  fix n show "derive_permissions pf g a n = derive_permissions pf g b n"
    using assms by (cases "perm b") (simp_all add: derive_permissions_def Let_def split: option.split)
qed

lemma core_eqD:
  assumes "core a = core b"
  shows "perm a = perm b" "userid a = userid b" "node_uid a = node_uid b"
    "under_android a = under_android b" "nid a = nid b" "ino a = ino b" "name a = name b"
    "parent a = parent b" "deleted a = deleted b"
  using assms unfolding core_def by (cases a; cases b; simp)+

lemma derive_upd:
  "derive_permissions pf g pn (n\<lparr>refcount := r, next_node := x, child := c, parent := y\<rparr>) =
   (derive_permissions pf g pn n)\<lparr>refcount := r, next_node := x, child := c, parent := y\<rparr>"
  by (cases "perm pn") (simp_all add: derive_permissions_def Let_def split: option.split)

lemma derive_fix_upd:
  assumes "derive_permissions pf g pn n = n"
  shows "derive_permissions pf g pn (n\<lparr>refcount := r, next_node := x, child := c, parent := y\<rparr>) =
    n\<lparr>refcount := r, next_node := x, child := c, parent := y\<rparr>"
  by (simp only: derive_upd assms)

lemma core_same_derive:
  assumes "core a = core b" "derive_permissions pf g pn b = b"
  shows "derive_permissions pf g pn a = a"
proof -
  have "a = b\<lparr>refcount := refcount a, next_node := next_node a, child := child a, parent := parent a\<rparr>"
    using assms(1) unfolding core_def by (cases a; cases b) simp
  with derive_fix_upd [OF assms(2)] show ?thesis by metis
qed

lemma shrinks_settled:
  assumes sk: "shrinks h h'" and s: "\<And>q. settled pf g h q"
  shows "settled pf g h' q"
  unfolding settled_def
proof (intro allI impI, elim conjE)
  fix n' pn' assume a: "h' q = Some n'" "h' (parent n') = Some pn'"
  obtain n where n: "h q = Some n" "core n' = core n" using sk a(1) by (auto simp: shrinks_def)
  obtain pn where pn: "h (parent n') = Some pn" "core pn' = core pn"
    using sk a(2) by (auto simp: shrinks_def)
  have "derive_permissions pf g pn n = n"
    using s [of q] n pn core_eqD(8) [OF n(2)] by (simp add: settled_def)
  then have "derive_permissions pf g pn n' = n'" by (rule core_same_derive [OF n(2)])
  moreover have "derive_permissions pf g pn' = derive_permissions pf g pn"
    using core_eqD [OF pn(2)] by (intro derive_parent_cong) auto
  ultimately show "derive_permissions pf g pn' n' = n'" by simp
qed

lemma shrinks_ids:
  assumes "shrinks (nodes g) h" "ids_ok g" shows "ids_ok (g\<lparr>nodes := h\<rparr>)"
proof -
  have old: "\<exists>m. nodes g q = Some m \<and> nid m = nid n \<and> ino m = ino n" if "h q = Some n" for q n
    using assms(1) that core_eqD(5,6) unfolding shrinks_def by metis
  have "nid n = ptr_to_id p \<and> ino n \<noteq> 0 \<and> (inode_ctr g = 0 \<or> ino n < inode_ctr g)"
    if a: "h p = Some n" "p \<noteq> root_ptr" for p n
    using old [OF a(1)] assms(2) a(2) unfolding ids_ok_def by metis
  moreover have "p = q" if a: "h p = Some n" "h q = Some m" "p \<noteq> root_ptr" "q \<noteq> root_ptr" "ino n = ino m"
    for p q n m
    using old [OF a(1)] old [OF a(2)] assms(2) a(3-5) unfolding ids_ok_def by metis
  ultimately show ?thesis
    unfolding ids_ok_def fuse_global.select_convs fuse_global.update_convs by auto
qed

lemma shrinks_dom: "shrinks h h' \<Longrightarrow> h p = None \<Longrightarrow> h' p = None"
  unfolding shrinks_def by (metis not_Some_eq)

section \<open>Releasing and acquiring\<close>

theorem release_ginv:
  assumes g: "ginv pf K g" and p: "0 < K p" and r: "2 \<le> (K(p := K p - 1)) root_ptr"
  shows "\<exists>h. release_node_locked (nodes g) p = Some h \<and> ginv pf (K(p := K p - 1)) (g\<lparr>nodes := h\<rparr>) \<and>
    shrinks (nodes g) h"
proof -
  obtain n where "nodes g p = Some n" using counts_held [OF ginvD(2) [OF g] p] by blast
  then have "\<exists>h. release_node_locked (nodes g) p = Some h \<and> released {} (K(p := K p - 1)) (nodes g) h"
    using ginvD [OF g] p r by (intro release_ok) auto
  then obtain h where h: "release_node_locked (nodes g) p = Some h"
    "released {} (K(p := K p - 1)) (nodes g) h" by blast
  have "settled pf (g\<lparr>nodes := h\<rparr>) h q" for q
    using shrinks_settled [of "nodes g" h pf g] h(2) ginvD(5) [OF g]
    by (simp add: released_def settled_config [of "g\<lparr>nodes := h\<rparr>" g])
  moreover have "h 1 = None" using h(2) ginvD(6) [OF g] shrinks_dom by (auto simp: released_def)
  ultimately show ?thesis using h r ginvD(4) [OF g]
    by (auto simp: released_def intro!: ginvI shrinks_ids)
qed

theorem acquire_ginv:
  assumes g: "ginv pf K g" and p: "nodes g p = Some n" and rm: "room 2 (nodes g)"
  shows "\<exists>h. acquire_node_locked (nodes g) p = Some h \<and> ginv pf (K(p := K p + 1)) (g\<lparr>nodes := h\<rparr>) \<and>
    shrinks (nodes g) h"
proof -
  let ?h = "(nodes g)(p \<mapsto> n\<lparr>refcount := refcount n + 1\<rparr>)"
  have ov: "unat (refcount n) + 1 < 2 ^ 32" using rm p by (fastforce simp: room_def)
  note a = acquire_ok [OF ginvD(1,2) [OF g] p ov]
  have sk: "shrinks (nodes g) ?h" using p by (intro shrinks_upd) auto
  have "settled pf (g\<lparr>nodes := ?h\<rparr>) ?h q" for q
    using shrinks_settled [OF sk ginvD(5) [OF g]] by (simp add: settled_config [of "g\<lparr>nodes := ?h\<rparr>" g])
  moreover have "?h 1 = None" using p ginvD(6) [OF g] by auto
  ultimately show ?thesis using a sk ginvD(3,4) [OF g]
    by (auto intro!: ginvI shrinks_ids)
qed

section \<open>Looking a child up\<close>

definition live_named :: "heap \<Rightarrow> string \<Rightarrow> ptr \<Rightarrow> bool" where
  "live_named h nm q \<longleftrightarrow> (\<exists>n. h q = Some n \<and> name n = nm \<and> \<not> deleted n)"

lemma find_child_sibs:
  "sibs h p xs \<Longrightarrow> find_child h nm p = Some (case find (live_named h nm) xs of None \<Rightarrow> 0 | Some q \<Rightarrow> q)"
proof (induction xs arbitrary: p)
  case Nil
  then show ?case by (simp add: find_child.simps)
next
  case (Cons x xs)
  then show ?case
    by (auto simp: find_child.simps [of h nm x] deref_def live_named_def)
qed

lemma lookup_child_ok:
  assumes sh: "shape D h" and p: "h p \<noteq> None"
  obtains c where "lookup_child_by_name_locked h p nm = Some c"
    and "c = 0 \<Longrightarrow> \<forall>q\<in>kids D h p. \<not> live_named h nm q"
    and "c \<noteq> 0 \<Longrightarrow> c \<in> kids D h p \<and> live_named h nm c"
proof -
  obtain n where n: "h p = Some n" using p by blast
  obtain xs where xs: "sibs h (child n) xs" "set xs = kids D h p" using shape_sibs [OF sh n] by blast
  have 1: "lookup_child_by_name_locked h p nm =
      Some (case find (live_named h nm) xs of None \<Rightarrow> 0 | Some q \<Rightarrow> q)"
    using n sh find_child_sibs [OF xs(1)] by (simp add: lookup_child_by_name_locked_def)
  show thesis
  proof (cases "find (live_named h nm) xs")
    case None
    then have "\<forall>q\<in>set xs. \<not> live_named h nm q" by (simp add: find_None_iff)
    with None show thesis using 1 xs(2) by (intro that [of 0]) auto
  next
    case (Some q)
    then have "q \<in> set xs" "live_named h nm q" by (auto simp: find_Some_iff in_set_conv_nth)
    moreover from this have "q \<noteq> 0" using sh by (auto simp: live_named_def)
    ultimately show thesis using 1 Some xs(2) by (intro that [of q]) auto
  qed
qed

section \<open>Creating a node\<close>

lemma shapeI:
  assumes "h 0 = None" "root_ptr \<notin> D" "\<exists>r. h root_ptr = Some r \<and> parent r = 0"
    "\<And>p n. h p = Some n \<Longrightarrow> p \<notin> D \<Longrightarrow> p \<noteq> root_ptr \<Longrightarrow> h (parent n) \<noteq> None"
    "\<And>p n. h p = Some n \<Longrightarrow> \<exists>xs. sibs h (child n) xs \<and> set xs = kids D h p"
    "acyclic (prel D h)"
  shows "shape D h"
  using assms unfolding shape_def by blast

lemma fresh_shape:
  assumes sh: "shape D h" and p: "h p = None" "p \<noteq> 0" and n: "child n = 0"
  shows "shape (insert p D) (h(p \<mapsto> n))" and "kids (insert p D) (h(p \<mapsto> n)) r = kids D h r"
    and "kids D h p = {}"
proof -
  let ?h = "h(p \<mapsto> n)"
  have kd: "kids (insert p D) ?h r = kids D h r" for r using p by (auto simp: kids_def)
  then show "kids (insert p D) ?h r = kids D h r" .
  have "q \<notin> kids D h p" for q
  proof
    assume q: "q \<in> kids D h p"
    then obtain m where m: "h q = Some m" "parent m = p" "q \<notin> D" by (auto simp: kids_def)
    then show False using shape_parent [OF sh m(1,3)] shape_root [OF sh] p by (cases "q = root_ptr") auto
  qed
  then show leaf: "kids D h p = {}" by blast
  have lists: "\<exists>xs. sibs ?h (child m) xs \<and> set xs = kids (insert p D) ?h r" if a: "?h r = Some m" for r m
  proof (cases "r = p")
    case True
    then have "sibs ?h (child m) [] \<and> set [] = kids (insert p D) ?h r"
      using a n leaf kd by simp
    then show ?thesis by blast
  next
    case False
    then obtain xs where xs: "sibs h (child m) xs" "set xs = kids D h r"
      using shape_sibs [OF sh, of r m] a by auto
    then have "p \<notin> set xs" using p by (auto simp: kids_def)
    then have "sibs ?h (child m) xs = sibs h (child m) xs" by (intro sibs_cong) auto
    then show ?thesis using xs kd by blast
  qed
  have up: "?h (parent m) \<noteq> None" if "?h q = Some m" "q \<notin> insert p D" "q \<noteq> root_ptr" for q m
    using shape_parent [OF sh, of q m] that by auto
  have rt: "\<exists>r. ?h root_ptr = Some r \<and> parent r = 0" "root_ptr \<noteq> p" "root_ptr \<notin> D"
    using shape_root [OF sh] p sh by (auto simp: shape_def)
  have ac: "acyclic (prel (insert p D) ?h)" using shape_acyclic [OF sh] by (simp add: prel_def kd)
  show "shape (insert p D) ?h"
    using rt sh p ac by (intro shapeI lists up) auto
qed

lemma fresh_counts:
  assumes sh: "shape D h" and c: "counts D K h" and p: "h p = None" "p \<noteq> 0"
    and n: "child n = 0" "refcount n = 0"
  shows "counts (insert p D) K (h(p \<mapsto> n))" and "K p = 0"
proof -
  note f = fresh_shape [OF sh p n(1)]
  show k: "K p = 0" using counts_held [OF c, of p] p by auto
  show "counts (insert p D) K (h(p \<mapsto> n))"
    using c k p(1) n(2) f(3) unfolding counts_def f(2) by auto
qed

lemma leaf_no_path:
  assumes "kids D h p = {}" "p \<noteq> q" shows "(p, q) \<notin> (prel D h)\<^sup>*"
  using assms by (auto simp: prel_def elim: converse_rtranclE)

definition new_heap :: "platform \<Rightarrow> fuse_global \<Rightarrow> ptr \<Rightarrow> ptr \<Rightarrow> node \<Rightarrow> node \<Rightarrow> heap" where
  "new_heap pf g p par n pn = attach ((nodes g)(p \<mapsto> derive_permissions pf g pn n\<lparr>refcount := 1\<rparr>)) p par
     (derive_permissions pf g pn n\<lparr>refcount := 1\<rparr>) pn"

lemma create_node_eq:
  assumes h: "nodes g p = None" "p \<noteq> 0" and par: "nodes g par = Some pn" "par \<noteq> 0"
    and ctr: "inode_ctr g \<noteq> 0" and al: "calloc_node pf (nodes g) = p" "malloc_ok pf SName"
      "nm = act \<or> malloc_ok pf SActual"
  shows "create_node_locked pf g par nm act = Some (p, g\<lparr>inode_ctr := inode_ctr g + 1,
     next_generation := next_generation g + 1,
     nodes := new_heap pf g p par (fresh_node p (inode_ctr g) (next_generation g) nm act) pn\<rparr>)"
proof -
  let ?g = "g\<lparr>inode_ctr := inode_ctr g + 1, next_generation := next_generation g + 1\<rparr>"
  have ne: "p \<noteq> par" using h par by auto
  have d: "derive_permissions pf ?g = derive_permissions pf g" by (rule derive_config) simp_all
  let ?n = "derive_permissions pf g pn (fresh_node p (inode_ctr g) (next_generation g) nm act)"
  have r0: "refcount ?n + 1 = 1" by (simp add: fresh_node_def)
  have "add_node_to_parent_locked ((nodes g)(p \<mapsto> ?n\<lparr>refcount := 1\<rparr>)) p par =
      Some (new_heap pf g p par (fresh_node p (inode_ctr g) (next_generation g) nm act) pn)"
    using h par ne unfolding new_heap_def by (intro add_node_to_parent_eq) auto
  then show ?thesis
    using h par ne ctr al r0 unfolding create_node_locked_def Let_def
    by (simp add: derive_permissions_locked_def modify_def deref_def d acquire_node_locked_def)
qed

lemma new_heap_inv:
  assumes g: "ginv pf K g" and h: "nodes g p = None" "p \<noteq> 0" and par: "nodes g par = Some pn"
    and n: "child n = 0" "refcount n = 0" and rm: "room 2 (nodes g)"
  shows "shape {} (new_heap pf g p par n pn)" "counts {} (K(p := K p + 1)) (new_heap pf g p par n pn)"
    "settled pf g (new_heap pf g p par n pn) q"
proof -
  let ?n = "derive_permissions pf g pn n" let ?m = "?n\<lparr>refcount := 1\<rparr>"
  let ?h1 = "(nodes g)(p \<mapsto> ?n)" let ?h2 = "(nodes g)(p \<mapsto> ?m)"
  note sh = ginvD(1) [OF g] and c = ginvD(2) [OF g]
  have ne: "p \<noteq> par" using h par by auto
  have c1: "child ?n = 0" "refcount ?n = 0" using n by simp_all
  note f1 = fresh_shape [OF sh h c1(1)] and fc = fresh_counts [OF sh c h c1]
  have aq: "shape {p} ?h2" "counts {p} (K(p := K p + 1)) ?h2"
    using acquire_ok [OF f1(1) fc(1), of p ?n] c1 by auto
  have leaf: "kids {p} ?h2 p = {}"
    using fresh_shape(2,3) [OF sh h, of ?m] n by simp
  have nh: "new_heap pf g p par n pn = attach ?h2 p par ?m pn" by (simp add: new_heap_def)
  have par2: "?h2 par = Some pn" using par ne by simp
  show "shape {} (new_heap pf g p par n pn)"
    unfolding nh using aq(1) par2 leaf ne by (intro attach_shape leaf_no_path) auto
  have "unat (refcount pn) + 1 < 2 ^ 32" using rm par by (fastforce simp: room_def)
  then show "counts {} (K(p := K p + 1)) (new_heap pf g p par n pn)"
    unfolding nh using aq(2) par2 ne by (intro attach_counts) auto
  have idem: "derive_permissions pf g pn ?n = ?n" by simp
  have "?m\<lparr>parent := par, next_node := child pn\<rparr> =
      ?n\<lparr>refcount := 1, next_node := child pn, child := child ?n, parent := par\<rparr>"
    by (cases ?n) simp
  then have fx: "derive_permissions pf g pn (?m\<lparr>parent := par, next_node := child pn\<rparr>) =
      ?m\<lparr>parent := par, next_node := child pn\<rparr>"
    by (simp only: derive_fix_upd [OF idem])
  let ?h = "attach ?h2 p par ?m pn"
  have pcong: "derive_permissions pf g (pn\<lparr>child := p, refcount := refcount pn + 1\<rparr>) = derive_permissions pf g pn"
    by (rule derive_parent_cong) simp_all
  have sk: "shrinks (nodes g) (?h(p := None))" using par by (auto simp: shrinks_def attach_def)
  show "settled pf g (new_heap pf g p par n pn) q" unfolding nh
  proof (cases "q = p")
    case True
    then show "settled pf g ?h q" using fx pcong ne by (auto simp: settled_def attach_def)
  next
    case False
    show "settled pf g ?h q"
    proof (rule settled_frame [OF shrinks_settled [OF sk ginvD(5) [OF g], of q]])
      show "?h q = (?h(p := None)) q" using False by simp
      fix m assume "(?h(p := None)) q = Some m"
      then have "\<exists>m0. nodes g q = Some m0 \<and> core m = core m0" using sk by (auto simp: shrinks_def)
      then have "q \<in> kids {} (nodes g) (parent m)" by (auto simp: kids_def dest: core_parent)
      then have "parent m \<noteq> p" using f1(3) by auto
      then show "?h (parent m) = (?h(p := None)) (parent m)" by simp
    qed
  qed
qed

text \<open>The inode counter hands out a number no live node has, until it wraps to 0 and creation stops.\<close>

lemma ids_ok_step:
  assumes ids: "ids_ok g" and ctr: "inode_ctr g \<noteq> 0"
    and old: "\<And>q n. h q = Some n \<Longrightarrow> q \<noteq> p \<Longrightarrow> \<exists>m. nodes g q = Some m \<and> nid m = nid n \<and> ino m = ino n"
    and new: "\<exists>n. h p = Some n \<and> name n = nm \<and> \<not> deleted n \<and> parent n = par \<and> ino n = inode_ctr g \<and>
      nid n = ptr_to_id p"
  shows "ids_ok (g\<lparr>inode_ctr := inode_ctr g + 1, next_generation := k, nodes := h\<rparr>)"
proof -
  let ?c = "inode_ctr g"
  have lt: "ino n < ?c \<and> ino n \<noteq> 0 \<and> nid n = ptr_to_id q" if "h q = Some n" "q \<noteq> p" "q \<noteq> root_ptr" for q n
    using old [OF that(1,2)] that(3) ids ctr unfolding ids_ok_def by metis
  have up: "?c + 1 = 0 \<or> x < ?c + 1" if "x \<le> ?c" for x :: u32
    using that by unat_arith
  have "nid n = ptr_to_id q \<and> ino n \<noteq> 0 \<and> (?c + 1 = 0 \<or> ino n < ?c + 1)"
    if a: "h q = Some n" "q \<noteq> root_ptr" for q n
  proof (cases "q = p")
    case True
    then show ?thesis using new a ctr up by auto
  next
    case False
    then show ?thesis using lt [OF a(1) False a(2)] up [of "ino n"] by auto
  qed
  moreover have "p' = q" if a: "h p' = Some n" "h q = Some m" "p' \<noteq> root_ptr" "q \<noteq> root_ptr" "ino n = ino m"
    for p' q n m
  proof (cases "p' = p \<or> q = p")
    case True
    then show ?thesis using lt [OF a(1) _ a(3)] lt [OF a(2) _ a(4)] new a by force
  next
    case False
    then show ?thesis using old [OF a(1)] old [OF a(2)] ids a(3-5) unfolding ids_ok_def by metis
  qed
  ultimately show ?thesis
    unfolding ids_ok_def fuse_global.select_convs fuse_global.update_convs by auto
qed

text \<open>Creating a node: it fails without touching the state, or it adds one referenced node.\<close>

lemma create_ginv:
  assumes g: "ginv pf K g" and par: "nodes g par = Some pn" and rm: "room 2 (nodes g)" and al: "alloc_fresh pf"
  obtains p g' where "create_node_locked pf g par nm act = Some (p, g')" "p = 0 \<Longrightarrow> g' = g"
    "p \<noteq> 0 \<Longrightarrow> ginv pf (K(p := K p + 1)) g' \<and> nodes g p = None \<and>
       (\<exists>n. nodes g' p = Some n \<and> name n = nm \<and> \<not> deleted n \<and> parent n = par \<and> ino n = inode_ctr g)"
proof (cases "inode_ctr g = 0 \<or> calloc_node pf (nodes g) = 0 \<or> \<not> malloc_ok pf SName \<or>
    (nm \<noteq> act \<and> \<not> malloc_ok pf SActual)")
  case True
  then have "create_node_locked pf g par nm act = Some (0, g)"
    by (auto simp: create_node_locked_def Let_def)
  then show thesis by (intro that) auto
next
  case False
  define p where "p = calloc_node pf (nodes g)"
  let ?n = "fresh_node p (inode_ctr g) (next_generation g) nm act"
  let ?h = "new_heap pf g p par ?n pn"
  let ?g = "g\<lparr>inode_ctr := inode_ctr g + 1, next_generation := next_generation g + 1, nodes := ?h\<rparr>"
  have p: "p \<noteq> 0" "nodes g p = None" using False al by (auto simp: p_def alloc_fresh_def)
  have parz: "par \<noteq> 0" using par ginvD(1) [OF g] by auto
  have ne: "p \<noteq> par" using p par by auto
  have eq: "create_node_locked pf g par nm act = Some (p, ?g)"
    using False by (intro create_node_eq [OF p(2,1) par parz]) (auto simp: p_def)
  have fn: "child ?n = 0" "refcount ?n = 0" by (simp_all add: fresh_node_def)
  note ni = new_heap_inv [OF g p(2,1) par fn rm]
  have st: "settled pf ?g ?h q" for q using ni(3) by (simp add: settled_config [of ?g g])
  have rt: "root_ptr \<noteq> p" using p shape_root [OF ginvD(1) [OF g]] by auto
  have hp: "\<exists>n. ?h p = Some n \<and> name n = nm \<and> \<not> deleted n \<and> parent n = par \<and> ino n = inode_ctr g \<and>
      nid n = ptr_to_id p"
    using ne by (simp add: new_heap_def attach_def fresh_node_def)
  have old: "\<exists>m. nodes g q = Some m \<and> nid m = nid n \<and> ino m = ino n" if "?h q = Some n" "q \<noteq> p" for q n
    using that par by (auto simp: new_heap_def attach_def split: if_splits)
  have ids: "ids_ok ?g"
    using False by (intro ids_ok_step [where p = p and nm = nm and par = par]) (use ginvD(4) [OF g] old hp in auto)
  have "p \<noteq> 1" using False al by (auto simp: p_def alloc_fresh_def)
  moreover have "par \<noteq> 1" using par ginvD(6) [OF g] by auto
  ultimately have "?h 1 = None" using ginvD(6) [OF g] by (simp add: new_heap_def attach_def)
  then have "ginv pf (K(p := K p + 1)) ?g"
    using ni(1,2) st ids ginvD(3) [OF g] rt by (intro ginvI) auto
  then show thesis using eq hp p by (intro that [of p ?g]) auto
qed

end
