(* ===== verification/Fuse_Move.thy ===== *)
theory Fuse_Move
  imports Fuse_Global
begin

text \<open>
  Moving a node with its subtree to another directory (the core of \<open>handle_rename\<close>) keeps the
  state invariant, and \<open>acquire_or_create_child_locked\<close> as the provider of entry references.
\<close>

section \<open>In-flight nodes\<close>

lemma counts_detach:
  assumes sh: "shape D h" and c: "counts D K h" and p: "h p = Some n" "p \<notin> D"
    and par: "h (parent n) = Some pn"
    and rc: "\<And>q. map_option refcount (h2 q) = map_option refcount (h q)"
    and pa: "\<And>q. map_option parent (h2 q) = map_option parent (h q)"
  shows "counts (insert p D) (K(parent n := K (parent n) + 1)) h2"
proof -
  have kp: "p \<in> kids D h (parent n)" using p by (simp add: kids_def)
  have kd: "kids (insert p D) h2 r = kids D h r - {p}" for r
    by (simp only: kids_insert kids_parents [OF pa])
  have old: "\<exists>m. h q = Some m \<and> refcount m = refcount n2" if "h2 q = Some n2" for q n2
    using rc [of q] that by (cases "h q") auto
  have "unat (refcount n2) = card (kids (insert p D) h2 q) + (K(parent n := K (parent n) + 1)) q"
    if a: "h2 q = Some n2" for q n2
  proof -
    obtain m where m: "h q = Some m" "refcount m = refcount n2" using old [OF a] by blast
    have u: "unat (refcount n2) = card (kids D h q) + K q" using counts_eq [OF c m(1)] m(2) by simp
    show ?thesis
    proof (cases "q = parent n")
      case True
      then have "card (kids D h q) = Suc (card (kids D h q - {p}))"
        using kp by (metis card.remove finite_u32)
      then show ?thesis using True u by (simp add: kd)
    next
      case False
      then have "p \<notin> kids D h q" using p by (auto simp: kids_def)
      then show ?thesis using u False by (simp add: kd)
    qed
  qed
  moreover have "0 < refcount n2" if "h2 q = Some n2" "q \<notin> insert p D" for q n2
    using old [OF that(1)] that(2) counts_pos [OF c] by fastforce
  moreover have "h2 q \<noteq> None" if "0 < (K(parent n := K (parent n) + 1)) q" for q
    using that counts_held [OF c, of q] par rc [of q] by (cases "h2 q") (auto split: if_splits)
  ultimately show ?thesis unfolding counts_def by blast
qed

lemma inflight_upd:
  assumes sh: "shape (insert p D) h" and p: "h p = Some n" "child n' = child n"
  shows "shape (insert p D) (h(p \<mapsto> n'))" and "kids (insert p D) (h(p \<mapsto> n')) r = kids (insert p D) h r"
proof -
  let ?h = "h(p \<mapsto> n')"
  have kd: "kids (insert p D) ?h r = kids (insert p D) h r" for r by (auto simp: kids_def)
  then show "kids (insert p D) ?h r = kids (insert p D) h r" .
  have lists: "\<exists>xs. sibs ?h (child m) xs \<and> set xs = kids (insert p D) ?h r" if a: "?h r = Some m" for r m
  proof -
    obtain m0 where m0: "h r = Some m0" "child m = child m0" using a p by (auto split: if_splits)
    then obtain xs where xs: "sibs h (child m) xs" "set xs = kids (insert p D) h r"
      using shape_sibs [OF sh] by metis
    then have "p \<notin> set xs" by (auto simp: kids_def)
    then have "sibs ?h (child m) xs = sibs h (child m) xs" by (intro sibs_cong) auto
    then show ?thesis using xs kd by blast
  qed
  have up: "?h (parent m) \<noteq> None" if "?h q = Some m" "q \<notin> insert p D" "q \<noteq> root_ptr" for q m
    using shape_parent [OF sh, of q m] that by auto
  have "root_ptr \<notin> insert p D" "p \<noteq> 0" using sh p by (auto simp: shape_def)
  then show "shape (insert p D) ?h"
    using shape_root [OF sh] shape_acyclic [OF sh] sh
    by (intro shapeI lists up) (auto simp: prel_def kd)
qed

lemma inflight_counts:
  assumes sh: "shape (insert p D) h" and c: "counts (insert p D) K h"
    and p: "h p = Some n" "child n' = child n" "refcount n' = refcount n"
  shows "counts (insert p D) K (h(p \<mapsto> n'))"
  using c p(1,3) unfolding counts_def inflight_upd(2) [OF sh p(1,2)] by auto

text \<open>Taking a node out from under a directory that keeps a reference.\<close>

lemma remove_ok:
  assumes sh: "shape {} h" and c: "counts {} K h" and p: "h p = Some n" "p \<noteq> root_ptr"
    and old: "0 < K (parent n)"
  obtains h' where "remove_node_from_parent_locked h p = Some h'" "shape {p} h'" "counts {p} K h'"
    "shrinks h (h'(p := None))" "h' p = Some (n\<lparr>parent := 0, next_node := 0\<rparr>)"
    "\<And>q. q \<noteq> p \<Longrightarrow> map_option parent (h' q) = map_option parent (h q)"
proof -
  obtain h2 where h2: "unlink_sibling h p = Some h2" "shape {p} h2" "shrinks h h2"
    "\<And>q. map_option refcount (h2 q) = map_option refcount (h q)" "h2 p = h p"
    "\<And>q. map_option parent (h2 q) = map_option parent (h q)"
    using unlink_sibling_ok [OF sh p(1) _ p(2)] by auto
  obtain pn where pn: "h (parent n) = Some pn" using shape_parent [OF sh p(1) _ p(2)] by auto
  have kp: "p \<in> kids {} h (parent n)" using p by (simp add: kids_def)
  have ne: "parent n \<noteq> p" using shape_parent_ne [OF sh kp] .
  have pz: "parent n \<noteq> 0" "p \<noteq> 0" using pn p sh by auto
  let ?K = "K(parent n := K (parent n) + 1)"
  have c2: "counts {p} ?K h2" using counts_detach [OF sh c p(1) _ pn h2(4,6)] by simp
  obtain pn2 where pn2: "h2 (parent n) = Some pn2"
    using counts_held [OF c2, of "parent n"] by auto
  have "1 < unat (refcount pn2)" using counts_eq [OF c2 pn2] old by simp
  note rd = release_dec [OF h2(2) pn2 this] and cd = counts_dec [OF c2 pn2 _ this]
  let ?h3 = "h2(parent n \<mapsto> pn2\<lparr>refcount := refcount pn2 - 1\<rparr>)"
  have h3p: "?h3 p = Some n" using ne h2(5) p(1) by simp
  let ?n = "n\<lparr>parent := 0, next_node := 0\<rparr>" let ?h4 = "?h3(p \<mapsto> ?n)"
  have K: "?K(parent n := ?K (parent n) - 1) = K" by auto
  have c3: "counts {p} K ?h3" using cd unfolding K by simp
  have eq: "remove_node_from_parent_locked h p = Some ?h4"
    using p pz h2(1) rd(1) h3p sh
    by (simp add: remove_node_from_parent_locked_def modify_def deref_def)
  have "shrinks h ?h3" by (rule shrinks_trans [OF h2(3) shrinks_upd [where h = h2 and q = "parent n", OF pn2]]) simp
  then have sk: "shrinks h (?h4(p := None))" by (auto simp: shrinks_def)
  have par: "map_option parent (?h4 q) = map_option parent (h q)" if "q \<noteq> p" for q
    using that h2(6) [of q] pn2 by (cases "q = parent n") auto
  have s4: "shape {p} ?h4" using inflight_upd(1) [where D = "{}" and h = ?h3 and p = p and n' = ?n] rd(2) h3p by simp
  have c4: "counts {p} K ?h4"
    using inflight_counts [where D = "{}" and h = ?h3 and p = p and n = n and n' = ?n, OF rd(2) c3] h3p by simp
  show thesis by (rule that [OF eq s4 c4 sk _ par]) simp_all
qed

section \<open>Moving a subtree\<close>

definition same_perm :: "node \<Rightarrow> node \<Rightarrow> bool" where
  "same_perm a b \<longleftrightarrow> perm a = perm b \<and> userid a = userid b \<and> node_uid a = node_uid b \<and>
     under_android a = under_android b"

lemma core_same_perm: "core a = core b \<Longrightarrow> same_perm a b"
  unfolding same_perm_def using core_eqD by blast

lemma settled_core:
  assumes s: "settled pf g h q" and q: "\<And>n'. h' q = Some n' \<Longrightarrow> \<exists>n. h q = Some n \<and> core n' = core n"
    and par: "\<And>n' pn'. h' q = Some n' \<Longrightarrow> h' (parent n') = Some pn' \<Longrightarrow>
      \<exists>pn. h (parent n') = Some pn \<and> same_perm pn' pn"
  shows "settled pf g h' q"
  unfolding settled_def
proof (intro allI impI, elim conjE)
  fix n' pn' assume a: "h' q = Some n'" "h' (parent n') = Some pn'"
  obtain n where n: "h q = Some n" "core n' = core n" using q a(1) by blast
  obtain pn where pn: "h (parent n') = Some pn" "same_perm pn' pn" using par [OF a] by blast
  have "derive_permissions pf g pn n = n" using s n pn core_eqD(8) [OF n(2)] by (simp add: settled_def)
  then have "derive_permissions pf g pn n' = n'" by (rule core_same_derive [OF n(2)])
  moreover have "derive_permissions pf g pn' = derive_permissions pf g pn"
    using pn(2) by (intro derive_parent_cong) (auto simp: same_perm_def)
  ultimately show "derive_permissions pf g pn' n' = n'" by simp
qed

text \<open>Putting a settled subtree under a new parent leaves every node settled.\<close>

lemma attach_settled:
  assumes p: "h p = Some n" "h par = Some pn" "p \<noteq> par" and fx: "derive_permissions pf g pn n = n"
    and X: "\<And>q. q \<noteq> p \<Longrightarrow> settled pf g h q"
  shows "settled pf g (attach h p par n pn) q"
proof (cases "q = p")
  case True
  have "derive_permissions pf g (pn\<lparr>child := p, refcount := refcount pn + 1\<rparr>) = derive_permissions pf g pn"
    by (rule derive_parent_cong) simp_all
  moreover have "n\<lparr>parent := par, next_node := child pn\<rparr> =
      n\<lparr>refcount := refcount n, next_node := child pn, child := child n, parent := par\<rparr>"
    by (cases n) simp
  then have "derive_permissions pf g pn (n\<lparr>parent := par, next_node := child pn\<rparr>) =
      n\<lparr>parent := par, next_node := child pn\<rparr>"
    by (simp only: derive_fix_upd [OF fx])
  ultimately show ?thesis using True p by (auto simp: settled_def attach_def)
next
  case False
  show ?thesis
  proof (rule settled_core [OF X [OF False]])
    fix n' assume "attach h p par n pn q = Some n'"
    then show "\<exists>n. h q = Some n \<and> core n' = core n"
      using False p by (auto simp: attach_def split: if_splits)
  next
    fix n' pn' assume "attach h p par n pn (parent n') = Some pn'"
    then show "\<exists>pn. h (parent n') = Some pn \<and> same_perm pn' pn"
      using p by (auto simp: attach_def same_perm_def split: if_splits)
  qed
qed

lemma ids_ok_sub:
  assumes old: "\<And>q n. h q = Some n \<Longrightarrow> \<exists>m. nodes g q = Some m \<and> nid m = nid n \<and> ino m = ino n"
    and ids: "ids_ok g"
  shows "ids_ok (g\<lparr>nodes := h\<rparr>)"
proof -
  have "nid n = ptr_to_id p \<and> ino n \<noteq> 0 \<and> (inode_ctr g = 0 \<or> ino n < inode_ctr g)"
    if a: "h p = Some n" "p \<noteq> root_ptr" for p n
    using old [OF a(1)] ids a(2) unfolding ids_ok_def by metis
  moreover have "p = q" if a: "h p = Some n" "h q = Some m" "p \<noteq> root_ptr" "q \<noteq> root_ptr" "ino n = ino m"
    for p q n m
    using old [OF a(1)] old [OF a(2)] ids a(3-5) unfolding ids_ok_def by metis
  ultimately show ?thesis
    unfolding ids_ok_def fuse_global.select_convs fuse_global.update_convs by auto
qed

text \<open>The state while the node is in flight: taken off its old list and derived from its new parent.\<close>

lemma inflight_prel:
  assumes "\<And>q. q \<noteq> p \<Longrightarrow> map_option parent (h' q) = map_option parent (h q)"
  shows "prel {p} h' \<subseteq> prel {} h"
proof -
  have "\<exists>m. h q = Some m \<and> parent m = parent n" if "q \<noteq> p" "h' q = Some n" for q n
    using assms [OF that(1)] that(2) by (cases "h q") auto
  then show ?thesis by (fastforce simp: prel_def kids_def)
qed

lemma desc_closed:
  assumes "q \<notin> desc D h X" "h q = Some n" "q \<notin> D" shows "parent n \<notin> desc D h X"
proof
  assume "parent n \<in> desc D h X"
  moreover have "(parent n, q) \<in> prel D h" using assms by (auto simp: prel_def kids_def)
  ultimately show False using assms(1) by (auto simp: desc_def intro: rtrancl_into_rtrancl)
qed

lemma move_inflight:
  assumes s: "\<And>q. q \<noteq> p \<Longrightarrow> settled pf g h q" and sh: "shape {p} h1"
    and p: "h1 p = Some n1" and np: "h1 np = Some npn" "np \<notin> desc {p} h1 {p}"
    and sk: "shrinks h (h1(p := None))"
  obtains h3 where
    "do { h2 \<leftarrow> derive_permissions_locked pf g h1 np p;
          derive_permissions_recursive_locked pf g h2 p } = Some h3"
    "h3 p = Some (derive_permissions pf g npn n1)" "h3 np = Some npn" "reheaped h1 h3"
    "\<And>q. q \<noteq> p \<Longrightarrow> settled pf g h3 q"
proof -
  let ?n2 = "derive_permissions pf g npn n1" let ?h2 = "h1(p \<mapsto> ?n2)"
  have dp: "derive_permissions_locked pf g h1 np p = Some ?h2"
    using sh p np by (simp add: derive_permissions_locked_def modify_def)
  have sh2: "shape {p} ?h2" using inflight_upd(1) [where D = "{}" and h = h1 and p = p and n' = ?n2] sh p by simp
  have re2: "reheaped h1 ?h2" using p derive_rederived by (rule reheaped_upd)
  have kd: "kids {p} ?h2 r = kids {p} h1 r" for r by (rule same_links_kids [OF reheaped_links [OF re2]])
  then have de: "desc {p} ?h2 X = desc {p} h1 X" for X by (simp add: desc_def prel_def)
  define X where "X = desc {p} h1 (kids {p} h1 p)"
  obtain h3 where h3: "derive_permissions_recursive_locked pf g ?h2 p = Some h3" "derived pf g X ?h2 h3"
    using derive_recursive_ok [OF sh2, of p pf g] unfolding de kd X_def by auto
  have pX: "p \<notin> X" unfolding X_def by (rule par_not_desc [OF sh]) simp
  have npX: "np \<noteq> p" "np \<notin> X" using np(2) unfolding desc_kids [of "{p}" h1 p] X_def by auto
  have fr: "h3 q = ?h2 q" if "q \<notin> X" for q using h3(2) that by (simp add: derived_def)
  have "settled pf g h3 q" if q: "q \<noteq> p" for q
  proof (cases "q \<in> X")
    case True
    then show ?thesis using h3(2) by (simp add: derived_def)
  next
    case False
    then have hq: "h3 q = h1 q" using fr q by simp
    show ?thesis
    proof (rule settled_core [OF s [OF q]])
      fix n' assume "h3 q = Some n'"
      then show "\<exists>n. h q = Some n \<and> core n' = core n" using sk q hq by (auto simp: shrinks_def)
    next
      fix n' pn' assume a: "h3 q = Some n'" "h3 (parent n') = Some pn'"
      have h1q: "h1 q = Some n'" using a(1) hq by simp
      have 1: "parent n' \<notin> X" using desc_closed [OF False [unfolded X_def] h1q] q by (simp add: X_def)
      have "q \<notin> kids {p} h1 p" using False desc_self by (auto simp: X_def)
      then have "parent n' \<noteq> p" using h1q q by (auto simp: kids_def)
      with fr [OF 1] a(2) have "(h1(p := None)) (parent n') = Some pn'" by simp
      then show "\<exists>pn. h (parent n') = Some pn \<and> same_perm pn' pn"
        using sk by (meson core_same_perm shrinks_def)
    qed
  qed
  moreover have "reheaped h1 h3" using re2 h3(2) by (meson derived_def reheaped_trans)
  ultimately show thesis
    using that [of h3] dp h3(1) fr [OF pX] fr [OF npX(2)] npX np(1) by simp
qed

lemma move_ids:
  assumes sk: "shrinks h (h1(p := None))" and p: "h p = Some n" "h1 p = Some n1"
    and n1: "nid n1 = nid n" "ino n1 = ino n" and re: "reheaped h1 h3"
    and a: "h3 p = Some n2" "h3 np = Some npn" "p \<noteq> np" and dom: "\<And>q. h1 q = None \<longleftrightarrow> h q = None"
  shows "attach h3 p np n2 npn q = Some k \<Longrightarrow> \<exists>m. h q = Some m \<and> nid m = nid k \<and> ino m = ino k"
    and "h q = None \<longleftrightarrow> attach h3 p np n2 npn q = None"
proof -
  have base: "\<exists>m. h q = Some m \<and> nid m = nid k \<and> ino m = ino k" if q: "h3 q = Some k" for q k
  proof -
    obtain k0 where k0: "h1 q = Some k0" "rederived k0 k" using reheaped_back [OF re q] by blast
    have "\<exists>m. h q = Some m \<and> nid m = nid k0 \<and> ino m = ino k0"
    proof (cases "q = p")
      case True
      then show ?thesis using p n1 k0(1) by simp
    next
      case False
      then have "\<exists>m. h q = Some m \<and> core k0 = core m" using sk k0(1) by (simp add: shrinks_def)
      then show ?thesis using core_eqD(5,6) by metis
    qed
    then show ?thesis using rederived_keeps(3,5) [OF k0(2)] by simp
  qed
  then show "attach h3 p np n2 npn q = Some k \<Longrightarrow> \<exists>m. h q = Some m \<and> nid m = nid k \<and> ino m = ino k"
    using base [OF a(1)] base [OF a(2)] by (auto simp: attach_def split: if_splits)
  have "h3 q = None \<longleftrightarrow> h1 q = None" using re unfolding reheaped_def by (metis option.rel_distinct(1,2) option.exhaust)
  then show "h q = None \<longleftrightarrow> attach h3 p np n2 npn q = None"
    using dom a by (auto simp: attach_def)
qed

lemma move_ginv:
  assumes g: "ginv pf K g" and p: "nodes g p = Some n" "p \<noteq> root_ptr" and old: "0 < K (parent n)"
    and n': "links n' = links n" "refcount n' = refcount n" "nid n' = nid n" "ino n' = ino n"
    and np: "nodes g np \<noteq> None" "(p, np) \<notin> (prel {} (nodes g))\<^sup>*" and rm: "room 2 (nodes g)"
  obtains h m where "move_node_locked pf g ((nodes g)(p \<mapsto> n')) p np = Some h" "ginv pf K (g\<lparr>nodes := h\<rparr>)"
    "h p = Some m" "parent m = np" "name m = name n'" "deleted m = deleted n'"
    "\<And>q. nodes g q = None \<longleftrightarrow> h q = None"
proof -
  let ?h = "(nodes g)(p \<mapsto> n')"
  have pn': "parent n' = parent n" using n'(1) by (simp add: links_def)
  have sl: "same_links (nodes g) ?h" using p(1) n'(1) by (rule same_links_upd)
  have sh: "shape {} ?h" by (rule same_links_shape [OF sl ginvD(1) [OF g]])
  have c: "counts {} K ?h" by (rule same_links_counts [OF sl _ ginvD(2) [OF g]]) (simp add: p n')
  have kd: "kids D ?h r = kids D (nodes g) r" for D r by (rule same_links_kids [OF sl])
  obtain h1 where h1: "remove_node_from_parent_locked ?h p = Some h1" "shape {p} h1" "counts {p} K h1"
    "shrinks ?h (h1(p := None))" "h1 p = Some (n'\<lparr>parent := 0, next_node := 0\<rparr>)"
    "\<And>q. q \<noteq> p \<Longrightarrow> map_option parent (h1 q) = map_option parent (?h q)"
    using remove_ok [OF sh c, of p n'] p old pn' by auto
  have dom1: "h1 q = None \<longleftrightarrow> nodes g q = None" for q
    using h1(5) h1(6) [of q] p by (cases "q = p"; cases "h1 q"; cases "nodes g q") auto
  have ne: "np \<noteq> p" using np(2) by auto
  obtain npn where npn: "h1 np = Some npn" using np(1) dom1 by (metis not_None_eq)
  have "prel {p} h1 \<subseteq> prel {} ?h" by (rule inflight_prel [OF h1(6)])
  then have sub: "prel {p} h1 \<subseteq> prel {} (nodes g)" by (simp add: prel_def kd)
  then have cyc: "(p, np) \<notin> (prel {p} h1)\<^sup>*" using np(2) rtrancl_mono by blast
  then have nd: "np \<notin> desc {p} h1 {p}" by (simp add: desc_def)
  have s: "settled pf g ((nodes g)(p := None)) q" for q
    by (rule shrinks_settled [OF _ ginvD(5) [OF g]]) (auto simp: shrinks_def)
  have sk: "shrinks (nodes g) (h1(p := None))"
    using h1(4) unfolding shrinks_def by (metis fun_upd_other fun_upd_same option.distinct(1))
  obtain h3 where h3: "do { h2 \<leftarrow> derive_permissions_locked pf g h1 np p;
        derive_permissions_recursive_locked pf g h2 p } = Some h3"
      "h3 p = Some (derive_permissions pf g npn (n'\<lparr>parent := 0, next_node := 0\<rparr>))" "h3 np = Some npn"
      "reheaped h1 h3" "\<And>q. q \<noteq> p \<Longrightarrow> settled pf g h3 q"
    using move_inflight [OF ginvD(5) [OF g] h1(2,5) npn nd sk] by blast
  let ?n = "derive_permissions pf g npn (n'\<lparr>parent := 0, next_node := 0\<rparr>)"
  let ?H = "attach h3 p np ?n npn"
  have z: "p \<noteq> 0" "np \<noteq> 0" using h1(2,5) npn by auto
  have sh3: "shape {p} h3" and c3: "counts {p} K h3"
    using reheaped_shape reheaped_counts h3(4) h1(2,3) by blast+
  have k3: "kids {p} h3 r = kids {p} h1 r" for r by (rule same_links_kids [OF reheaped_links [OF h3(4)]])
  obtain h2 where "derive_permissions_locked pf g h1 np p = Some h2"
    "derive_permissions_recursive_locked pf g h2 p = Some h3"
    using h3(1) unfolding bind_eq_Some_iff by blast
  then have eq: "move_node_locked pf g ?h p np = Some ?H"
    using h1(1) add_node_to_parent_eq [OF h3(2,3) ne [symmetric] z] by (simp add: move_node_locked_def)
  have "card (kids {p} h1 np) \<le> card (kids {} (nodes g) np)"
    using sub by (intro card_mono) (auto simp: prel_def)
  moreover obtain np0 where np0: "nodes g np = Some np0" using np(1) by blast
  moreover have "unat (refcount npn) = card (kids {p} h1 np) + K np" by (rule counts_eq [OF h1(3) npn])
  moreover have "unat (refcount np0) = card (kids {} (nodes g) np) + K np"
    by (rule counts_eq [OF ginvD(2) [OF g] np0])
  moreover have "unat (refcount np0) + 2 < 2 ^ 32" using rm np0 unfolding room_def by blast
  ultimately have ov: "unat (refcount npn) + 1 < 2 ^ 32" by linarith
  have pos: "0 < refcount ?n" using counts_pos [OF ginvD(2) [OF g] p(1)] n' by simp
  have shH: "shape {} ?H"
    using sh3 h3(2,3) cyc by (intro attach_shape) (simp_all add: prel_def k3)
  have cH: "counts {} K ?H"
    using c3 h3(2,3) pos ov ne by (intro attach_counts) auto
  have stH: "settled pf g ?H q" for q
    by (rule attach_settled [OF h3(2,3) ne [symmetric] _ h3(5)]) simp_all
  note mi = move_ids [OF sk p(1) h1(5) _ _ h3(4,2,3) ne [symmetric] dom1]
  have old3: "\<exists>m. nodes g q = Some m \<and> nid m = nid k \<and> ino m = ino k" if "?H q = Some k" for q k
    using mi(1) that n' by simp
  have domH: "nodes g q = None \<longleftrightarrow> ?H q = None" for q using mi(2) n' by simp
  have gi: "ginv pf K (g\<lparr>nodes := ?H\<rparr>)"
    using shH cH stH ids_ok_sub [OF old3 ginvD(4) [OF g]] ginvD(3) [OF g]
      domH [of 1] ginvD(6) [OF g]
    by (intro ginvI) (simp_all add: settled_config [of "g\<lparr>nodes := ?H\<rparr>" g])
  show thesis by (rule that [OF eq gi, of "?n\<lparr>parent := np, next_node := child npn\<rparr>"])
     (use ne domH in \<open>simp_all add: attach_def\<close>)
qed

end
