(* ===== verification/Fuse_Path.thy ===== *)
theory Fuse_Path
  imports Fuse_Move
begin

text \<open>
  Stored names and paths: the name fields of every node agree with their recorded lengths, every
  operation on the heap keeps that, and \<open>get_node_path_locked\<close> computes the path of the node in
  the tree exactly when the path and its terminator fit the buffer.
\<close>

section \<open>Well-formed names\<close>

definition names_ok :: "node \<Rightarrow> bool" where
  "names_ok n \<longleftrightarrow> namelen n = length (name n) \<and>
     (\<forall>a. actual_name n = Some a \<longrightarrow> length a = namelen n) \<and>
     (\<forall>s. graft_path n = Some s \<longrightarrow> graft_pathlen n = length s)"

definition names :: "heap \<Rightarrow> bool" where
  "names h \<longleftrightarrow> (\<forall>p n. h p = Some n \<longrightarrow> names_ok n)"

lemma namesD: "names h \<Longrightarrow> h p = Some n \<Longrightarrow> names_ok n"
  by (simp add: names_def)

lemma names_upd: "names h \<Longrightarrow> names_ok n \<Longrightarrow> names (h(p \<mapsto> n))"
  by (simp add: names_def)

lemma names_del: "names h \<Longrightarrow> names (h(p := None))"
  by (simp add: names_def)

lemma names_modify:
  "modify h p f = Some h' \<Longrightarrow> names h \<Longrightarrow> (\<And>n. names_ok n \<Longrightarrow> names_ok (f n)) \<Longrightarrow> names h'"
  by (auto simp: modify_def deref_def names_def split: if_splits)

lemma names_ok_links [simp]:
  "names_ok (n\<lparr>refcount := r\<rparr>) = names_ok n" "names_ok (n\<lparr>next_node := p\<rparr>) = names_ok n"
  "names_ok (n\<lparr>child := p\<rparr>) = names_ok n" "names_ok (n\<lparr>parent := p\<rparr>) = names_ok n"
  "names_ok (n\<lparr>deleted := b\<rparr>) = names_ok n"
  by (simp_all add: names_ok_def)

lemma names_ok_derive [simp]: "names_ok n \<Longrightarrow> names_ok (derive_permissions pf g par n)"
  by (cases "perm par") (auto simp: derive_permissions_def names_ok_def Let_def split: option.split)

lemma names_acquire: "acquire_node_locked h p = Some h' \<Longrightarrow> names h \<Longrightarrow> names h'"
  unfolding acquire_node_locked_def by (erule names_modify) simp_all

lemma names_add_to_parent: "add_node_to_parent_locked h p par = Some h' \<Longrightarrow> names h \<Longrightarrow> names h'"
  unfolding add_node_to_parent_locked_def
  by (auto simp: fault_simps elim!: names_acquire names_modify)

lemma names_unlink: "unlink_sibling h p = Some h' \<Longrightarrow> names h \<Longrightarrow> names h'"
  unfolding unlink_sibling_def
  by (auto simp: fault_simps split: if_splits elim!: names_modify)

lemma names_release: "release_node_locked h p = Some h' \<Longrightarrow> names h \<Longrightarrow> names h'"
proof -
  have "names h \<longrightarrow> names h'" if "release_node_locked h p = Some h'"
  proof (rule release_node_locked.raw_induct [where P = "\<lambda>h p h'. names h \<longrightarrow> names h'", OF _ that])
    fix rel :: "heap \<Rightarrow> ptr \<Rightarrow> heap option" and h p h'
    assume rel: "\<And>h p h'. rel h p = Some h' \<Longrightarrow> names h \<longrightarrow> names h'"
    assume "do { n \<leftarrow> deref h p;
      if 0 < refcount n then do {
        h1 \<leftarrow> modify h p (\<lambda>n. n\<lparr>refcount := refcount n - 1\<rparr>);
        if refcount n - 1 = 0 then do {
          h2 \<leftarrow> (if parent n \<noteq> 0 then do {
             h2 \<leftarrow> unlink_sibling h1 p; h3 \<leftarrow> rel h2 (parent n);
             modify h3 p (\<lambda>m. m\<lparr>parent := 0, next_node := 0\<rparr>) } else Some h1);
          if p = root_ptr then None else Some (h2(p := None)) }
        else Some h1 }
      else Some h } = Some h'"
    then show "names h \<longrightarrow> names h'"
      by (auto simp: fault_simps split: if_splits intro!: names_del elim!: names_modify
          dest!: names_unlink rel)
  qed
  then show "release_node_locked h p = Some h' \<Longrightarrow> names h \<Longrightarrow> names h'" by blast
qed

lemma names_remove: "remove_node_from_parent_locked h p = Some h' \<Longrightarrow> names h \<Longrightarrow> names h'"
  unfolding remove_node_from_parent_locked_def
  by (auto simp: fault_simps split: if_splits elim!: names_modify dest!: names_unlink names_release)

lemma names_derive: "derive_permissions_locked pf g h par p = Some h' \<Longrightarrow> names h \<Longrightarrow> names h'"
  unfolding derive_permissions_locked_def
  by (auto simp: fault_simps elim!: names_modify)

lemma names_derive_children: "derive_children pf g par h p = Some h' \<Longrightarrow> names h \<Longrightarrow> names h'"
proof -
  have "names h \<longrightarrow> names h'" if "derive_children pf g par h p = Some h'"
  proof (rule derive_children.raw_induct [where P = "\<lambda>pf g par h p h'. names h \<longrightarrow> names h'", OF _ that])
    fix rc :: "platform \<Rightarrow> fuse_global \<Rightarrow> ptr \<Rightarrow> heap \<Rightarrow> ptr \<Rightarrow> heap option" and pf g par h p h'
    assume rc: "\<And>pf g par h p h'. rc pf g par h p = Some h' \<Longrightarrow> names h \<longrightarrow> names h'"
    assume "(if p = 0 then Some h
      else do {
        h1 \<leftarrow> derive_permissions_locked pf g h par p;
        n \<leftarrow> deref h1 p;
        h2 \<leftarrow> (if child n \<noteq> 0 then rc pf g p h1 (child n) else Some h1);
        n2 \<leftarrow> deref h2 p;
        rc pf g par h2 (next_node n2)
      }) = Some h'"
    then show "names h \<longrightarrow> names h'"
      by (auto simp: fault_simps split: if_splits dest!: names_derive rc)
  qed
  then show "derive_children pf g par h p = Some h' \<Longrightarrow> names h \<Longrightarrow> names h'" by blast
qed

lemma names_derive_recursive:
  "derive_permissions_recursive_locked pf g h par = Some h' \<Longrightarrow> names h \<Longrightarrow> names h'"
  unfolding derive_permissions_recursive_locked_def by (auto simp: fault_simps dest: names_derive_children)

lemma names_okI:
  "namelen n = length (name n) \<Longrightarrow> (\<And>a. actual_name n = Some a \<Longrightarrow> length a = namelen n) \<Longrightarrow>
   (\<And>s. graft_path n = Some s \<Longrightarrow> graft_pathlen n = length s) \<Longrightarrow> names_ok n"
  by (simp add: names_ok_def)

lemma names_fresh:
  assumes "length act = length nm" shows "names_ok (fresh_node p i gn nm act)"
proof -
  have "take (length nm + 1) act = act" using assms by (intro take_all) linarith
  then have "actual_name (fresh_node p i gn nm act) = (if nm = act then None else Some act)"
    by (simp add: fresh_node_def)
  moreover have "namelen (fresh_node p i gn nm act) = length nm" "name (fresh_node p i gn nm act) = nm"
    "graft_path (fresh_node p i gn nm act) = None"
    by (simp_all add: fresh_node_def)
  ultimately show ?thesis using assms by (intro names_okI) (metis option.distinct(1) option.inject)+
qed

lemma names_create:
  assumes "create_node_locked pf g par nm act = Some (p, g')" "names (nodes g)" "length act = length nm"
  shows "names (nodes g')"
  using assms names_fresh [OF assms(3)] unfolding create_node_locked_def
  by (auto simp: Let_def fault_simps split: if_splits
      dest!: names_add_to_parent names_acquire names_derive intro!: names_upd)

lemma rename_node_names:
  assumes "rename_node pf n nm act = (res, n')" "names_ok n" "length act = length nm"
  shows "names_ok n'"
proof -
  have t: "take (length nm + 1) act = act" using assms(3) by (intro take_all) linarith
  have "n' = n \<or> n' = n\<lparr>actual_name := (if nm \<noteq> act then Some act else None),
      name := nm, namelen := length nm\<rparr>"
    using assms(1) unfolding rename_node_def Let_def t by (simp only: prod.inject split: if_split_asm) blast+
  then show ?thesis
  proof
    assume n': "n' = n\<lparr>actual_name := (if nm \<noteq> act then Some act else None), name := nm, namelen := length nm\<rparr>"
    show ?thesis unfolding n'
      by (intro names_okI) (use assms(2,3) in \<open>auto simp: names_ok_def split: if_split_asm\<close>)
  qed (simp add: assms(2))
qed

lemma names_rename:
  assumes "rename_node_locked pf h p nm act = Some (res, h')" "names h" "length act = length nm"
  shows "names h'"
proof -
  obtain n n' where "h p = Some n" "rename_node pf n nm act = (res, n')" "h' = h(p \<mapsto> n')"
    using assms(1) unfolding rename_node_locked_def
    by (cases "h p"; cases "rename_node pf (the (h p)) nm act") (auto simp: fault_simps deref_def split: if_splits)
  then show ?thesis using assms(2,3) rename_node_names namesD by (auto intro!: names_upd)
qed

lemma names_move: "move_node_locked pf g h p par = Some h' \<Longrightarrow> names h \<Longrightarrow> names h'"
  unfolding move_node_locked_def
  by (auto simp: fault_simps dest!: names_remove names_derive names_derive_recursive names_add_to_parent)

lemma names_acquire_or_create:
  assumes "acquire_or_create_child_locked pf g par nm act = Some (p, g')" "names (nodes g)"
    "length act = length nm"
  shows "names (nodes g')"
  using assms unfolding acquire_or_create_child_locked_def
  by (auto simp: fault_simps split: if_splits dest!: names_acquire dest: names_create)

section \<open>Paths\<close>

text \<open>The path of a node, with no buffer in sight.\<close>

inductive path_of :: "heap \<Rightarrow> ptr \<Rightarrow> string \<Rightarrow> bool" for h where
  grafted: "h p = Some n \<Longrightarrow> graft_path n = Some s \<Longrightarrow> path_of h p s"
| top: "h p = Some n \<Longrightarrow> graft_path n = None \<Longrightarrow> parent n = 0 \<Longrightarrow> path_of h p (fst (stored_name n))"
| below: "h p = Some n \<Longrightarrow> graft_path n = None \<Longrightarrow> parent n \<noteq> 0 \<Longrightarrow> path_of h (parent n) s \<Longrightarrow>
    path_of h p (s @ ''/'' @ fst (stored_name n))"

inductive_cases path_ofE: "path_of h p s"

lemma path_of_unique: "path_of h p s \<Longrightarrow> path_of h p t \<Longrightarrow> s = t"
proof (induction arbitrary: t rule: path_of.induct)
  case (grafted p n s)
  from grafted(3) show ?case by (rule path_ofE) (use grafted(1,2) in auto)
next
  case (top p n)
  from top(4) show ?case by (rule path_ofE) (use top(1-3) in auto)
next
  case (below p n s)
  from below(6) show ?case by (rule path_ofE) (use below(1-3,5) in auto)
qed

lemma stored_len: "names_ok n \<Longrightarrow> snd (stored_name n) = length (fst (stored_name n))"
  by (simp add: stored_name_def names_ok_def split: option.split)

text \<open>Acyclicity of the parent relation makes every node have a path.\<close>

lemma path_exists:
  assumes sh: "shape {} h" and p: "h p \<noteq> None"
  shows "\<exists>s. path_of h p s"
proof -
  have "finite (prel {} h)" by (rule finite_subset [of _ UNIV]) auto
  with sh have "wf ((prel {} h))" by (intro finite_acyclic_wf) (simp_all add: shape_def)
  then show ?thesis using p
  proof (induction p)
    case (less p)
    then obtain n where n: "h p = Some n" by blast
    consider (g) s where "graft_path n = Some s" | (t) "graft_path n = None" "parent n = 0"
      | (b) "graft_path n = None" "parent n \<noteq> 0" by (cases "graft_path n") auto
    then show ?case
    proof cases
      case b
      have "p \<noteq> root_ptr" using shape_root [OF sh] n b by auto
      then have "h (parent n) \<noteq> None" using sh n by (simp add: shape_def)
      moreover have "(parent n, p) \<in> prel {} h" using n by (simp add: prel_def kids_def)
      ultimately obtain s where "path_of h (parent n) s" using less.IH by blast
      with n b show ?thesis by (blast intro: path_of.below)
    qed (use n in \<open>blast intro: path_of.intros\<close>)+
  qed
qed

text \<open>The buffered walk against the specification.\<close>

lemma get_node_path_spec:
  assumes "path_of h p s" "names h" "h 0 = None"
  shows "get_node_path_locked h p b = Some (if length s < b then Some s else None)"
  using assms
proof (induction arbitrary: b rule: path_of.induct)
  case (grafted p n s)
  have "p \<noteq> 0" using grafted by auto
  moreover have "stored_name n = (s, length s)"
    using grafted namesD by (fastforce simp: stored_name_def names_ok_def)
  ultimately show ?case using grafted
    by (simp add: get_node_path_locked.simps [of h p] deref_def)
next
  case (top p n)
  obtain nm where "stored_name n = (nm, length nm)"
    using stored_len [OF namesD [OF top.prems(1) top.hyps(1)]] by (metis prod.collapse)
  moreover have "p \<noteq> 0" using top by auto
  ultimately show ?case using top by (simp add: get_node_path_locked.simps [of h p] deref_def)
next
  case (below p n s)
  obtain nm where "stored_name n = (nm, length nm)"
    using stored_len [OF namesD [OF below.prems(1) below.hyps(1)]] by (metis prod.collapse)
  moreover have "p \<noteq> 0" using below by auto
  ultimately show ?case using below
    by (auto simp: get_node_path_locked.simps [of h p] deref_def)
qed

lemma lookup_path_total:
  assumes "shape {} h" "names h" "h (lookup_node_by_id_locked i) \<noteq> None"
  obtains s where "path_of h (lookup_node_by_id_locked i) s"
    "lookup_node_and_path_by_id_locked h i b =
       Some (if length s < b then (lookup_node_by_id_locked i, s) else (0, []))"
proof -
  have z: "h 0 = None" using assms(1) by (simp add: shape_def)
  obtain s where s: "path_of h (lookup_node_by_id_locked i) s" using path_exists assms(1,3) by blast
  have "lookup_node_by_id_locked i \<noteq> 0" using assms(3) z by metis
  with get_node_path_spec [OF s assms(2) z] show thesis
    by (intro that [OF s]) (simp add: lookup_node_and_path_by_id_locked_def Let_def)
qed

end
