(* ===== verification/Fuse_Handlers.thy ===== *)
theory Fuse_Handlers
  imports Fuse_Node
begin

text \<open>
  The request handlers of \<open>fuse.cpp\<close>, the dispatcher and the request loop. A handler takes the
  state of the daemon (nodes, open handles, the file system underneath, the messages written so
  far) and returns its C result (\<open>NO_STATUS\<close>, 0 or a negative error number) with the new state;
  \<open>None\<close> is a memory fault. System calls are the parameter \<open>'fs sys\<close>: each takes the state of
  the file system underneath and returns its result (an error number on the left) and a new
  state, so that other processes may change files between two calls. A call wrapped in
  \<open>TEMP_FAILURE_RETRY\<close> stands for its first result other than \<open>EINTR\<close>. A handler runs as one
  step: the interleavings of the four handler threads between two critical sections are not modelled.
\<close>

section \<open>Parameters and state\<close>

record timespec =
  tv_sec :: "u32 option" \<comment> \<open>\<open>None\<close>: left uninitialised by the code\<close>
  tv_nsec :: u32

abbreviation UTIME_NOW :: u32 where "UTIME_NOW \<equiv> 0x3fffffff"
abbreviation UTIME_OMIT :: u32 where "UTIME_OMIT \<equiv> 0x3ffffffe"

record 'fs sys =
  sys_lstat :: "string \<Rightarrow> 'fs \<Rightarrow> stat result \<times> 'fs"
  sys_access_ok :: "string \<Rightarrow> 'fs \<Rightarrow> bool \<times> 'fs"
  sys_listdir :: "string \<Rightarrow> 'fs \<Rightarrow> string list option \<times> 'fs"
  sys_truncate64 :: "string \<Rightarrow> u64 \<Rightarrow> 'fs \<Rightarrow> unit result \<times> 'fs"
  sys_utimensat :: "string \<Rightarrow> timespec \<Rightarrow> timespec \<Rightarrow> 'fs \<Rightarrow> unit result \<times> 'fs"
  sys_mknod :: "string \<Rightarrow> u32 \<Rightarrow> u32 \<Rightarrow> 'fs \<Rightarrow> unit result \<times> 'fs"
  sys_mkdir :: "string \<Rightarrow> u32 \<Rightarrow> 'fs \<Rightarrow> unit result \<times> 'fs"
  sys_unlink :: "string \<Rightarrow> 'fs \<Rightarrow> unit result \<times> 'fs"
  sys_rmdir :: "string \<Rightarrow> 'fs \<Rightarrow> unit result \<times> 'fs"
  sys_rename :: "string \<Rightarrow> string \<Rightarrow> 'fs \<Rightarrow> unit result \<times> 'fs"
  sys_open :: "string \<Rightarrow> u32 \<Rightarrow> 'fs \<Rightarrow> int result \<times> 'fs"
  sys_open_excl :: "string \<Rightarrow> u32 \<Rightarrow> 'fs \<Rightarrow> int result \<times> 'fs"
  sys_close :: "int \<Rightarrow> 'fs \<Rightarrow> 'fs"
  sys_pread64 :: "int \<Rightarrow> nat \<Rightarrow> u64 \<Rightarrow> 'fs \<Rightarrow> bytes result \<times> 'fs"
  sys_pwrite64 :: "int \<Rightarrow> bytes \<Rightarrow> u64 \<Rightarrow> 'fs \<Rightarrow> u32 result \<times> 'fs"
  sys_statfs :: "string \<Rightarrow> 'fs \<Rightarrow> statfs result \<times> 'fs"
  sys_fsync :: "int \<Rightarrow> 'fs \<Rightarrow> unit result \<times> 'fs"
  sys_fdatasync :: "int \<Rightarrow> 'fs \<Rightarrow> unit result \<times> 'fs"
  sys_opendir :: "string \<Rightarrow> 'fs \<Rightarrow> int result \<times> 'fs"
  sys_dirfd :: "int \<Rightarrow> 'fs \<Rightarrow> int"
  sys_rewinddir :: "int \<Rightarrow> 'fs \<Rightarrow> 'fs"
  sys_readdir :: "int \<Rightarrow> 'fs \<Rightarrow> (u32 \<times> string) option \<times> 'fs"
  sys_closedir :: "int \<Rightarrow> 'fs \<Rightarrow> 'fs"
  sys_malloc :: "ptr set \<Rightarrow> 'fs \<Rightarrow> ptr"

record 'fs world =
  glob :: fuse_global
  fs :: 'fs
  handles :: "ptr \<rightharpoonup> int"
  dirhandles :: "ptr \<rightharpoonup> int"
  outbox :: "(view \<times> fuse_out) list"

type_synonym 'fs outcome = "(int \<times> 'fs world) option"

definition heap_of :: "'fs world \<Rightarrow> heap" where
  "heap_of w = nodes (glob w)"

definition set_heap :: "heap \<Rightarrow> 'fs world \<Rightarrow> 'fs world" where
  "set_heap h w = w\<lparr>glob := (glob w)\<lparr>nodes := h\<rparr>\<rparr>"

section \<open>Finding files, attributes, access\<close>

text \<open>Returns the actual name and the contents of the buffer (the child's path).\<close>

definition find_file_within ::
    "'fs sys \<Rightarrow> string \<Rightarrow> string \<Rightarrow> nat \<Rightarrow> bool \<Rightarrow> 'fs \<Rightarrow> (string \<times> string) option \<times> 'fs" where
  "find_file_within S path nm bufsize search f =
     (let childlen = length path + length nm + 1 in
      if bufsize \<le> childlen then (None, f)
      else let buf = path @ ''/'' @ nm in
      if search then
        (case sys_access_ok S buf f of
           (True, f1) \<Rightarrow> (Some (nm, buf), f1)
         | (False, f1) \<Rightarrow>
             (case sys_listdir S path f1 of
                (None, f2) \<Rightarrow> (Some (nm, buf), f2)
              | (Some entries, f2) \<Rightarrow>
                  (case find (\<lambda>d. strcaseeq d nm) entries of
                     None \<Rightarrow> (Some (nm, buf), f2)
                   | Some d \<Rightarrow> (Some (take (length nm) d, path @ ''/'' @ take (length nm) d), f2))))
      else (Some (nm, buf), f))"

definition attr_from_stat :: "platform \<Rightarrow> fuse \<Rightarrow> stat \<Rightarrow> node \<Rightarrow> fuse_attr" where
  "attr_from_stat pf fu s n =
     (let gid = (if fuse_gid fu = AID_SDCARD_RW pf then AID_SDCARD_RW pf
                 else multiuser_get_uid pf (userid n) (fuse_gid fu));
          visible = 0x1FD AND NOT (mask fu);
          visible_mode = (if perm n = PERM_PRE_ROOT then 0x1C9
                          else if under_android n
                          then (if fuse_gid fu = AID_SDCARD_RW pf then visible AND NOT 6
                                else visible AND NOT 7)
                          else visible);
          owner_mode = st_mode s AND 0x1C0;
          filtered_mode = visible_mode AND
            (owner_mode OR drop_bit 3 owner_mode OR drop_bit 6 owner_mode)
      in \<lparr>a_ino = ucast (ino n), a_size = st_size s, a_blocks = st_blocks s,
          a_atime = scast (fst (st_atim s)), a_mtime = scast (fst (st_mtim s)),
          a_ctime = scast (fst (st_ctim s)), a_atimensec = snd (st_atim s),
          a_mtimensec = snd (st_mtim s), a_ctimensec = snd (st_ctim s),
          a_mode = (st_mode s AND 0xF000) OR filtered_mode, a_nlink = st_nlink s,
          a_uid = node_uid n, a_gid = gid\<rparr>)"

definition touch :: "'fs sys \<Rightarrow> string \<Rightarrow> u32 \<Rightarrow> 'fs \<Rightarrow> int \<times> 'fs" where
  "touch S path mode f =
     (case sys_open_excl S path mode f of
        (Inl e, f1) \<Rightarrow> (if e = EEXIST then (0, f1) else (- 1, f1))
      | (Inr fd, f1) \<Rightarrow> (0, sys_close S fd f1))"

definition check_caller_access_to_name ::
    "heap \<Rightarrow> fuse_in_header \<Rightarrow> ptr \<Rightarrow> string \<Rightarrow> int \<Rightarrow> bool option" where
  "check_caller_access_to_name h hdr parent_node nm mode = do {
     blocked \<leftarrow> (if parent_node \<noteq> 0
       then do {
         n \<leftarrow> deref h parent_node;
         Some (perm n = PERM_ROOT \<and>
               (strcaseeq nm ''autorun.inf'' \<or> strcaseeq nm ''.android_secure'' \<or>
                strcaseeq nm ''android_secure''))
       }
       else Some False);
     Some (if blocked then False else if hdr_uid hdr = 0 then True else True)
   }"

definition check_caller_access_to_node :: "heap \<Rightarrow> fuse_in_header \<Rightarrow> ptr \<Rightarrow> int \<Rightarrow> bool option" where
  "check_caller_access_to_node h hdr p mode = do {
     n \<leftarrow> deref h p;
     check_caller_access_to_name h hdr (parent n) (name n) mode
   }"

section \<open>Writing to the kernel\<close>

definition emit :: "view \<Rightarrow> fuse_out \<Rightarrow> 'fs world \<Rightarrow> 'fs world" where
  "emit v m w = w\<lparr>outbox := outbox w @ [(v, m)]\<rparr>"

definition fuse_status :: "view \<Rightarrow> u64 \<Rightarrow> int \<Rightarrow> 'fs world \<Rightarrow> 'fs world" where
  "fuse_status v uq err =
     emit v \<lparr>out_len = sizeof_out_header, out_error = err, out_unique = uq, out_data = NoData\<rparr>"

definition fuse_reply :: "view \<Rightarrow> u64 \<Rightarrow> payload \<Rightarrow> nat \<Rightarrow> 'fs world \<Rightarrow> 'fs world" where
  "fuse_reply v uq data len =
     emit v \<lparr>out_len = len + sizeof_out_header, out_error = 0, out_unique = uq, out_data = data\<rparr>"

definition fuse_reply_entry ::
    "platform \<Rightarrow> 'fs sys \<Rightarrow> view \<Rightarrow> u64 \<Rightarrow> ptr \<Rightarrow> string \<Rightarrow> string \<Rightarrow> string \<Rightarrow> 'fs world \<Rightarrow> 'fs outcome" where
  "fuse_reply_entry pf S v uq par nm act path w =
     (case sys_lstat S path (fs w) of
        (Inl e, f1) \<Rightarrow> Some (- e, w\<lparr>fs := f1\<rparr>)
      | (Inr s, f1) \<Rightarrow> do {
          let w1 = w\<lparr>fs := f1\<rparr>;
          (p, g) \<leftarrow> acquire_or_create_child_locked pf (glob w1) par nm act;
          if p = 0 then Some (- ENOMEM, w1\<lparr>glob := g\<rparr>)
          else do {
            n \<leftarrow> deref (nodes g) p;
            let data = EntryOut (nid n) (gen n) 10 10 (attr_from_stat pf (mounts g v) s n);
            Some (NO_STATUS, fuse_reply v uq data 128 (w1\<lparr>glob := g\<rparr>))
          }
        })"

definition fuse_reply_attr ::
    "platform \<Rightarrow> 'fs sys \<Rightarrow> view \<Rightarrow> u64 \<Rightarrow> ptr \<Rightarrow> string \<Rightarrow> 'fs world \<Rightarrow> 'fs outcome" where
  "fuse_reply_attr pf S v uq p path w =
     (case sys_lstat S path (fs w) of
        (Inl e, f1) \<Rightarrow> Some (- e, w\<lparr>fs := f1\<rparr>)
      | (Inr s, f1) \<Rightarrow> do {
          n \<leftarrow> deref (heap_of w) p;
          Some (NO_STATUS,
            fuse_reply v uq (AttrOut 10 (attr_from_stat pf (mounts (glob w) v) s n)) 104 (w\<lparr>fs := f1\<rparr>))
        })"

definition FUSE_NOTIFY_DELETE :: int where
  "FUSE_NOTIFY_DELETE = 6"

definition fuse_notify_delete :: "view \<Rightarrow> u64 \<Rightarrow> u64 \<Rightarrow> string \<Rightarrow> 'fs world \<Rightarrow> 'fs world" where
  "fuse_notify_delete v par chld nm =
     emit v \<lparr>out_len = sizeof_out_header + sizeof_notify_delete_out + length nm + 1,
             out_error = FUSE_NOTIFY_DELETE, out_unique = 0,
             out_data = NotifyDeleteOut par chld (length nm) nm\<rparr>"

section \<open>Handlers: names and attributes\<close>

definition handle_lookup ::
    "platform \<Rightarrow> 'fs sys \<Rightarrow> view \<Rightarrow> fuse_in_header \<Rightarrow> string \<Rightarrow> 'fs world \<Rightarrow> 'fs outcome" where
  "handle_lookup pf S v hdr nm w = do {
     (parent_node, parent_path) \<leftarrow> lookup_node_and_path_by_id_locked (heap_of w) (nodeid hdr) PATH_MAX;
     if parent_node = 0 then Some (- ENOENT, w)
     else (case find_file_within S parent_path nm PATH_MAX True (fs w) of
        (None, f1) \<Rightarrow> Some (- ENOENT, w\<lparr>fs := f1\<rparr>)
      | (Some (act, child_path), f1) \<Rightarrow> do {
          let w1 = w\<lparr>fs := f1\<rparr>;
          ok \<leftarrow> check_caller_access_to_name (heap_of w1) hdr parent_node nm R_OK;
          if \<not> ok then Some (- EACCES, w1)
          else fuse_reply_entry pf S v (unique hdr) parent_node nm act child_path w1
        })
   }"

text \<open>The loop of \<open>handle_forget\<close>: \<open>n\<close> releases of the same node.\<close>

fun release_times :: "nat \<Rightarrow> heap \<Rightarrow> ptr \<Rightarrow> heap option" where
  "release_times 0 h p = Some h"
| "release_times (Suc n) h p = do { h1 \<leftarrow> release_node_locked h p; release_times n h1 p }"

definition handle_forget :: "fuse_in_header \<Rightarrow> u64 \<Rightarrow> 'fs world \<Rightarrow> 'fs outcome" where
  "handle_forget hdr nlookup w =
     (let p = lookup_node_by_id_locked (nodeid hdr) in
      if p \<noteq> 0
      then do { h \<leftarrow> release_times (unat nlookup) (heap_of w) p; Some (NO_STATUS, set_heap h w) }
      else Some (NO_STATUS, w))"

definition handle_getattr ::
    "platform \<Rightarrow> 'fs sys \<Rightarrow> view \<Rightarrow> fuse_in_header \<Rightarrow> 'fs world \<Rightarrow> 'fs outcome" where
  "handle_getattr pf S v hdr w = do {
     (p, path) \<leftarrow> lookup_node_and_path_by_id_locked (heap_of w) (nodeid hdr) PATH_MAX;
     if p = 0 then Some (- ENOENT, w)
     else do {
       ok \<leftarrow> check_caller_access_to_node (heap_of w) hdr p R_OK;
       if \<not> ok then Some (- EACCES, w)
       else fuse_reply_attr pf S v (unique hdr) p path w
     }
   }"

record setattr_in =
  valid :: u32
  sa_size :: u64
  sa_atime :: u64
  sa_mtime :: u64
  sa_atimensec :: u32
  sa_mtimensec :: u32

abbreviation FATTR_SIZE :: u32 where "FATTR_SIZE \<equiv> 8"
abbreviation FATTR_ATIME :: u32 where "FATTR_ATIME \<equiv> 16"
abbreviation FATTR_MTIME :: u32 where "FATTR_MTIME \<equiv> 32"
abbreviation FATTR_FH :: u32 where "FATTR_FH \<equiv> 64"
abbreviation FATTR_ATIME_NOW :: u32 where "FATTR_ATIME_NOW \<equiv> 128"
abbreviation FATTR_MTIME_NOW :: u32 where "FATTR_MTIME_NOW \<equiv> 256"

definition time_arg :: "u32 \<Rightarrow> u32 \<Rightarrow> u32 \<Rightarrow> u64 \<Rightarrow> u32 \<Rightarrow> timespec" where
  "time_arg vld flag flag_now sec nsec =
     (if vld AND flag \<noteq> 0
      then (if vld AND flag_now \<noteq> 0 then \<lparr>tv_sec = None, tv_nsec = UTIME_NOW\<rparr>
            else \<lparr>tv_sec = Some (ucast sec), tv_nsec = nsec\<rparr>)
      else \<lparr>tv_sec = None, tv_nsec = UTIME_OMIT\<rparr>)"

definition setattr_times :: "'fs sys \<Rightarrow> string \<Rightarrow> setattr_in \<Rightarrow> 'fs \<Rightarrow> unit result \<times> 'fs" where
  "setattr_times S path req f =
     (if valid req AND (FATTR_ATIME OR FATTR_MTIME) \<noteq> 0
      then sys_utimensat S path
             (time_arg (valid req) FATTR_ATIME FATTR_ATIME_NOW (sa_atime req) (sa_atimensec req))
             (time_arg (valid req) FATTR_MTIME FATTR_MTIME_NOW (sa_mtime req) (sa_mtimensec req)) f
      else (Inr (), f))"

definition setattr_size :: "'fs sys \<Rightarrow> string \<Rightarrow> setattr_in \<Rightarrow> 'fs \<Rightarrow> unit result \<times> 'fs" where
  "setattr_size S path req f =
     (if valid req AND FATTR_SIZE \<noteq> 0 then sys_truncate64 S path (sa_size req) f else (Inr (), f))"

definition handle_setattr ::
    "platform \<Rightarrow> 'fs sys \<Rightarrow> view \<Rightarrow> fuse_in_header \<Rightarrow> setattr_in \<Rightarrow> 'fs world \<Rightarrow> 'fs outcome" where
  "handle_setattr pf S v hdr req w = do {
     (p, path) \<leftarrow> lookup_node_and_path_by_id_locked (heap_of w) (nodeid hdr) PATH_MAX;
     if p = 0 then Some (- ENOENT, w)
     else do {
       ok \<leftarrow> (if valid req AND FATTR_FH = 0
             then check_caller_access_to_node (heap_of w) hdr p W_OK else Some True);
       if \<not> ok then Some (- EACCES, w)
       else (case setattr_size S path req (fs w) of
          (Inl e, f1) \<Rightarrow> Some (- e, w\<lparr>fs := f1\<rparr>)
        | (Inr _, f1) \<Rightarrow>
            (case setattr_times S path req f1 of
               (Inl e, f2) \<Rightarrow> Some (- e, w\<lparr>fs := f2\<rparr>)
             | (Inr _, f2) \<Rightarrow> fuse_reply_attr pf S v (unique hdr) p path (w\<lparr>fs := f2\<rparr>)))
     }
   }"

section \<open>Handlers: creating and removing\<close>

definition handle_mknod ::
    "platform \<Rightarrow> 'fs sys \<Rightarrow> view \<Rightarrow> fuse_in_header \<Rightarrow> u32 \<Rightarrow> u32 \<Rightarrow> string \<Rightarrow> 'fs world \<Rightarrow> 'fs outcome" where
  "handle_mknod pf S v hdr req_mode rdev nm w = do {
     (parent_node, parent_path) \<leftarrow> lookup_node_and_path_by_id_locked (heap_of w) (nodeid hdr) PATH_MAX;
     if parent_node = 0 then Some (- ENOENT, w)
     else (case find_file_within S parent_path nm PATH_MAX True (fs w) of
        (None, f1) \<Rightarrow> Some (- ENOENT, w\<lparr>fs := f1\<rparr>)
      | (Some (act, child_path), f1) \<Rightarrow> do {
          let w1 = w\<lparr>fs := f1\<rparr>;
          ok \<leftarrow> check_caller_access_to_name (heap_of w1) hdr parent_node nm W_OK;
          if \<not> ok then Some (- EACCES, w1)
          else (case sys_mknod S child_path ((req_mode AND NOT 0x1FF) OR 0x1B4) rdev f1 of
             (Inl e, f2) \<Rightarrow> Some (- e, w1\<lparr>fs := f2\<rparr>)
           | (Inr _, f2) \<Rightarrow>
               fuse_reply_entry pf S v (unique hdr) parent_node nm act child_path (w1\<lparr>fs := f2\<rparr>))
        })
   }"

text \<open>\<open>snprintf (nomedia, PATH_MAX, "%s/.nomedia", path)\<close> keeps at most \<open>PATH_MAX - 1\<close> characters.\<close>

definition nomedia_path :: "string \<Rightarrow> string" where
  "nomedia_path path = take (PATH_MAX - 1) (path @ ''/.nomedia'')"

definition mkdir_nomedia :: "'fs sys \<Rightarrow> fuse_global \<Rightarrow> node \<Rightarrow> string \<Rightarrow> string \<Rightarrow> 'fs \<Rightarrow> bool \<times> 'fs" where
  "mkdir_nomedia S g parent_node nm child_path f =
     (let (r1, f1) = (if perm parent_node = PERM_ANDROID \<and> strcaseeq nm ''data''
                      then touch S (nomedia_path child_path) 0x1B4 f else (0, f)) in
      if r1 \<noteq> 0 then (False, f1)
      else let (r2, f2) = (if perm parent_node = PERM_ANDROID \<and> strcaseeq nm ''obb''
                           then touch S (nomedia_path (obb_path g)) 0x1B4 f1 else (0, f1)) in
      (r2 = 0, f2))"

definition handle_mkdir ::
    "platform \<Rightarrow> 'fs sys \<Rightarrow> view \<Rightarrow> fuse_in_header \<Rightarrow> u32 \<Rightarrow> string \<Rightarrow> 'fs world \<Rightarrow> 'fs outcome" where
  "handle_mkdir pf S v hdr req_mode nm w = do {
     (parent_node, parent_path) \<leftarrow> lookup_node_and_path_by_id_locked (heap_of w) (nodeid hdr) PATH_MAX;
     if parent_node = 0 then Some (- ENOENT, w)
     else (case find_file_within S parent_path nm PATH_MAX True (fs w) of
        (None, f1) \<Rightarrow> Some (- ENOENT, w\<lparr>fs := f1\<rparr>)
      | (Some (act, child_path), f1) \<Rightarrow> do {
          let w1 = w\<lparr>fs := f1\<rparr>;
          ok \<leftarrow> check_caller_access_to_name (heap_of w1) hdr parent_node nm W_OK;
          if \<not> ok then Some (- EACCES, w1)
          else (case sys_mkdir S child_path ((req_mode AND NOT 0x1FF) OR 0x1FD) f1 of
             (Inl e, f2) \<Rightarrow> Some (- e, w1\<lparr>fs := f2\<rparr>)
           | (Inr _, f2) \<Rightarrow> do {
               pn \<leftarrow> deref (heap_of w1) parent_node;
               let r = mkdir_nomedia S (glob w1) pn nm child_path f2;
               if \<not> fst r then Some (- ENOENT, w1\<lparr>fs := snd r\<rparr>)
               else fuse_reply_entry pf S v (unique hdr) parent_node nm act child_path (w1\<lparr>fs := snd r\<rparr>)
             })
        })
   }"

text \<open>The notifications of \<open>handle_unlink\<close> and \<open>handle_rmdir\<close>: every view but the caller's.\<close>

definition notify_others :: "view \<Rightarrow> u64 \<Rightarrow> u64 \<Rightarrow> string \<Rightarrow> 'fs world \<Rightarrow> 'fs world" where
  "notify_others v par chld nm w =
     (let w1 = (if v \<noteq> FuseDefault then fuse_notify_delete FuseDefault par chld nm w else w);
          w2 = (if v \<noteq> FuseRead then fuse_notify_delete FuseRead par chld nm w1 else w1);
          w3 = (if v \<noteq> FuseWrite then fuse_notify_delete FuseWrite par chld nm w2 else w2)
      in if v \<noteq> FuseFull then fuse_notify_delete FuseFull par chld nm w3 else w3)"

definition mark_deleted :: "view \<Rightarrow> ptr \<Rightarrow> string \<Rightarrow> 'fs world \<Rightarrow> 'fs outcome" where
  "mark_deleted v parent_node nm w = do {
     child_node \<leftarrow> lookup_child_by_name_locked (heap_of w) parent_node nm;
     if child_node \<noteq> 0
     then do {
       h \<leftarrow> modify (heap_of w) child_node (\<lambda>n. n\<lparr>deleted := True\<rparr>);
       pn \<leftarrow> deref h parent_node;
       cn \<leftarrow> deref h child_node;
       Some (0, notify_others v (nid pn) (nid cn) nm (set_heap h w))
     }
     else Some (0, w)
   }"

definition handle_unlink ::
    "'fs sys \<Rightarrow> view \<Rightarrow> fuse_in_header \<Rightarrow> string \<Rightarrow> 'fs world \<Rightarrow> 'fs outcome" where
  "handle_unlink S v hdr nm w = do {
     (parent_node, parent_path) \<leftarrow> lookup_node_and_path_by_id_locked (heap_of w) (nodeid hdr) PATH_MAX;
     if parent_node = 0 then Some (- ENOENT, w)
     else (case find_file_within S parent_path nm PATH_MAX True (fs w) of
        (None, f1) \<Rightarrow> Some (- ENOENT, w\<lparr>fs := f1\<rparr>)
      | (Some (_, child_path), f1) \<Rightarrow> do {
          let w1 = w\<lparr>fs := f1\<rparr>;
          ok \<leftarrow> check_caller_access_to_name (heap_of w1) hdr parent_node nm W_OK;
          if \<not> ok then Some (- EACCES, w1)
          else (case sys_unlink S child_path f1 of
             (Inl e, f2) \<Rightarrow> Some (- e, w1\<lparr>fs := f2\<rparr>)
           | (Inr _, f2) \<Rightarrow> mark_deleted v parent_node nm (w1\<lparr>fs := f2\<rparr>))
        })
   }"

definition handle_rmdir ::
    "'fs sys \<Rightarrow> view \<Rightarrow> fuse_in_header \<Rightarrow> string \<Rightarrow> 'fs world \<Rightarrow> 'fs outcome" where
  "handle_rmdir S v hdr nm w = do {
     (parent_node, parent_path) \<leftarrow> lookup_node_and_path_by_id_locked (heap_of w) (nodeid hdr) PATH_MAX;
     if parent_node = 0 then Some (- ENOENT, w)
     else (case find_file_within S parent_path nm PATH_MAX True (fs w) of
        (None, f1) \<Rightarrow> Some (- ENOENT, w\<lparr>fs := f1\<rparr>)
      | (Some (_, child_path), f1) \<Rightarrow> do {
          let w1 = w\<lparr>fs := f1\<rparr>;
          ok \<leftarrow> check_caller_access_to_name (heap_of w1) hdr parent_node nm W_OK;
          if \<not> ok then Some (- EACCES, w1)
          else (case sys_rmdir S child_path f1 of
             (Inl e, f2) \<Rightarrow> Some (- e, w1\<lparr>fs := f2\<rparr>)
           | (Inr _, f2) \<Rightarrow> mark_deleted v parent_node nm (w1\<lparr>fs := f2\<rparr>))
        })
   }"

section \<open>Handlers: renaming\<close>

definition rename_commit ::
    "platform \<Rightarrow> ptr \<Rightarrow> ptr \<Rightarrow> string \<Rightarrow> string \<Rightarrow> 'fs world \<Rightarrow> 'fs outcome" where
  "rename_commit pf child_node new_parent_node new_name new_act w = do {
     (res, h1) \<leftarrow> rename_node_locked pf (heap_of w) child_node new_name new_act;
     h2 \<leftarrow> (if res = 0 then move_node_locked pf (glob w) h1 child_node new_parent_node else Some h1);
     Some (res, set_heap h2 w)
   }"

definition rename_release :: "ptr \<Rightarrow> int \<Rightarrow> 'fs world \<Rightarrow> 'fs outcome" where
  "rename_release child_node res w = do {
     h \<leftarrow> release_node_locked (heap_of w) child_node;
     Some (res, set_heap h w)
   }"

text \<open>\<open>handle_rename\<close> once the child is found: the second half of its first critical section, the
  system call and the second critical section.\<close>

definition rename_child ::
    "platform \<Rightarrow> 'fs sys \<Rightarrow> ptr \<Rightarrow> ptr \<Rightarrow> string \<Rightarrow> string \<Rightarrow> bool \<Rightarrow> 'fs world \<Rightarrow> 'fs outcome" where
  "rename_child pf S child_node new_parent_node new_parent_path new_name search w = do {
     r \<leftarrow> get_node_path_locked (heap_of w) child_node PATH_MAX;
     (case r of
        None \<Rightarrow> Some (- ENOENT, w)
      | Some old_child_path \<Rightarrow> do {
          h1 \<leftarrow> acquire_node_locked (heap_of w) child_node;
          let w1 = set_heap h1 w;
          (case find_file_within S new_parent_path new_name PATH_MAX search (fs w1) of
             (None, f1) \<Rightarrow> rename_release child_node (- ENOENT) (w1\<lparr>fs := f1\<rparr>)
           | (Some (new_act, new_child_path), f1) \<Rightarrow>
               (case sys_rename S old_child_path new_child_path f1 of
                  (Inl e, f2) \<Rightarrow> rename_release child_node (- e) (w1\<lparr>fs := f2\<rparr>)
                | (Inr _, f2) \<Rightarrow> do {
                    (res, w2) \<leftarrow> rename_commit pf child_node new_parent_node new_name new_act
                                   (w1\<lparr>fs := f2\<rparr>);
                    rename_release child_node res w2
                  }))
        })
   }"

definition handle_rename ::
    "platform \<Rightarrow> 'fs sys \<Rightarrow> fuse_in_header \<Rightarrow> u64 \<Rightarrow> string \<Rightarrow> string \<Rightarrow> 'fs world \<Rightarrow> 'fs outcome" where
  "handle_rename pf S hdr newdir old_name new_name w = do {
     (old_parent_node, old_parent_path) \<leftarrow>
        lookup_node_and_path_by_id_locked (heap_of w) (nodeid hdr) PATH_MAX;
     (new_parent_node, new_parent_path) \<leftarrow>
        lookup_node_and_path_by_id_locked (heap_of w) newdir PATH_MAX;
     if old_parent_node = 0 \<or> new_parent_node = 0 then Some (- ENOENT, w)
     else do {
       ok1 \<leftarrow> check_caller_access_to_name (heap_of w) hdr old_parent_node old_name W_OK;
       if \<not> ok1 then Some (- EACCES, w)
       else do {
         ok2 \<leftarrow> check_caller_access_to_name (heap_of w) hdr new_parent_node new_name W_OK;
         if \<not> ok2 then Some (- EACCES, w)
         else do {
           child_node \<leftarrow> lookup_child_by_name_locked (heap_of w) old_parent_node old_name;
           if child_node = 0 then Some (- ENOENT, w)
           else rename_child pf S child_node new_parent_node new_parent_path new_name
                  (old_parent_node \<noteq> new_parent_node \<or> \<not> strcaseeq old_name new_name) w
         }
       }
     }
   }"

section \<open>Handlers: open files and directories\<close>

definition open_flags_to_access_mode :: "u32 \<Rightarrow> int" where
  "open_flags_to_access_mode open_flags =
     (if open_flags AND 3 = 0 then R_OK
      else if open_flags AND 3 = 1 then W_OK
      else R_OK + W_OK)"

text \<open>The addresses of live handles, which an allocation avoids.\<close>

definition handle_addrs :: "'fs world \<Rightarrow> ptr set" where
  "handle_addrs w = dom (handles w) \<union> dom (dirhandles w)"

definition handle_open ::
    "'fs sys \<Rightarrow> view \<Rightarrow> fuse_in_header \<Rightarrow> u32 \<Rightarrow> 'fs world \<Rightarrow> 'fs outcome" where
  "handle_open S v hdr flags w = do {
     (p, path) \<leftarrow> lookup_node_and_path_by_id_locked (heap_of w) (nodeid hdr) PATH_MAX;
     if p = 0 then Some (- ENOENT, w)
     else do {
       ok \<leftarrow> check_caller_access_to_node (heap_of w) hdr p (open_flags_to_access_mode flags);
       if \<not> ok then Some (- EACCES, w)
       else let h = sys_malloc S (handle_addrs w) (fs w) in
       if h = 0 then Some (- ENOMEM, w)
       else (case sys_open S path flags (fs w) of
          (Inl e, f1) \<Rightarrow> Some (- e, w\<lparr>fs := f1\<rparr>)
        | (Inr fd, f1) \<Rightarrow>
            Some (NO_STATUS, fuse_reply v (unique hdr) (OpenOut (ptr_to_id h) 0) 16
                    (w\<lparr>fs := f1, handles := (handles w)(h \<mapsto> fd)\<rparr>)))
     }
   }"

definition handle_read ::
    "'fs sys \<Rightarrow> view \<Rightarrow> fuse_in_header \<Rightarrow> u64 \<Rightarrow> u32 \<Rightarrow> u64 \<Rightarrow> 'fs world \<Rightarrow> 'fs outcome" where
  "handle_read S v hdr fh sz offset w =
     (if MAX_READ < unat sz then Some (- EINVAL, w)
      else do {
        fd \<leftarrow> handles w (id_to_ptr fh);
        (case sys_pread64 S fd (unat sz) offset (fs w) of
           (Inl e, f1) \<Rightarrow> Some (- e, w\<lparr>fs := f1\<rparr>)
         | (Inr data, f1) \<Rightarrow>
             Some (NO_STATUS, fuse_reply v (unique hdr) (BytesOut data) (length data) (w\<lparr>fs := f1\<rparr>)))
      })"

text \<open>
  \<open>buffer\<close> is what follows the write header in the request buffer; the code hands the first
  \<open>req->size\<close> bytes of it to \<open>pwrite64\<close> (through an aligned copy for \<open>O_DIRECT\<close>), which faults when
  the buffer is shorter.
\<close>

definition handle_write ::
    "'fs sys \<Rightarrow> view \<Rightarrow> fuse_in_header \<Rightarrow> u64 \<Rightarrow> u32 \<Rightarrow> u64 \<Rightarrow> bytes \<Rightarrow> 'fs world \<Rightarrow> 'fs outcome" where
  "handle_write S v hdr fh sz offset buffer w =
     (if length buffer < unat sz then None
      else do {
        fd \<leftarrow> handles w (id_to_ptr fh);
        (case sys_pwrite64 S fd (take (unat sz) buffer) offset (fs w) of
           (Inl e, f1) \<Rightarrow> Some (- e, w\<lparr>fs := f1\<rparr>)
         | (Inr res, f1) \<Rightarrow>
             Some (NO_STATUS, fuse_reply v (unique hdr) (WriteOut res 0) 8 (w\<lparr>fs := f1\<rparr>)))
      })"

definition handle_statfs :: "'fs sys \<Rightarrow> view \<Rightarrow> fuse_in_header \<Rightarrow> 'fs world \<Rightarrow> 'fs outcome" where
  "handle_statfs S v hdr w = do {
     r \<leftarrow> get_node_path_locked (heap_of w) root_ptr PATH_MAX;
     (case r of
        None \<Rightarrow> Some (- ENOENT, w)
      | Some path \<Rightarrow> do {
          root \<leftarrow> deref (heap_of w) root_ptr;
          (case sys_statfs S (name root) (fs w) of
             (Inl e, f1) \<Rightarrow> Some (- e, w\<lparr>fs := f1\<rparr>)
           | (Inr st, f1) \<Rightarrow>
               Some (NO_STATUS, fuse_reply v (unique hdr) (StatfsOut st) 80 (w\<lparr>fs := f1\<rparr>)))
        })
   }"

definition handle_release :: "'fs sys \<Rightarrow> u64 \<Rightarrow> 'fs world \<Rightarrow> 'fs outcome" where
  "handle_release S fh w = do {
     fd \<leftarrow> handles w (id_to_ptr fh);
     Some (0, w\<lparr>fs := sys_close S fd (fs w), handles := (handles w)(id_to_ptr fh := None)\<rparr>)
   }"

definition fsync_fd :: "'fs sys \<Rightarrow> u32 \<Rightarrow> int \<Rightarrow> 'fs \<Rightarrow> unit result \<times> 'fs" where
  "fsync_fd S fsync_flags fd f =
     (if fsync_flags AND 1 \<noteq> 0 then sys_fdatasync S fd f else sys_fsync S fd f)"

definition handle_fsync :: "'fs sys \<Rightarrow> bool \<Rightarrow> u64 \<Rightarrow> u32 \<Rightarrow> 'fs world \<Rightarrow> 'fs outcome" where
  "handle_fsync S is_dir fh fsync_flags w = do {
     fd \<leftarrow> (if is_dir
           then map_option (\<lambda>d. sys_dirfd S d (fs w)) (dirhandles w (id_to_ptr fh))
           else handles w (id_to_ptr fh));
     (case fsync_fd S fsync_flags fd (fs w) of
        (Inl e, f1) \<Rightarrow> Some (- e, w\<lparr>fs := f1\<rparr>)
      | (Inr _, f1) \<Rightarrow> Some (0, w\<lparr>fs := f1\<rparr>))
   }"

definition handle_flush :: "'fs world \<Rightarrow> 'fs outcome" where
  "handle_flush w = Some (0, w)"

definition handle_opendir :: "'fs sys \<Rightarrow> view \<Rightarrow> fuse_in_header \<Rightarrow> 'fs world \<Rightarrow> 'fs outcome" where
  "handle_opendir S v hdr w = do {
     (p, path) \<leftarrow> lookup_node_and_path_by_id_locked (heap_of w) (nodeid hdr) PATH_MAX;
     if p = 0 then Some (- ENOENT, w)
     else do {
       ok \<leftarrow> check_caller_access_to_node (heap_of w) hdr p R_OK;
       if \<not> ok then Some (- EACCES, w)
       else let h = sys_malloc S (handle_addrs w) (fs w) in
       if h = 0 then Some (- ENOMEM, w)
       else (case sys_opendir S path (fs w) of
          (Inl e, f1) \<Rightarrow> Some (- e, w\<lparr>fs := f1\<rparr>)
        | (Inr d, f1) \<Rightarrow>
            Some (NO_STATUS, fuse_reply v (unique hdr) (OpenOut (ptr_to_id h) 0) 16
                    (w\<lparr>fs := f1, dirhandles := (dirhandles w)(h \<mapsto> d)\<rparr>)))
     }
   }"

definition handle_readdir ::
    "'fs sys \<Rightarrow> view \<Rightarrow> fuse_in_header \<Rightarrow> u64 \<Rightarrow> u64 \<Rightarrow> 'fs world \<Rightarrow> 'fs outcome" where
  "handle_readdir S v hdr fh offset w = do {
     d \<leftarrow> dirhandles w (id_to_ptr fh);
     let f1 = (if offset = 0 then sys_rewinddir S d (fs w) else fs w);
     (case sys_readdir S d f1 of
        (None, f2) \<Rightarrow> Some (0, w\<lparr>fs := f2\<rparr>)
      | (Some (d_type, d_name), f2) \<Rightarrow>
          Some (NO_STATUS, fuse_reply v (unique hdr)
                  (DirentOut FUSE_UNKNOWN_INO (offset + 1) (length d_name) d_type d_name)
                  (FUSE_DIRENT_ALIGN (sizeof_dirent + length d_name)) (w\<lparr>fs := f2\<rparr>)))
   }"

definition handle_releasedir :: "'fs sys \<Rightarrow> u64 \<Rightarrow> 'fs world \<Rightarrow> 'fs outcome" where
  "handle_releasedir S fh w = do {
     d \<leftarrow> dirhandles w (id_to_ptr fh);
     Some (0, w\<lparr>fs := sys_closedir S d (fs w), dirhandles := (dirhandles w)(id_to_ptr fh := None)\<rparr>)
   }"

text \<open>\<open>FUSE_ATOMIC_O_TRUNC | FUSE_BIG_WRITES\<close> is \<open>8 | 32\<close>; the reply has the size of the
  structure of protocol 7.22, because the kernel headers define \<open>FUSE_COMPAT_22_INIT_OUT_SIZE\<close>.\<close>

definition handle_init ::
    "view \<Rightarrow> fuse_in_header \<Rightarrow> u32 \<Rightarrow> u32 \<Rightarrow> u32 \<Rightarrow> 'fs world \<Rightarrow> 'fs outcome" where
  "handle_init v hdr major minor max_readahead w =
     (if major \<noteq> FUSE_KERNEL_VERSION \<or> minor < 6 then Some (- 1, w)
      else Some (NO_STATUS, fuse_reply v (unique hdr)
             (InitOut FUSE_KERNEL_VERSION (min minor 15) max_readahead (8 OR 32) 32 32 MAX_WRITE) 24 w))"

definition handle_canonical_path :: "view \<Rightarrow> fuse_in_header \<Rightarrow> 'fs world \<Rightarrow> 'fs outcome" where
  "handle_canonical_path v hdr w = do {
     (p, path) \<leftarrow> lookup_node_and_path_by_id_locked (heap_of w) (nodeid hdr) PATH_MAX;
     if p = 0 then Some (- ENOENT, w)
     else do {
       ok \<leftarrow> check_caller_access_to_node (heap_of w) hdr p R_OK;
       if \<not> ok then Some (- EACCES, w)
       else let len = (if length path + 1 > PATH_MAX then PATH_MAX - 1 else length path) in
            Some (NO_STATUS, fuse_reply v (unique hdr) (PathOut (take (PATH_MAX - 1) path)) (len + 1) w)
     }
   }"

section \<open>Dispatch and the request loop\<close>

text \<open>A request after its payload has been read as the structure its opcode calls for.\<close>

datatype request =
    LOOKUP string
  | FORGET u64
  | GETATTR
  | SETATTR setattr_in
  | MKNOD u32 u32 string
  | MKDIR u32 string
  | UNLINK string
  | RMDIR string
  | RENAME u64 string string
  | OPEN u32
  | READ u64 u32 u64
  | WRITE u64 u32 u64 bytes
  | STATFS
  | RELEASE u64
  | FSYNC bool u64 u32
  | FLUSH
  | OPENDIR
  | READDIR u64 u64
  | RELEASEDIR u64
  | INIT u32 u32 u32
  | CANONICAL_PATH
  | OTHER_OP u32

fun handle_fuse_request ::
    "platform \<Rightarrow> 'fs sys \<Rightarrow> view \<Rightarrow> fuse_in_header \<Rightarrow> request \<Rightarrow> 'fs world \<Rightarrow> 'fs outcome" where
  "handle_fuse_request pf S v hdr (LOOKUP nm) w = handle_lookup pf S v hdr nm w"
| "handle_fuse_request pf S v hdr (FORGET nlookup) w = handle_forget hdr nlookup w"
| "handle_fuse_request pf S v hdr GETATTR w = handle_getattr pf S v hdr w"
| "handle_fuse_request pf S v hdr (SETATTR req) w = handle_setattr pf S v hdr req w"
| "handle_fuse_request pf S v hdr (MKNOD mode rdev nm) w = handle_mknod pf S v hdr mode rdev nm w"
| "handle_fuse_request pf S v hdr (MKDIR mode nm) w = handle_mkdir pf S v hdr mode nm w"
| "handle_fuse_request pf S v hdr (UNLINK nm) w = handle_unlink S v hdr nm w"
| "handle_fuse_request pf S v hdr (RMDIR nm) w = handle_rmdir S v hdr nm w"
| "handle_fuse_request pf S v hdr (RENAME newdir old new) w = handle_rename pf S hdr newdir old new w"
| "handle_fuse_request pf S v hdr (OPEN flags) w = handle_open S v hdr flags w"
| "handle_fuse_request pf S v hdr (READ fh sz offset) w = handle_read S v hdr fh sz offset w"
| "handle_fuse_request pf S v hdr (WRITE fh sz offset buf) w = handle_write S v hdr fh sz offset buf w"
| "handle_fuse_request pf S v hdr STATFS w = handle_statfs S v hdr w"
| "handle_fuse_request pf S v hdr (RELEASE fh) w = handle_release S fh w"
| "handle_fuse_request pf S v hdr (FSYNC is_dir fh flags) w = handle_fsync S is_dir fh flags w"
| "handle_fuse_request pf S v hdr FLUSH w = handle_flush w"
| "handle_fuse_request pf S v hdr OPENDIR w = handle_opendir S v hdr w"
| "handle_fuse_request pf S v hdr (READDIR fh offset) w = handle_readdir S v hdr fh offset w"
| "handle_fuse_request pf S v hdr (RELEASEDIR fh) w = handle_releasedir S fh w"
| "handle_fuse_request pf S v hdr (INIT major minor ra) w = handle_init v hdr major minor ra w"
| "handle_fuse_request pf S v hdr CANONICAL_PATH w = handle_canonical_path v hdr w"
| "handle_fuse_request pf S v hdr (OTHER_OP code) w = Some (- ENOSYS, w)"

text \<open>What \<open>read\<close> on the FUSE device returns: an error, or a number of bytes and the request in them.\<close>

datatype fuse_read = ReadError int | ReadMsg nat fuse_in_header request

datatype loop_end = Running | Exited

text \<open>One turn of \<open>handle_fuse_requests\<close>.\<close>

fun handle_one ::
    "platform \<Rightarrow> 'fs sys \<Rightarrow> view \<Rightarrow> fuse_read \<Rightarrow> 'fs world \<Rightarrow> (loop_end \<times> 'fs world) option" where
  "handle_one pf S v (ReadError e) w = Some (if e = ENODEV then Exited else Running, w)"
| "handle_one pf S v (ReadMsg len hdr req) w =
     (if len < sizeof_in_header then Some (Running, w)
      else if hdr_len hdr \<noteq> len then Some (Running, w)
      else do {
        (res, w1) \<leftarrow> handle_fuse_request pf S v hdr req w;
        Some (Running, if res \<noteq> NO_STATUS then fuse_status v (unique hdr) res w1 else w1)
      })"

text \<open>The loop over what the device delivers, request by request, until the device is gone.\<close>

fun handle_fuse_requests ::
    "platform \<Rightarrow> 'fs sys \<Rightarrow> view \<Rightarrow> fuse_read list \<Rightarrow> 'fs world \<Rightarrow> (loop_end \<times> 'fs world) option" where
  "handle_fuse_requests pf S v [] w = Some (Running, w)"
| "handle_fuse_requests pf S v (r # rs) w = do {
     (e, w1) \<leftarrow> handle_one pf S v r w;
     if e = Exited then Some (Exited, w1) else handle_fuse_requests pf S v rs w1
   }"

end
