(* ===== verification/Fuse_Reply.thy ===== *)
theory Fuse_Reply
  imports Fuse_Handlers
begin

text \<open>
  The reply discipline of the daemon: every request but \<open>FUSE_FORGET\<close> is answered on its own
  view exactly once, with the request's \<open>unique\<close> value, whatever branch its handler takes.
\<close>

section \<open>Errors of the calls underneath\<close>

text \<open>System calls report positive error numbers, as \<open>errno(3)\<close> documents.\<close>

definition errs_pos :: "('fs \<Rightarrow> 'a result \<times> 'fs) \<Rightarrow> bool" where
  "errs_pos call \<longleftrightarrow> (\<forall>f e f'. call f = (Inl e, f') \<longrightarrow> 0 < e)"

definition errno_pos :: "'fs sys \<Rightarrow> bool" where
  "errno_pos S \<longleftrightarrow>
     (\<forall>p. errs_pos (sys_lstat S p)) \<and> (\<forall>p z. errs_pos (sys_truncate64 S p z)) \<and>
     (\<forall>p a b. errs_pos (sys_utimensat S p a b)) \<and> (\<forall>p m d. errs_pos (sys_mknod S p m d)) \<and>
     (\<forall>p m. errs_pos (sys_mkdir S p m)) \<and> (\<forall>p. errs_pos (sys_unlink S p)) \<and>
     (\<forall>p. errs_pos (sys_rmdir S p)) \<and> (\<forall>p q. errs_pos (sys_rename S p q)) \<and>
     (\<forall>p m. errs_pos (sys_open S p m)) \<and> (\<forall>i n z. errs_pos (sys_pread64 S i n z)) \<and>
     (\<forall>i b z. errs_pos (sys_pwrite64 S i b z)) \<and> (\<forall>p. errs_pos (sys_statfs S p)) \<and>
     (\<forall>i. errs_pos (sys_fsync S i)) \<and> (\<forall>i. errs_pos (sys_fdatasync S i)) \<and>
     (\<forall>p. errs_pos (sys_opendir S p))"

lemma errs_posD: "errs_pos call \<Longrightarrow> call f = (Inl e, f') \<Longrightarrow> 0 < e"
  by (auto simp: errs_pos_def)

lemma errno_posD:
  assumes "errno_pos S"
  shows "errs_pos (sys_lstat S p)" "errs_pos (sys_truncate64 S p z)" "errs_pos (sys_utimensat S p a b)"
    "errs_pos (sys_mknod S p m d)" "errs_pos (sys_mkdir S p m)" "errs_pos (sys_unlink S p)"
    "errs_pos (sys_rmdir S p)" "errs_pos (sys_rename S p q)" "errs_pos (sys_open S p m)"
    "errs_pos (sys_pread64 S i n z)" "errs_pos (sys_pwrite64 S i bs z)" "errs_pos (sys_statfs S p)"
    "errs_pos (sys_fsync S i)" "errs_pos (sys_fdatasync S i)" "errs_pos (sys_opendir S p)"
  using assms by (simp_all add: errno_pos_def)

section \<open>Answers\<close>

definition answered :: "view \<Rightarrow> u64 \<Rightarrow> int \<Rightarrow> 'fs world \<Rightarrow> 'fs world \<Rightarrow> bool" where
  "answered v uq res w w' \<longleftrightarrow>
     (\<exists>ms. outbox w' = outbox w @ ms \<and>
        (if res = NO_STATUS
         then \<exists>m. filter (\<lambda>x. fst x = v) ms = [(v, m)] \<and> out_unique m = uq \<and> out_error m = 0
         else filter (\<lambda>x. fst x = v) ms = []))"

lemma answered_error: "outbox w' = outbox w \<Longrightarrow> res \<noteq> NO_STATUS \<Longrightarrow> answered v uq res w w'"
  by (simp add: answered_def)

lemma answered_reply:
  "outbox w' = outbox w \<Longrightarrow> answered v uq NO_STATUS w (fuse_reply v uq d l w')"
  by (simp add: answered_def fuse_reply_def emit_def)

lemma answered_start: "answered v uq res w1 w' \<Longrightarrow> outbox w1 = outbox w \<Longrightarrow> answered v uq res w w'"
  by (simp add: answered_def)

lemma set_heap_outbox [simp]: "outbox (set_heap h w) = outbox w"
  by (simp add: set_heap_def)

lemma set_heap_simps [simp]:
  "nodes (glob (set_heap h w)) = h" "fs (set_heap h w) = fs w" "heap_of (set_heap h w) = h"
  by (simp_all add: set_heap_def heap_of_def)

lemmas handler_splits = if_splits prod.splits option.splits sum.splits

abbreviation answers :: "view \<Rightarrow> u64 \<Rightarrow> 'fs world \<Rightarrow> 'fs outcome \<Rightarrow> bool" where
  "answers v uq w \<equiv> holds (\<lambda>r. answered v uq (fst r) w (snd r))"

lemma answers_reply_entry:
  assumes "errno_pos S" "outbox w1 = outbox w"
  shows "answers v uq w (fuse_reply_entry pf S v uq par nm act path w1)"
  using assms(2) unfolding fuse_reply_entry_def
  by (simp add: wp_simps Let_def cong: wp_congs) (auto split: prod.split sum.split
      intro!: holdsI answered_error answered_reply dest!: errs_posD [OF errno_posD(1) [OF assms(1)]])

lemma answers_reply_attr:
  assumes "errno_pos S" "outbox w1 = outbox w"
  shows "answers v uq w (fuse_reply_attr pf S v uq p path w1)"
  using assms(2) unfolding fuse_reply_attr_def
  by (simp add: wp_simps Let_def cong: wp_congs) (auto split: prod.split sum.split
      intro!: holdsI answered_error answered_reply dest!: errs_posD [OF errno_posD(1) [OF assms(1)]])

text \<open>The notifications of a removal go to the other three views.\<close>

lemma notify_others_outbox:
  "outbox (notify_others v p c nm w) = outbox w @ map (\<lambda>u.
     (u, \<lparr>out_len = sizeof_out_header + sizeof_notify_delete_out + length nm + 1,
          out_error = FUSE_NOTIFY_DELETE, out_unique = 0, out_data = NotifyDeleteOut p c (length nm) nm\<rparr>))
     (filter (\<lambda>u. u \<noteq> v) [FuseDefault, FuseRead, FuseWrite, FuseFull])"
  by (cases v) (simp_all add: notify_others_def fuse_notify_delete_def emit_def)

lemma answers_mark_deleted:
  assumes "outbox w1 = outbox w"
  shows "answers v uq w (mark_deleted v par nm w1)"
proof -
  have "answered v uq 0 w (notify_others v a b nm (set_heap h w1))" for a b h
    using assms by (auto simp: answered_def notify_others_outbox filter_map comp_def)
  with assms show ?thesis unfolding mark_deleted_def
    by (simp add: wp_simps) (auto intro!: holdsI answered_error)
qed

text \<open>\<open>handle_rename\<close> writes nothing and never returns \<open>NO_STATUS\<close>.\<close>

lemma answers_rename_release:
  "outbox w1 = outbox w \<Longrightarrow> res \<noteq> NO_STATUS \<Longrightarrow> answers v uq w (rename_release c res w1)"
  unfolding rename_release_def by (simp add: wp_simps) (auto intro!: holdsI answered_error)

lemma rename_commit_outbox:
  "rename_commit pf c np nm act w = Some (res, w') \<Longrightarrow> outbox w' = outbox w \<and> res \<noteq> NO_STATUS"
  by (auto simp: rename_commit_def rename_node_locked_def rename_node_def Let_def fault_simps
      split: if_splits prod.splits)

lemma derived_calls_pos:
  assumes "errno_pos S"
  shows "errs_pos (setattr_size S path req)" "errs_pos (setattr_times S path req)"
    "errs_pos (fsync_fd S fl fd)"
  using errno_posD [OF assms]
  by (auto simp: setattr_size_def setattr_times_def fsync_fd_def errs_pos_def)

section \<open>The handlers\<close>

text \<open>The calls of a handler that write nothing: their result is arbitrary.\<close>

lemmas step_holds =
  holdsI [where m = "lookup_node_and_path_by_id_locked h i b" for h i b]
  holdsI [where m = "check_caller_access_to_name h hd p nm m" for h hd p nm m]
  holdsI [where m = "check_caller_access_to_node h hd p m" for h hd p m]
  holdsI [where m = "lookup_child_by_name_locked h p nm" for h p nm]
  holdsI [where m = "get_node_path_locked h p b" for h p b]
  holdsI [where m = "acquire_node_locked h p" for h p]
  holdsI [where m = "rename_commit pf c p nm a w" for pf c p nm a w]
  holdsI [where m = "deref h p" for h p] holdsI [where m = "handles w p" for w p]
  holdsI [where m = "dirhandles w p" for w p] holdsI [where m = "map_option f x" for f x]

text \<open>
  Every handler walks through its guards: an error branch leaves the outbox alone, a reply
  branch appends the one reply.
\<close>

lemmas call_pos = errno_posD [THEN errs_posD]

lemmas derived_pos = derived_calls_pos [THEN errs_posD]

lemmas answers_intros = step_holds answered_error answered_reply
  answers_reply_entry answers_reply_attr answers_mark_deleted answers_rename_release

lemma answers_lookup:
  assumes S: "errno_pos S"
  shows "answers v (unique hdr) w (handle_lookup pf S v hdr nm w)"
  unfolding handle_lookup_def
  by (simp add: wp_simps Let_def cong: wp_congs) (auto split: prod.split option.split intro!: answers_intros S)

lemma answers_getattr:
  assumes S: "errno_pos S"
  shows "answers v (unique hdr) w (handle_getattr pf S v hdr w)"
  unfolding handle_getattr_def
  by (simp add: wp_simps Let_def cong: wp_congs) (auto intro!: answers_intros S)

lemma answers_setattr:
  assumes S: "errno_pos S"
  shows "answers v (unique hdr) w (handle_setattr pf S v hdr req w)"
  unfolding handle_setattr_def
  by (simp add: wp_simps Let_def cong: wp_congs)
    (auto split: prod.split sum.split intro!: answers_intros S dest!: derived_pos [OF S])

lemma answers_mknod:
  assumes S: "errno_pos S"
  shows "answers v (unique hdr) w (handle_mknod pf S v hdr m d nm w)"
  unfolding handle_mknod_def
  by (simp add: wp_simps Let_def cong: wp_congs)
    (auto split: prod.split option.split sum.split intro!: answers_intros S dest!: call_pos(4) [OF S])

lemma answers_mkdir:
  assumes S: "errno_pos S"
  shows "answers v (unique hdr) w (handle_mkdir pf S v hdr m nm w)"
  unfolding handle_mkdir_def
  by (simp add: wp_simps Let_def cong: wp_congs)
    (auto split: prod.split option.split sum.split intro!: answers_intros S dest!: call_pos(5) [OF S])

lemma answers_unlink:
  assumes S: "errno_pos S"
  shows "answers v (unique hdr) w (handle_unlink S v hdr nm w)"
  unfolding handle_unlink_def
  by (simp add: wp_simps Let_def cong: wp_congs)
    (auto split: prod.split option.split sum.split intro!: answers_intros S dest!: call_pos(6) [OF S])

lemma answers_rmdir:
  assumes S: "errno_pos S"
  shows "answers v (unique hdr) w (handle_rmdir S v hdr nm w)"
  unfolding handle_rmdir_def
  by (simp add: wp_simps Let_def cong: wp_congs)
    (auto split: prod.split option.split sum.split intro!: answers_intros S dest!: call_pos(7) [OF S])

lemma answers_rename:
  assumes S: "errno_pos S"
  shows "answers v (unique hdr) w (handle_rename pf S hdr nd old new w)"
  unfolding handle_rename_def rename_child_def
  by (simp add: wp_simps Let_def cong: wp_congs)
    (auto split: prod.split option.split sum.split intro!: answers_intros S
      dest!: call_pos(8) [OF S] rename_commit_outbox)

lemma answers_open:
  assumes S: "errno_pos S"
  shows "answers v (unique hdr) w (handle_open S v hdr fl w)"
  unfolding handle_open_def
  by (simp add: wp_simps Let_def cong: wp_congs)
    (auto split: prod.split option.split sum.split intro!: answers_intros S dest!: call_pos(9) [OF S])

lemma answers_read:
  assumes S: "errno_pos S"
  shows "answers v (unique hdr) w (handle_read S v hdr fh sz off w)"
  unfolding handle_read_def
  by (simp add: wp_simps Let_def cong: wp_congs)
    (auto split: prod.split sum.split intro!: answers_intros S dest!: call_pos(10) [OF S])

lemma answers_write:
  assumes S: "errno_pos S"
  shows "answers v (unique hdr) w (handle_write S v hdr fh sz off buf w)"
  unfolding handle_write_def
  by (simp add: wp_simps Let_def cong: wp_congs)
    (auto split: prod.split sum.split intro!: answers_intros S dest!: call_pos(11) [OF S])

lemma answers_statfs:
  assumes S: "errno_pos S"
  shows "answers v (unique hdr) w (handle_statfs S v hdr w)"
  unfolding handle_statfs_def
  by (simp add: wp_simps Let_def cong: wp_congs)
    (auto split: prod.split option.split sum.split intro!: answers_intros S dest!: call_pos(12) [OF S])

lemma answers_fsync:
  assumes S: "errno_pos S"
  shows "answers v (unique hdr) w (handle_fsync S isd fh fl w)"
  unfolding handle_fsync_def
  by (simp add: wp_simps Let_def cong: wp_congs)
    (auto split: prod.split option.split sum.split intro!: answers_intros S dest!: derived_pos [OF S])

lemma answers_opendir:
  assumes S: "errno_pos S"
  shows "answers v (unique hdr) w (handle_opendir S v hdr w)"
  unfolding handle_opendir_def
  by (simp add: wp_simps Let_def cong: wp_congs)
    (auto split: prod.split option.split sum.split intro!: answers_intros S dest!: call_pos(15) [OF S])

lemma answers_readdir:
  assumes S: "errno_pos S"
  shows "answers v (unique hdr) w (handle_readdir S v hdr fh off w)"
  unfolding handle_readdir_def
  by (simp add: wp_simps Let_def cong: wp_congs)
    (auto split: prod.split option.split intro!: answers_intros S)

lemma answers_releases:
  "answers v (unique hdr) w (handle_release S fh w)"
  "answers v (unique hdr) w (handle_releasedir S fh w)"
  "answers v (unique hdr) w (handle_flush w)"
  "answers v (unique hdr) w (handle_init v hdr mj mn ra w)"
  "answers v (unique hdr) w (handle_canonical_path v hdr w)"
  unfolding handle_release_def handle_releasedir_def handle_flush_def handle_init_def
    handle_canonical_path_def
  by (simp_all add: wp_simps Let_def cong: wp_congs) (auto intro!: answers_intros)

lemmas handler_answers = answers_lookup answers_getattr answers_setattr answers_mknod answers_mkdir
  answers_unlink answers_rmdir answers_rename answers_open answers_read answers_write answers_statfs
  answers_fsync answers_opendir answers_readdir answers_releases

lemma answers_request:
  assumes "errno_pos S" "\<forall>n. req \<noteq> FORGET n"
  shows "answers v (unique hdr) w (handle_fuse_request pf S v hdr req w)"
  using assms by (cases req) (simp_all add: handler_answers wp_simps answered_error)

lemma forget_outbox: "handle_forget hdr n w = Some (res, w') \<Longrightarrow> res = NO_STATUS \<and> outbox w' = outbox w"
  by (auto simp: handle_forget_def Let_def fault_simps split: if_splits)

end
