(* ===== verification/Fuse_Daemon.thy ===== *)
theory Fuse_Daemon
  imports Fuse_Path Fuse_Reply
begin

text \<open>
  The daemon against the kernel: for every request the kernel may send, the handler returns (no
  memory fault, no endless loop), and the state keeps its invariant with the kernel's references
  counted from the messages: an entry reply gives the kernel one reference on the node it names,
  \<open>FUSE_FORGET\<close> takes back as many as it says.
\<close>

section \<open>References the kernel holds\<close>

definition entry_for :: "ptr \<Rightarrow> view \<times> fuse_out \<Rightarrow> bool" where
  "entry_for p m \<longleftrightarrow> (case out_data (snd m) of
     EntryOut i gn ev av at \<Rightarrow> lookup_node_by_id_locked i = p | _ \<Rightarrow> False)"

definition entries :: "(view \<times> fuse_out) list \<Rightarrow> ptr \<Rightarrow> nat" where
  "entries ms p = length (filter (entry_for p) ms)"

definition winv :: "platform \<Rightarrow> (ptr \<Rightarrow> nat) \<Rightarrow> 'fs world \<Rightarrow> bool" where
  "winv pf K w \<longleftrightarrow> ginv pf K (glob w) \<and> names (heap_of w)"

definition held :: "(ptr \<Rightarrow> nat) \<Rightarrow> u64 \<Rightarrow> bool" where
  "held K i \<longleftrightarrow> 0 < K (lookup_node_by_id_locked i)"

text \<open>
  What the kernel keeps to: it names nodes it holds a reference on, open handles, forgets no more
  than it was given, sends as many bytes as it announces, and never moves a directory that the daemon knows below itself (the old
  name of a rename may be unknown to the daemon).
\<close>

fun valid_req :: "(ptr \<Rightarrow> nat) \<Rightarrow> 'fs world \<Rightarrow> fuse_in_header \<Rightarrow> request \<Rightarrow> bool" where
  "valid_req K w hdr (FORGET n) \<longleftrightarrow>
     unat n + (if lookup_node_by_id_locked (nodeid hdr) = root_ptr then 2 else 0)
       \<le> K (lookup_node_by_id_locked (nodeid hdr))"
| "valid_req K w hdr (RENAME newdir old new) \<longleftrightarrow> held K (nodeid hdr) \<and> held K newdir \<and>
     (\<forall>c. lookup_child_by_name_locked (heap_of w) (lookup_node_by_id_locked (nodeid hdr)) old = Some c \<longrightarrow> c \<noteq> 0 \<longrightarrow>
        (c, lookup_node_by_id_locked newdir) \<notin> (prel {} (heap_of w))\<^sup>*)"
| "valid_req K w hdr (READ fh sz offset) \<longleftrightarrow> handles w (id_to_ptr fh) \<noteq> None"
| "valid_req K w hdr (WRITE fh sz offset buf) \<longleftrightarrow>
     handles w (id_to_ptr fh) \<noteq> None \<and> unat sz \<le> length buf"
| "valid_req K w hdr (RELEASE fh) \<longleftrightarrow> handles w (id_to_ptr fh) \<noteq> None"
| "valid_req K w hdr (FSYNC is_dir fh fl) \<longleftrightarrow>
     (if is_dir then dirhandles w (id_to_ptr fh) \<noteq> None else handles w (id_to_ptr fh) \<noteq> None)"
| "valid_req K w hdr (READDIR fh offset) \<longleftrightarrow> dirhandles w (id_to_ptr fh) \<noteq> None"
| "valid_req K w hdr (RELEASEDIR fh) \<longleftrightarrow> dirhandles w (id_to_ptr fh) \<noteq> None"
| "valid_req K w hdr STATFS \<longleftrightarrow> True"
| "valid_req K w hdr FLUSH \<longleftrightarrow> True"
| "valid_req K w hdr (INIT mj mn ra) \<longleftrightarrow> True"
| "valid_req K w hdr (OTHER_OP c) \<longleftrightarrow> True"
| "valid_req K w hdr _ \<longleftrightarrow> held K (nodeid hdr)"

definition forgets :: "fuse_in_header \<Rightarrow> request \<Rightarrow> ptr \<Rightarrow> nat" where
  "forgets hdr req p = (case req of
     FORGET n \<Rightarrow> if p = lookup_node_by_id_locked (nodeid hdr) then unat n else 0 | _ \<Rightarrow> 0)"

text \<open>The postcondition of a handler that does not forget.\<close>

definition served :: "platform \<Rightarrow> (ptr \<Rightarrow> nat) \<Rightarrow> 'fs world \<Rightarrow> int \<times> 'fs world \<Rightarrow> bool" where
  "served pf K w r \<longleftrightarrow> (\<exists>ms. outbox (snd r) = outbox w @ ms \<and>
     winv pf (\<lambda>p. K p + entries ms p) (snd r))"

abbreviation serves :: "platform \<Rightarrow> (ptr \<Rightarrow> nat) \<Rightarrow> 'fs world \<Rightarrow> 'fs outcome \<Rightarrow> bool" where
  "serves pf K w \<equiv> ensures (served pf K w)"

lemma entries_Nil [simp]: "entries [] = (\<lambda>p. 0)"
  by (simp add: entries_def fun_eq_iff)

lemma winvD:
  assumes "winv pf K w"
  shows "ginv pf K (glob w)" "names (heap_of w)" "shape {} (heap_of w)" "counts {} K (heap_of w)"
  using assms ginvD by (auto simp: winv_def heap_of_def)

lemma held_live:
  assumes "winv pf K w" "held K i"
  shows "heap_of w (lookup_node_by_id_locked i) \<noteq> None"
  using counts_held [OF winvD(4) [OF assms(1)]] assms(2) by (auto simp: held_def)

lemma winv_cong: "glob w' = glob w \<Longrightarrow> winv pf K w' = winv pf K w"
  by (simp add: winv_def heap_of_def)

text \<open>Steps that touch neither the nodes nor the entries.\<close>

lemma served_same:
  assumes "winv pf K w" "glob (snd r) = glob w" "outbox (snd r) = outbox w"
  shows "served pf K w r"
  using assms winv_cong [of "snd r" w] by (auto simp: served_def intro!: exI [of _ "[]"])

lemma served_errors:
  assumes "winv pf K w" "glob w1 = glob w" "outbox w1 = outbox w"
  shows "served pf K w (res, w)" "served pf K w (res, w1\<lparr>fs := f\<rparr>)"
    "served pf K w (res, w1\<lparr>fs := f, handles := hs\<rparr>)" "served pf K w (res, w1\<lparr>fs := f, dirhandles := hs\<rparr>)"
  using assms by (simp_all add: served_same)

lemma served_reply:
  assumes "winv pf K w" "glob w1 = glob w" "outbox w1 = outbox w" "\<And>p. \<not> entry_for p (v, m)"
  shows "served pf K w (res, emit v m w1)"
  using assms winv_cong [of "emit v m w1" w]
  by (auto simp: served_def emit_def entries_def intro!: exI [of _ "[(v, m)]"])

section \<open>What the handlers call\<close>

lemma id_ptr_id [simp]: "id_to_ptr (ptr_to_id p) = p"
  unfolding id_to_ptr_def ptr_to_id_def by (rule bit_word_eqI) (simp add: bit_simps)

lemma lookup_own_id:
  assumes "p \<noteq> 1" shows "lookup_node_by_id_locked (ptr_to_id p) = p"
proof -
  have "ptr_to_id p \<noteq> 1" using assms by (metis id_ptr_id id_to_ptr_def unsigned_1)
  then show ?thesis by (simp add: lookup_node_by_id_locked_def)
qed

lemma deref_live: "shape {} h \<Longrightarrow> h p = Some n \<Longrightarrow> deref h p = Some n"
  by (auto simp: deref_def shape_def)

lemma find_file_within_name:
  assumes "find_file_within S path nm b search f = (Some (act, cpath), f')"
  shows "length act = length nm" "strcaseeq act nm" "cpath = path @ ''/'' @ act" "length cpath < b"
proof -
  have d: "take (length nm) d = d \<and> strcaseeq d nm \<and> length d = length nm"
    if "find (\<lambda>d. strcaseeq d nm) es = Some d" for es d
  proof -
    have "strcaseeq d nm" using that by (auto simp: find_Some_iff)
    then show ?thesis by (simp add: strcaseeq_length)
  qed
  show "length act = length nm" "strcaseeq act nm" "cpath = path @ ''/'' @ act" "length cpath < b"
    using assms unfolding find_file_within_def
    by (auto simp: Let_def d split: if_splits prod.splits bool.splits option.splits)
qed

lemma find_file_within_len:
  "fst (find_file_within S path nm b search f) = Some (act, cpath) \<Longrightarrow> length act = length nm"
  by (rule find_file_within_name(1)) (simp add: prod_eq_iff)

lemma access_name_total:
  assumes "shape {} h" "p = 0 \<or> h p \<noteq> None"
  shows "\<exists>b. check_caller_access_to_name h hdr p nm m = Some b"
  using assms unfolding check_caller_access_to_name_def
  by (cases "h p") (auto simp: deref_def shape_def)

lemma access_node_total:
  assumes sh: "shape {} h" and p: "h p \<noteq> None"
  shows "\<exists>b. check_caller_access_to_node h hdr p m = Some b"
proof -
  obtain n where n: "h p = Some n" using p by blast
  have "p \<noteq> 0" using n sh by (auto simp: shape_def)
  moreover have "parent n = 0 \<or> h (parent n) \<noteq> None"
    using sh n shape_root [OF sh] by (cases "p = root_ptr") (auto simp: shape_def)
  ultimately show ?thesis
    using n access_name_total [OF sh] by (simp add: check_caller_access_to_node_def deref_def)
qed

lemma acquire_or_create_ginv:
  assumes g: "ginv pf K g" and par: "nodes g par = Some pn" and rm: "room 2 (nodes g)"
    and al: "alloc_fresh pf"
  obtains p g' where "acquire_or_create_child_locked pf g par nm act = Some (p, g')"
    "p = 0 \<Longrightarrow> g' = g"
    "p \<noteq> 0 \<Longrightarrow> ginv pf (K(p := K p + 1)) g' \<and>
       (\<exists>n. nodes g' p = Some n \<and> name n = nm \<and> \<not> deleted n \<and> parent n = par \<and> nid n = ptr_to_id p \<and> p \<noteq> 1)"
proof -
  have parz: "par \<noteq> 0" using par ginvD(1) [OF g] by (auto simp: shape_def)
  have nr: "p \<noteq> root_ptr" if "nodes g' p = Some n" "parent n = par" "ginv pf K' g'" for p n g' K'
    using that shape_root [OF ginvD(1) [OF that(3)]] parz by auto
  have id: "nid n = ptr_to_id p \<and> p \<noteq> 1" if "nodes g' p = Some n" "parent n = par" "ginv pf K' g'" for p n g' K'
    using that(1) nr [OF that] ginvD(4,6) [OF that(3)] unfolding ids_ok_def by (metis option.distinct(1))
  obtain c where c: "lookup_child_by_name_locked (nodes g) par nm = Some c"
    "c \<noteq> 0 \<Longrightarrow> c \<in> kids {} (nodes g) par \<and> live_named (nodes g) nm c"
    using lookup_child_ok [OF ginvD(1) [OF g], of par nm] par by (metis option.distinct(1))
  show thesis
  proof (cases "c = 0")
    case True
    obtain p g' where p: "create_node_locked pf g par nm act = Some (p, g')" "p = 0 \<Longrightarrow> g' = g"
      "p \<noteq> 0 \<Longrightarrow> ginv pf (K(p := K p + 1)) g' \<and> nodes g p = None \<and>
       (\<exists>n. nodes g' p = Some n \<and> name n = nm \<and> \<not> deleted n \<and> parent n = par \<and> ino n = inode_ctr g)"
      using create_ginv [OF g par rm al] by blast
    then show thesis using c(1) True id
      by (intro that [of p g']) (auto simp: acquire_or_create_child_locked_def)
  next
    case False
    then obtain n where n: "nodes g c = Some n" "parent n = par" "name n = nm" "\<not> deleted n"
      using c(2) by (auto simp: kids_def live_named_def)
    obtain h where h: "acquire_node_locked (nodes g) c = Some h" "ginv pf (K(c := K c + 1)) (g\<lparr>nodes := h\<rparr>)"
      using acquire_ginv [OF g n(1) rm] by blast
    have "h c = Some (n\<lparr>refcount := refcount n + 1\<rparr>)"
      using h(1) n(1) False by (auto simp: acquire_node_locked_def modify_def deref_def)
    then show thesis using c(1) h False n id [OF n(1,2) g]
      by (intro that [of c "g\<lparr>nodes := h\<rparr>"]) (auto simp: acquire_or_create_child_locked_def)
  qed
qed

text \<open>An entry reply hands the kernel the reference the handler took.\<close>

lemma serves_reply_entry:
  assumes w: "winv pf K w" and w1: "glob w1 = glob w" "outbox w1 = outbox w"
    and par: "heap_of w par \<noteq> None" and rm: "room 2 (heap_of w)" and al: "alloc_fresh pf"
    and len: "length act = length nm"
  shows "serves pf K w (fuse_reply_entry pf S v uq par nm act path w1)"
proof -
  obtain pn where pn: "nodes (glob w) par = Some pn" using par by (auto simp: heap_of_def)
  obtain p g' where p: "acquire_or_create_child_locked pf (glob w) par nm act = Some (p, g')"
    "p = 0 \<Longrightarrow> g' = glob w"
    "p \<noteq> 0 \<Longrightarrow> ginv pf (K(p := K p + 1)) g' \<and>
       (\<exists>n. nodes g' p = Some n \<and> name n = nm \<and> \<not> deleted n \<and> parent n = par \<and> nid n = ptr_to_id p \<and> p \<noteq> 1)"
    using acquire_or_create_ginv [OF winvD(1) [OF w] pn _ al] rm unfolding heap_of_def by blast
  have nm: "names (nodes g')"
    using names_acquire_or_create [OF p(1) _ len] winvD(2) [OF w] by (simp add: heap_of_def)
  show ?thesis
  proof (cases "sys_lstat S path (fs w1)")
    case (Pair r f1)
    show ?thesis
    proof (cases "r = Inr (projr r) \<and> p \<noteq> 0")
      case False
      then have "(\<exists>e. r = Inl e) \<or> p = 0" by (cases r) auto
      then show ?thesis using Pair p(1,2) w1 w unfolding fuse_reply_entry_def
        by (cases r) (auto simp: wp_simps intro!: served_same)
    next
      case True
      then obtain st where st: "r = Inr st" by blast
      obtain n where n: "nodes g' p = Some n" "nid n = ptr_to_id p" "p \<noteq> 1" "ginv pf (K(p := K p + 1)) g'"
        using p(3) True by blast
      let ?m = "(v, \<lparr>out_len = 128 + sizeof_out_header, out_error = 0, out_unique = uq,
        out_data = EntryOut (nid n) (gen n) 10 10 (attr_from_stat pf (mounts g' v) st n)\<rparr>)"
      have "(\<lambda>q. K q + entries [?m] q) = K(p := K p + 1)"
        using lookup_own_id [OF n(3)] n(2) by (auto simp: entries_def entry_for_def)
      then show ?thesis using Pair st p(1) True n w1 nm unfolding fuse_reply_entry_def
        by (auto simp: wp_simps deref_def Let_def fuse_reply_def emit_def served_def winv_def heap_of_def
            intro!: exI [of _ "[?m]"])
    qed
  qed
qed

lemma serves_reply_attr:
  assumes w: "winv pf K w" and w1: "glob w1 = glob w" "outbox w1 = outbox w" and p: "heap_of w p \<noteq> None"
  shows "serves pf K w (fuse_reply_attr pf S v uq p path w1)"
proof -
  have "heap_of w1 = heap_of w" using w1(1) by (simp add: heap_of_def)
  then obtain n where n: "deref (heap_of w1) p = Some n"
    using p deref_live [OF winvD(3) [OF w]] by auto
  show ?thesis unfolding fuse_reply_attr_def
    by (simp add: wp_simps n cong: wp_congs)
      (auto split: prod.split sum.split intro!: served_errors [OF w] served_reply [OF w]
       simp: w1 fuse_reply_def entry_for_def)
qed

text \<open>The shape of a handler that works on a node: look the node up, then go on with its path.\<close>

lemma with_path:
  assumes w: "winv pf K w" and i: "held K i"
    and none: "Q (0, [])"
    and some: "\<And>s. path_of (heap_of w) (lookup_node_by_id_locked i) s \<Longrightarrow>
      Q (lookup_node_by_id_locked i, s)"
  shows "ensures Q (lookup_node_and_path_by_id_locked (heap_of w) i b)"
proof -
  obtain s where "path_of (heap_of w) (lookup_node_by_id_locked i) s"
    "lookup_node_and_path_by_id_locked (heap_of w) i b =
       Some (if length s < b then (lookup_node_by_id_locked i, s) else (0, []))"
    using lookup_path_total [OF winvD(3,2) [OF w] held_live [OF w i]] by blast
  then show ?thesis using none some by (auto intro!: ensuresI)
qed

lemma ensures_access_name:
  assumes "shape {} h" "p = 0 \<or> h p \<noteq> None" "\<And>b. Q b"
  shows "ensures Q (check_caller_access_to_name h hdr p nm m)"
  using access_name_total [OF assms(1,2), of hdr nm m] assms(3) by (auto simp: ensures_def)

lemma ensures_access_node:
  assumes "shape {} h" "h p \<noteq> None" "\<And>b. Q b"
  shows "ensures Q (check_caller_access_to_node h hdr p m)"
  using access_node_total [OF assms(1,2), of hdr m] assms(3) by (auto simp: ensures_def)

lemma heap_of_fs [simp]: "heap_of (w\<lparr>fs := f\<rparr>) = heap_of w"
  by (simp add: heap_of_def)

section \<open>Handlers that keep the nodes\<close>

lemma serves_getattr:
  assumes w: "winv pf K w" and i: "held K (nodeid hdr)"
  shows "serves pf K w (handle_getattr pf S v hdr w)"
  unfolding handle_getattr_def
  by (simp only: wp_simps case_prod_unfold, rule with_path [OF w i])
    (auto intro!: served_errors [OF w] ensures_access_node serves_reply_attr [OF w] winvD(3) [OF w]
      held_live [OF w i] simp: wp_simps)

lemma serves_setattr:
  assumes w: "winv pf K w" and i: "held K (nodeid hdr)"
  shows "serves pf K w (handle_setattr pf S v hdr req w)"
  unfolding handle_setattr_def
  by (simp only: wp_simps case_prod_unfold, rule with_path [OF w i])
    (auto intro!: served_errors [OF w] ensures_access_node serves_reply_attr [OF w] winvD(3) [OF w]
      held_live [OF w i] simp: wp_simps split: sum.split)

lemma serves_open:
  assumes w: "winv pf K w" and i: "held K (nodeid hdr)"
  shows "serves pf K w (handle_open S v hdr fl w)"
  unfolding handle_open_def
  by (simp only: wp_simps case_prod_unfold, rule with_path [OF w i])
    (auto intro!: served_errors [OF w] served_reply [OF w] ensures_access_node winvD(3) [OF w]
      held_live [OF w i] simp: wp_simps Let_def fuse_reply_def entry_for_def split: sum.split)

lemma serves_opendir:
  assumes w: "winv pf K w" and i: "held K (nodeid hdr)"
  shows "serves pf K w (handle_opendir S v hdr w)"
  unfolding handle_opendir_def
  by (simp only: wp_simps case_prod_unfold, rule with_path [OF w i])
    (auto intro!: served_errors [OF w] served_reply [OF w] ensures_access_node winvD(3) [OF w]
      held_live [OF w i] simp: wp_simps Let_def fuse_reply_def entry_for_def split: sum.split)

lemma serves_canonical_path:
  assumes w: "winv pf K w" and i: "held K (nodeid hdr)"
  shows "serves pf K w (handle_canonical_path v hdr w)"
  unfolding handle_canonical_path_def
  by (simp only: wp_simps case_prod_unfold, rule with_path [OF w i])
    (auto intro!: served_errors [OF w] served_reply [OF w] ensures_access_node winvD(3) [OF w]
      held_live [OF w i] simp: wp_simps Let_def fuse_reply_def entry_for_def)

lemma serves_handles:
  assumes w: "winv pf K w"
  shows "handles w (id_to_ptr fh) \<noteq> None \<Longrightarrow> serves pf K w (handle_read S v hdr fh sz off w)"
    and "handles w (id_to_ptr fh) \<noteq> None \<Longrightarrow> unat sz \<le> length buf \<Longrightarrow>
      serves pf K w (handle_write S v hdr fh sz off buf w)"
    and "handles w (id_to_ptr fh) \<noteq> None \<Longrightarrow> serves pf K w (handle_release S fh w)"
    and "dirhandles w (id_to_ptr fh) \<noteq> None \<Longrightarrow> serves pf K w (handle_releasedir S fh w)"
    and "dirhandles w (id_to_ptr fh) \<noteq> None \<Longrightarrow> serves pf K w (handle_readdir S v hdr fh off w)"
    and "(if isd then dirhandles w (id_to_ptr fh) \<noteq> None else handles w (id_to_ptr fh) \<noteq> None) \<Longrightarrow>
      serves pf K w (handle_fsync S isd fh fl w)"
  unfolding handle_read_def handle_write_def handle_release_def handle_releasedir_def
    handle_readdir_def handle_fsync_def
  by (auto intro!: served_errors [OF w] served_reply [OF w]
      simp: wp_simps Let_def fuse_reply_def entry_for_def split: sum.split prod.split option.split)

lemma root_live: "winv pf K w \<Longrightarrow> \<exists>n. heap_of w root_ptr = Some n"
  using winvD(3) [of pf K w] by (auto simp: shape_def)

lemma serves_statfs:
  assumes w: "winv pf K w"
  shows "serves pf K w (handle_statfs S v hdr w)"
proof -
  obtain n where n: "heap_of w root_ptr = Some n" using root_live [OF w] by blast
  obtain s where s: "path_of (heap_of w) root_ptr s" using path_exists [OF winvD(3) [OF w]] n by blast
  have z: "heap_of w 0 = None" using winvD(3) [OF w] by (simp add: shape_def)
  show ?thesis unfolding handle_statfs_def get_node_path_spec [OF s winvD(2) [OF w] z]
    using deref_live [OF winvD(3) [OF w] n]
    by (auto intro!: served_errors [OF w] served_reply [OF w]
      simp: wp_simps fuse_reply_def entry_for_def split: sum.split prod.split)
qed

lemma serves_init: "winv pf K w \<Longrightarrow> serves pf K w (handle_init v hdr mj mn ra w)"
  unfolding handle_init_def
  by (auto intro!: served_errors served_reply simp: wp_simps fuse_reply_def entry_for_def)

section \<open>Handlers that create\<close>

lemma serves_lookup:
  assumes w: "winv pf K w" and i: "held K (nodeid hdr)" and rm: "room 2 (heap_of w)" and al: "alloc_fresh pf"
  shows "serves pf K w (handle_lookup pf S v hdr nm w)"
  unfolding handle_lookup_def
  by (simp only: wp_simps case_prod_unfold, rule with_path [OF w i])
    (auto intro!: served_errors [OF w] ensures_access_name serves_reply_entry [OF w] winvD(3) [OF w]
      held_live [OF w i] rm al dest: find_file_within_len simp: wp_simps Let_def split: option.split prod.split)

lemma serves_mknod:
  assumes w: "winv pf K w" and i: "held K (nodeid hdr)" and rm: "room 2 (heap_of w)" and al: "alloc_fresh pf"
  shows "serves pf K w (handle_mknod pf S v hdr m d nm w)"
  unfolding handle_mknod_def
  by (simp only: wp_simps case_prod_unfold, rule with_path [OF w i])
    (auto intro!: served_errors [OF w] ensures_access_name serves_reply_entry [OF w] winvD(3) [OF w]
      held_live [OF w i] rm al dest: find_file_within_len simp: wp_simps Let_def
      split: option.split prod.split sum.split)

lemma ensures_deref:
  assumes "shape {} h" "h p \<noteq> None" "\<And>n. h p = Some n \<Longrightarrow> Q n"
  shows "ensures Q (deref h p)"
  using assms deref_live by (auto intro: ensuresI)

lemma serves_mkdir:
  assumes w: "winv pf K w" and i: "held K (nodeid hdr)" and rm: "room 2 (heap_of w)" and al: "alloc_fresh pf"
  shows "serves pf K w (handle_mkdir pf S v hdr m nm w)"
  unfolding handle_mkdir_def
  by (simp only: wp_simps case_prod_unfold, rule with_path [OF w i])
    (auto intro!: served_errors [OF w] ensures_access_name ensures_deref serves_reply_entry [OF w]
      winvD(3) [OF w] held_live [OF w i] rm al dest: find_file_within_len simp: wp_simps Let_def
      split: option.split prod.split sum.split)

section \<open>Handlers that remove\<close>

lemma derive_deleted:
  "derive_permissions pf g pn (n\<lparr>deleted := b\<rparr>) = (derive_permissions pf g pn n)\<lparr>deleted := b\<rparr>"
  by (cases "perm pn") (simp_all add: derive_permissions_def Let_def split: option.split)

lemma settled_deleted:
  assumes p: "h p = Some n" and s: "\<And>q. settled pf g h q"
  shows "settled pf g (h(p \<mapsto> n\<lparr>deleted := b\<rparr>)) q"
  unfolding settled_def
proof (intro allI impI, elim conjE)
  fix m pm assume a: "(h(p \<mapsto> n\<lparr>deleted := b\<rparr>)) q = Some m"
    "(h(p \<mapsto> n\<lparr>deleted := b\<rparr>)) (parent m) = Some pm"
  obtain m0 where m0: "h q = Some m0" "m = m0 \<or> m = m0\<lparr>deleted := b\<rparr>"
    using a(1) p by (auto split: if_splits)
  obtain pm0 where pm0: "h (parent m) = Some pm0" "pm = pm0 \<or> pm = pm0\<lparr>deleted := b\<rparr>"
    using a(2) p by (auto split: if_splits)
  have d: "derive_permissions pf g pm = derive_permissions pf g pm0"
    using pm0(2) by (intro derive_parent_cong) auto
  have "derive_permissions pf g pm0 m0 = m0"
    using s [of q] m0 pm0(1) by (auto simp: settled_def)
  then show "derive_permissions pf g pm m = m" using m0(2) unfolding d by (auto simp: derive_deleted)
qed

lemma ginv_deleted:
  assumes g: "ginv pf K g" and p: "nodes g p = Some n"
  shows "ginv pf K (g\<lparr>nodes := (nodes g)(p \<mapsto> n\<lparr>deleted := b\<rparr>)\<rparr>)"
proof -
  let ?h = "(nodes g)(p \<mapsto> n\<lparr>deleted := b\<rparr>)"
  have sl: "same_links (nodes g) ?h" using p by (rule same_links_upd) (simp add: links_def)
  have st: "settled pf g ?h q" for q by (rule settled_deleted [OF p ginvD(5) [OF g]])
  have "ids_ok (g\<lparr>nodes := ?h\<rparr>)" using p by (intro ids_ok_sub [OF _ ginvD(4) [OF g]]) (auto split: if_splits)
  then show ?thesis
    using same_links_shape [OF sl ginvD(1) [OF g]] same_links_counts [OF sl _ ginvD(2) [OF g]] p
      st ginvD(3,6) [OF g]
    by (intro ginvI) (auto simp: settled_config [of "g\<lparr>nodes := ?h\<rparr>" g])
qed

lemma notify_entries: "entries (drop (length (outbox w)) (outbox (notify_others v a c nm w))) p = 0"
  by (simp add: notify_others_outbox entries_def entry_for_def filter_map comp_def)

lemma notify_glob [simp]: "glob (notify_others v a c nm w) = glob w"
  by (simp add: notify_others_def fuse_notify_delete_def emit_def Let_def)

lemma serves_mark_deleted:
  assumes w: "winv pf K w" and w1: "glob w1 = glob w" "outbox w1 = outbox w" and p: "heap_of w p \<noteq> None"
  shows "serves pf K w (mark_deleted v p nm w1)"
proof -
  have h1: "heap_of w1 = heap_of w" using w1 by (simp add: heap_of_def)
  obtain c where c: "lookup_child_by_name_locked (heap_of w) p nm = Some c"
    "c \<noteq> 0 \<Longrightarrow> c \<in> kids {} (heap_of w) p \<and> live_named (heap_of w) nm c"
    using lookup_child_ok [OF winvD(3) [OF w] p] by metis
  show ?thesis
  proof (cases "c = 0")
    case True
    then show ?thesis using c(1) h1 w1 unfolding mark_deleted_def
      by (auto simp: wp_simps intro!: served_same [OF w])
  next
    case False
    then obtain n where n: "heap_of w c = Some n" using c(2) by (auto simp: kids_def)
    let ?h = "(heap_of w)(c \<mapsto> n\<lparr>deleted := True\<rparr>)"
    obtain pn where pn: "?h p = Some pn" using p by (cases "p = c") auto
    have pz: "p \<noteq> 0" using p winvD(3) [OF w] by (auto simp: shape_def)
    have g: "ginv pf K ((glob w)\<lparr>nodes := ?h\<rparr>)"
      using ginv_deleted [OF winvD(1) [OF w]] n by (simp add: heap_of_def)
    have nm: "names ?h" using winvD(2) [OF w] n namesD by (intro names_upd) fastforce+
    let ?w = "set_heap ?h w1"
    have "winv pf K (notify_others v a b nm ?w)" for a b
      using g nm w1 by (simp add: winv_def heap_of_def set_heap_def)
    then have "served pf K w (0, notify_others v a b nm ?w)" for a b
      using w1 notify_entries [of ?w v a b nm]
      by (auto simp: served_def notify_others_outbox intro!: exI)
    then show ?thesis using c(1) False h1 n pn pz unfolding mark_deleted_def
      by (auto simp: wp_simps modify_def deref_def)
  qed
qed

lemma serves_unlink:
  assumes w: "winv pf K w" and i: "held K (nodeid hdr)"
  shows "serves pf K w (handle_unlink S v hdr nm w)"
  unfolding handle_unlink_def
  by (simp only: wp_simps case_prod_unfold, rule with_path [OF w i])
    (auto intro!: served_errors [OF w] ensures_access_name serves_mark_deleted [OF w] winvD(3) [OF w]
      held_live [OF w i] simp: wp_simps Let_def split: option.split prod.split sum.split)

lemma serves_rmdir:
  assumes w: "winv pf K w" and i: "held K (nodeid hdr)"
  shows "serves pf K w (handle_rmdir S v hdr nm w)"
  unfolding handle_rmdir_def
  by (simp only: wp_simps case_prod_unfold, rule with_path [OF w i])
    (auto intro!: served_errors [OF w] ensures_access_name serves_mark_deleted [OF w] winvD(3) [OF w]
      held_live [OF w i] simp: wp_simps Let_def split: option.split prod.split sum.split)

section \<open>Renaming\<close>

text \<open>Between the two critical sections the handler itself holds a reference on the child.\<close>

lemma serves_rename_release:
  assumes w1: "winv pf (K(c := K c + 1)) w1" "outbox w1 = outbox w" and r: "2 \<le> K root_ptr"
  shows "serves pf K w (rename_release c res w1)"
proof -
  let ?K = "K(c := K c + 1)"
  have k: "?K(c := ?K c - 1) = K" by simp
  obtain h where h: "release_node_locked (heap_of w1) c = Some h" "ginv pf K ((glob w1)\<lparr>nodes := h\<rparr>)"
    using release_ginv [OF winvD(1) [OF w1(1)], of c] r unfolding k heap_of_def by auto
  have "names h" using names_release [OF h(1)] winvD(2) [OF w1(1)] by blast
  then have "winv pf K (set_heap h w1)" using h(2) by (simp add: winv_def heap_of_def set_heap_def)
  then have "served pf K w (res, set_heap h w1)"
    using w1(2) by (auto simp: served_def intro!: exI [of _ "[]"])
  then show ?thesis using h(1) by (simp add: rename_release_def wp_simps)
qed

lemma rename_node_keeps:
  assumes "rename_node pf n nm act = (res, n')"
  shows "links n' = links n" "refcount n' = refcount n" "nid n' = nid n" "ino n' = ino n"
    "deleted n' = deleted n" "res \<noteq> 0 \<Longrightarrow> n' = n" "res = 0 \<Longrightarrow> name n' = nm"
  using assms unfolding rename_node_def by (auto simp: links_def Let_def split: if_split_asm)

lemma rename_commit_ok:
  assumes w: "winv pf K w" and n: "heap_of w c = Some n" "c \<noteq> root_ptr" "0 < K (parent n)"
    and np: "heap_of w np \<noteq> None" "(c, np) \<notin> (prel {} (heap_of w))\<^sup>*" and rm: "room 2 (heap_of w)"
    and len: "length act = length nm"
  shows "ensures (\<lambda>r. winv pf K (snd r) \<and> outbox (snd r) = outbox w \<and>
    (fst r = 0 \<longrightarrow> (\<exists>m. heap_of (snd r) c = Some m \<and> parent m = np \<and> name m = nm \<and> deleted m = deleted n)) \<and>
    (fst r \<noteq> 0 \<longrightarrow> fst r = - ENOMEM \<and> snd r = w))
    (rename_commit pf c np nm act w)"
proof -
  obtain res n' where rn: "rename_node pf n nm act = (res, n')" by (cases "rename_node pf n nm act")
  note keep = rename_node_keeps [OF rn]
  have dr: "deref (heap_of w) c = Some n" by (rule deref_live [OF winvD(3) [OF w] n(1)])
  then have eq: "rename_node_locked pf (heap_of w) c nm act = Some (res, (heap_of w)(c \<mapsto> n'))"
    using rn by (simp add: rename_node_locked_def)
  have nm: "names ((heap_of w)(c \<mapsto> n'))" by (rule names_rename [OF eq winvD(2) [OF w] len])
  show ?thesis
  proof (cases "res = 0")
    case False
    then have "(heap_of w)(c \<mapsto> n') = heap_of w" using keep(6) n(1) by (simp add: fun_upd_idem)
    moreover have "res = - ENOMEM" using rn False by (auto simp: rename_node_def Let_def split: if_splits)
    moreover have "set_heap (heap_of w) w = w" by (simp add: set_heap_def heap_of_def)
    ultimately show ?thesis using eq False w by (simp add: rename_commit_def wp_simps)
  next
    case True
    obtain h m where h: "move_node_locked pf (glob w) ((heap_of w)(c \<mapsto> n')) c np = Some h"
      "ginv pf K ((glob w)\<lparr>nodes := h\<rparr>)" "h c = Some m" "parent m = np" "name m = name n'" "deleted m = deleted n'"
      using move_ginv [OF winvD(1) [OF w], of c n n' np] n np keep rm unfolding heap_of_def by blast
    have "names h" by (rule names_move [OF h(1) nm])
    then show ?thesis using eq h True keep(5,7)
      by (simp add: rename_commit_def wp_simps winv_def heap_of_def set_heap_def)
  qed
qed

lemma room_acquire:
  assumes "acquire_node_locked h p = Some h'" "room 3 h" shows "room 2 h'"
  unfolding room_def
proof (intro allI impI)
  fix q m assume m: "h' q = Some m"
  obtain n where n: "h q = Some n" "m = n \<or> m = n\<lparr>refcount := refcount n + 1\<rparr>"
    using assms(1) m unfolding acquire_node_locked_def modify_def deref_def
    by (auto split: if_splits)
  have "unat (refcount n) + 3 < 2 ^ 32" using assms(2) n(1) unfolding room_def by blast
  moreover have "unat (refcount n + 1) \<le> unat (refcount n) + 1" by (simp add: unat_word_ariths)
  ultimately show "unat (refcount m) + 2 < 2 ^ 32" using n(2) by auto
qed

lemma acquire_winv:
  assumes w: "winv pf K w" and c: "heap_of w c = Some n" and rm: "room 3 (heap_of w)"
  obtains h where "acquire_node_locked (heap_of w) c = Some h" "winv pf (K(c := K c + 1)) (set_heap h w)"
    "room 2 h" "same_links (heap_of w) h" "h c = Some (n\<lparr>refcount := refcount n + 1\<rparr>)"
proof -
  have r2: "room 2 (heap_of w)" using rm unfolding room_def by fastforce
  obtain h where h: "acquire_node_locked (heap_of w) c = Some h"
    "ginv pf (K(c := K c + 1)) ((glob w)\<lparr>nodes := h\<rparr>)"
    using acquire_ginv [OF winvD(1) [OF w]] c r2 unfolding heap_of_def by blast
  have cz: "c \<noteq> 0" using c winvD(3) [OF w] by (auto simp: shape_def)
  then have eq: "h = (heap_of w)(c \<mapsto> n\<lparr>refcount := refcount n + 1\<rparr>)"
    using h(1) c by (simp add: acquire_node_locked_def modify_def deref_def)
  have "same_links (heap_of w) h" unfolding eq using c by (rule same_links_upd) (simp add: links_def)
  moreover have "winv pf (K(c := K c + 1)) (set_heap h w)"
    using h names_acquire [OF h(1) winvD(2) [OF w]] by (simp add: winv_def heap_of_def set_heap_def)
  ultimately show thesis using h(1) room_acquire [OF h(1) rm] eq by (intro that [of h]) auto
qed

lemma same_links_prel: "same_links h h' \<Longrightarrow> prel D h' = prel D h"
  by (simp add: prel_def same_links_kids)

lemma ensures_path:
  assumes w: "winv pf K w" and c: "heap_of w c \<noteq> None" and Q: "\<And>r. Q r"
  shows "ensures Q (get_node_path_locked (heap_of w) c b)"
proof -
  have z: "heap_of w 0 = None" using winvD(3) [OF w] by (simp add: shape_def)
  obtain s where "path_of (heap_of w) c s" using path_exists [OF winvD(3) [OF w] c] by blast
  then show ?thesis using get_node_path_spec winvD(2) [OF w] z Q by (auto intro: ensuresI)
qed

lemma ensures_child:
  assumes w: "winv pf K w" and i: "held K i"
    and Q: "\<And>c. lookup_child_by_name_locked (heap_of w) (lookup_node_by_id_locked i) nm = Some c \<Longrightarrow>
      (c \<noteq> 0 \<Longrightarrow> heap_of w c \<noteq> None) \<Longrightarrow> Q c"
  shows "ensures Q (lookup_child_by_name_locked (heap_of w) (lookup_node_by_id_locked i) nm)"
proof -
  obtain c where "lookup_child_by_name_locked (heap_of w) (lookup_node_by_id_locked i) nm = Some c"
    "c \<noteq> 0 \<Longrightarrow> c \<in> kids {} (heap_of w) (lookup_node_by_id_locked i)"
    using lookup_child_ok [OF winvD(3) [OF w] held_live [OF w i], of nm] by metis
  then show ?thesis by (intro ensuresI [where x = c] Q) (auto simp: kids_def)
qed

lemma serves_rename_child:
  assumes w: "winv pf K w" and op: "held K (nodeid hdr)" and np: "held K nd"
    and c: "lookup_child_by_name_locked (heap_of w) (lookup_node_by_id_locked (nodeid hdr)) old = Some c"
      "c \<noteq> 0" "(c, lookup_node_by_id_locked nd) \<notin> (prel {} (heap_of w))\<^sup>*"
    and rm: "room 3 (heap_of w)"
  shows "serves pf K w (rename_child pf S c (lookup_node_by_id_locked nd) path new search w)"
proof -
  let ?op = "lookup_node_by_id_locked (nodeid hdr)" and ?np = "lookup_node_by_id_locked nd"
  note sh = winvD(3) [OF w]
  have r2: "2 \<le> K root_ptr" by (rule ginvD(3) [OF winvD(1) [OF w]])
  obtain n where n: "heap_of w c = Some n" "parent n = ?op"
    using lookup_child_ok [OF sh held_live [OF w op], of old] c(1,2) by (auto simp: kids_def)
  have "?op \<noteq> 0" using held_live [OF w op] sh by (metis shape_def)
  then have cr: "c \<noteq> root_ptr" using n shape_root [OF sh] by auto
  obtain h where h: "acquire_node_locked (heap_of w) c = Some h" "winv pf (K(c := K c + 1)) (set_heap h w)"
    "room 2 h" "same_links (heap_of w) h" "h c = Some (n\<lparr>refcount := refcount n + 1\<rparr>)"
    using acquire_winv [OF w n(1) rm] by blast
  let ?K = "K(c := K c + 1)"
  have fsw: "winv pf ?K ((set_heap h w)\<lparr>fs := f\<rparr>)" for f
    using h(2) winv_cong by (metis (no_types, lifting) world.select_convs(1) world.surjective world.update_convs(2))
  have npl: "h ?np \<noteq> None"
    using counts_held [OF winvD(4) [OF h(2)], of ?np] np by (auto simp: held_def)
  have cyc: "(c, ?np) \<notin> (prel {} h)\<^sup>*" using c(3) same_links_prel [OF h(4)] by simp
  have commit: "serves pf K w (do { (res, w2) \<leftarrow> rename_commit pf c ?np new act ((set_heap h w)\<lparr>fs := f\<rparr>);
      rename_release c res w2 })" if "length act = length new" for act f
  proof -
    have "ensures (\<lambda>r. winv pf ?K (snd r) \<and> outbox (snd r) = outbox ((set_heap h w)\<lparr>fs := f\<rparr>) \<and>
      (fst r = 0 \<longrightarrow> (\<exists>m. heap_of (snd r) c = Some m \<and> parent m = ?np \<and> name m = new \<and>
         deleted m = deleted (n\<lparr>refcount := refcount n + 1\<rparr>))) \<and>
      (fst r \<noteq> 0 \<longrightarrow> fst r = - ENOMEM \<and> snd r = (set_heap h w)\<lparr>fs := f\<rparr>))
      (rename_commit pf c ?np new act ((set_heap h w)\<lparr>fs := f\<rparr>))"
      by (rule rename_commit_ok [OF fsw]) (use h(3,5) cr n(2) op npl cyc that in \<open>auto simp: held_def\<close>)
    then show ?thesis unfolding wp_simps
      by (rule ensures_mono) (auto simp: case_prod_unfold intro!: serves_rename_release r2)
  qed
  have nl: "heap_of w c \<noteq> None" using n by simp
  show ?thesis unfolding rename_child_def h(1) ensures_simps(3) [of _ "get_node_path_locked k p b" for k p b]
    by (rule ensures_path [OF w nl])
      (auto simp: Let_def case_prod_unfold wp_simps split: option.split sum.split
        intro!: served_errors(1) [OF w] serves_rename_release fsw r2 commit [unfolded wp_simps case_prod_unfold] dest: find_file_within_len)
qed

lemma serves_rename:
  assumes w: "winv pf K w" and op: "held K (nodeid hdr)" and np: "held K nd"
    and cyc: "\<forall>c. lookup_child_by_name_locked (heap_of w) (lookup_node_by_id_locked (nodeid hdr)) old = Some c \<longrightarrow> c \<noteq> 0 \<longrightarrow>
        (c, lookup_node_by_id_locked nd) \<notin> (prel {} (heap_of w))\<^sup>*"
    and rm: "room 3 (heap_of w)"
  shows "serves pf K w (handle_rename pf S hdr nd old new w)"
  unfolding handle_rename_def
  apply (simp only: wp_simps case_prod_unfold)
  apply (rule with_path [OF w op]; rule with_path [OF w np])
     apply (simp_all add: served_errors(1) [OF w])
  apply (auto intro!: ensures_access_name winvD(3) [OF w] held_live [OF w] op np ensures_child [OF w op]
      served_errors(1) [OF w] serves_rename_child [OF w op np _ _ _ rm] simp: cyc)
  done

section \<open>Forgetting\<close>

lemma release_times_ginv:
  assumes "ginv pf K g" "n + (if p = root_ptr then 2 else 0) \<le> K p"
  shows "\<exists>h. release_times n (nodes g) p = Some h \<and> ginv pf (K(p := K p - n)) (g\<lparr>nodes := h\<rparr>)"
  using assms
proof (induction n arbitrary: K g)
  case (Suc n)
  have "2 \<le> (K(p := K p - 1)) root_ptr" using ginvD(3) [OF Suc.prems(1)] Suc.prems(2) by auto
  then obtain h where h: "release_node_locked (nodes g) p = Some h"
    "ginv pf (K(p := K p - 1)) (g\<lparr>nodes := h\<rparr>)"
    using release_ginv [OF Suc.prems(1), of p] Suc.prems(2) by auto
  have "\<exists>h'. release_times n (nodes (g\<lparr>nodes := h\<rparr>)) p = Some h' \<and>
      ginv pf ((K(p := K p - 1))(p := (K(p := K p - 1)) p - n)) (g\<lparr>nodes := h, nodes := h'\<rparr>)"
    using Suc.prems(2) by (intro Suc.IH [OF h(2)]) auto
  moreover have "(K(p := K p - 1))(p := (K(p := K p - 1)) p - n) = K(p := K p - Suc n)" by auto
  ultimately obtain h' where "release_times n h p = Some h'" "ginv pf (K(p := K p - Suc n)) (g\<lparr>nodes := h'\<rparr>)"
    by auto
  then show ?case using h(1) by (intro exI [of _ h'] conjI) (simp, assumption)
qed simp

lemma names_release_times: "release_times n h p = Some h' \<Longrightarrow> names h \<Longrightarrow> names h'"
  by (induction n arbitrary: h) (auto simp: fault_simps dest: names_release)

lemma forget_ok:
  assumes w: "winv pf K w" and v: "valid_req K w hdr (FORGET n)"
  shows "ensures (\<lambda>r. outbox (snd r) = outbox w \<and>
    winv pf (\<lambda>p. K p - forgets hdr (FORGET n) p) (snd r)) (handle_forget hdr n w)"
proof -
  let ?p = "lookup_node_by_id_locked (nodeid hdr)"
  have K: "(\<lambda>p. K p - forgets hdr (FORGET n) p) = K(?p := K ?p - unat n)"
    by (auto simp: forgets_def)
  obtain h where h: "release_times (unat n) (heap_of w) ?p = Some h"
    "ginv pf (K(?p := K ?p - unat n)) ((glob w)\<lparr>nodes := h\<rparr>)"
    using release_times_ginv [OF winvD(1) [OF w]] v by (auto simp: heap_of_def)
  have nm: "names h" by (rule names_release_times [OF h(1) winvD(2) [OF w]])
  have z: "K 0 = 0" using counts_held [OF winvD(4) [OF w], of 0] winvD(3) [OF w] by (auto simp: shape_def)
  show ?thesis
  proof (cases "?p = 0")
    case True
    then have "K(?p := K ?p - unat n) = K" using z by auto
    then show ?thesis using True w unfolding K by (simp add: handle_forget_def wp_simps)
  next
    case False
    then show ?thesis using h nm unfolding K
      by (simp add: handle_forget_def wp_simps winv_def heap_of_def set_heap_def)
  qed
qed

section \<open>Every request\<close>

lemma request_served:
  assumes "winv pf K w" "valid_req K w hdr req" "room 3 (heap_of w)" "alloc_fresh pf" "\<forall>n. req \<noteq> FORGET n"
  shows "serves pf K w (handle_fuse_request pf S v hdr req w)"
proof -
  have r2: "room 2 (heap_of w)" using assms(3) unfolding room_def by fastforce
  show ?thesis
    using assms r2
    by (cases req) (auto intro: serves_lookup serves_getattr serves_setattr serves_mknod serves_mkdir
      serves_unlink serves_rmdir serves_rename serves_open serves_handles serves_statfs serves_opendir
      serves_init serves_canonical_path simp: wp_simps served_errors(1) handle_flush_def)
qed

end
