(* ===== verification/Codec.thy ===== *)
theory Codec
  imports Prelude
begin

text \<open>
  Little-endian fields of byte buffers, shared by the inotify events of the sdcard daemon and the
  HCI packets of the Bluetooth stack: writers, readers at an offset that refuse to read past the
  end, and their round trips.
\<close>

named_theorems codec_simps \<open>readers against writers\<close>

definition put16 :: "u16 \<Rightarrow> bytes" where
  "put16 x = [ucast x, ucast (drop_bit 8 x)]"

definition put24 :: "u32 \<Rightarrow> bytes" where
  "put24 x = [ucast x, ucast (drop_bit 8 x), ucast (drop_bit 16 x)]"

definition put32 :: "u32 \<Rightarrow> bytes" where
  "put32 x = [ucast x, ucast (drop_bit 8 x), ucast (drop_bit 16 x), ucast (drop_bit 24 x)]"

definition get8 :: "bytes \<Rightarrow> nat \<Rightarrow> u8 option" where
  "get8 buf pos = (if pos < length buf then Some (buf ! pos) else None)"

definition get16 :: "bytes \<Rightarrow> nat \<Rightarrow> u16 option" where
  "get16 buf pos =
     (if pos + 2 \<le> length buf then Some (ucast (buf ! pos) OR push_bit 8 (ucast (buf ! (pos + 1)))) else None)"

definition get32 :: "bytes \<Rightarrow> nat \<Rightarrow> u32 option" where
  "get32 buf pos =
     (if pos + 4 \<le> length buf
      then Some (ucast (buf ! pos) OR push_bit 8 (ucast (buf ! (pos + 1))) OR
                 push_bit 16 (ucast (buf ! (pos + 2))) OR push_bit 24 (ucast (buf ! (pos + 3))))
      else None)"

lemma put_lengths [simp]: "length (put16 x) = 2" "length (put24 y) = 3" "length (put32 y) = 4"
  by (simp_all add: put16_def put24_def put32_def)

lemma join16: "ucast (ucast x :: u8) OR push_bit 8 (ucast (ucast (drop_bit 8 x) :: u8)) = (x :: u16)"
  by (rule bit_word_eqI) (auto simp: bit_simps)

lemma join32:
  "ucast (ucast x :: u8) OR push_bit 8 (ucast (ucast (drop_bit 8 x) :: u8)) OR
   push_bit 16 (ucast (ucast (drop_bit 16 x) :: u8)) OR push_bit 24 (ucast (ucast (drop_bit 24 x) :: u8)) = (x :: u32)"
proof (rule bit_word_eqI)
  fix n assume n: "n < LENGTH(32)"
  then consider "n < 8" | "8 \<le> n" "n < 16" | "16 \<le> n" "n < 24" | "24 \<le> n" "n < 32" by fastforce
  then show "bit (ucast (ucast x :: u8) OR push_bit 8 (ucast (ucast (drop_bit 8 x) :: u8)) OR
      push_bit 16 (ucast (ucast (drop_bit 16 x) :: u8)) OR push_bit 24 (ucast (ucast (drop_bit 24 x) :: u8)) :: u32) n
    = bit x n" by cases (auto simp: bit_simps)
qed

lemma get8_at [codec_simps]: "get8 (as @ b # bs) (length as) = Some b"
  by (simp add: get8_def)

lemma get16_put16 [codec_simps]: "get16 (as @ put16 x @ bs) (length as) = Some x"
  by (simp add: get16_def put16_def nth_append join16)

lemma get32_put32 [codec_simps]: "get32 (as @ put32 x @ bs) (length as) = Some x"
proof -
  have "(as @ put32 x @ bs) ! length as = ucast x" "(as @ put32 x @ bs) ! (length as + 1) = ucast (drop_bit 8 x)"
    "(as @ put32 x @ bs) ! (length as + 2) = ucast (drop_bit 16 x)"
    "(as @ put32 x @ bs) ! (length as + 3) = ucast (drop_bit 24 x)"
    by (simp_all add: put32_def nth_append)
  then show ?thesis unfolding get32_def using join32 [of x] by simp
qed

lemma get_short:
  "length buf < pos + 2 \<Longrightarrow> get16 buf pos = None" "length buf < pos + 4 \<Longrightarrow> get32 buf pos = None"
  "length buf \<le> pos \<Longrightarrow> get8 buf pos = None"
  by (simp_all add: get8_def get16_def get32_def)

lemma put16_inject [simp]: "put16 x = put16 y \<longleftrightarrow> x = y"
  by (metis get16_put16 option.inject)

lemma put32_inject [simp]: "put32 x = put32 y \<longleftrightarrow> x = y"
  by (metis get32_put32 option.inject)

end
