(* ===== verification/Sdcard.thy ===== *)
theory Sdcard
  imports Fuse_Daemon Codec
begin

text \<open>
  \<open>sdcard.cpp\<close>: the start-up of the daemon (state, mounts and masks of the four views), the
  package list and its inotify loop, the sdcardfs mounts and the command line.
  The package list parser, \<open>mount\<close>, the property service and \<open>getopt\<close> are parameters.
\<close>

section \<open>The package list\<close>

record pkg_info =
  pkg_name :: string
  pkg_uid :: u32

definition package_parse_callback :: "pkg_info \<Rightarrow> app_id_map \<Rightarrow> bool \<times> app_id_map" where
  "package_parse_callback info m =
     (case appid_emplace m (pkg_name info) (pkg_uid info) of (m', inserted) \<Rightarrow> (inserted, m'))"

text \<open>\<open>packagelist_parse\<close> calls the callback on records of the list file, from an initial map.\<close>

type_synonym package_parser =
  "(pkg_info \<Rightarrow> app_id_map \<Rightarrow> bool \<times> app_id_map) \<Rightarrow> app_id_map \<Rightarrow> bool \<times> app_id_map"

definition read_package_list :: "platform \<Rightarrow> package_parser \<Rightarrow> fuse_global \<Rightarrow> (bool \<times> fuse_global) option" where
  "read_package_list pf packagelist_parse g =
     (let (rc, m) = packagelist_parse package_parse_callback [];
          g1 = g\<lparr>package_to_appid := m\<rparr>
      in do {
        h \<leftarrow> derive_permissions_recursive_locked pf g1 (nodes g1) root_ptr;
        Some (rc, g1\<lparr>nodes := h\<rparr>)
      })"

section \<open>The inotify loop\<close>

text \<open>
  The header of \<open>struct inotify_event\<close> is 16 bytes: \<open>wd\<close>, \<open>mask\<close>, \<open>cookie\<close>, \<open>len\<close>, little endian.
  Reading past the bytes the kernel delivered is a fault of the model.
\<close>

abbreviation IN_IGNORED :: u32 where "IN_IGNORED \<equiv> 0x8000"
abbreviation sizeof_inotify_event :: nat where "sizeof_inotify_event \<equiv> 16"

text \<open>The inner loop; \<open>event_size\<close> is a signed 32-bit integer, and an event so long that it is
  negative (which would move the cursor before the buffer) is a fault of the model too.\<close>

partial_function (option) inotify_events :: "bytes \<Rightarrow> nat \<Rightarrow> int \<Rightarrow> bool \<Rightarrow> bool option" where
  "inotify_events buf event_pos res active =
     (if res < 16 then Some active
      else do {
        m \<leftarrow> get32 buf (event_pos + 4);
        len \<leftarrow> get32 buf (event_pos + 12);
        let active' = (if m AND IN_IGNORED = IN_IGNORED then False else active);
        let event_size = sint (16 + len);
        if event_size < 0 then None
        else inotify_events buf (event_pos + nat event_size) (res - event_size) active'
      })"

declare inotify_events.simps [code]

text \<open>One turn of the outer loop, with what the kernel answers in that turn.\<close>

record watch_env =
  add_watch_res :: "unit result"
  turn_parser :: package_parser
  inotify_read :: "bytes result"

datatype watch_state = Watching bool | WatchStopped

definition watch_read :: "watch_env \<Rightarrow> bool \<Rightarrow> fuse_global \<Rightarrow> (watch_state \<times> fuse_global) option" where
  "watch_read env active g =
     (case inotify_read env of
        Inl e \<Rightarrow> Some (WatchStopped, g)
      | Inr buf \<Rightarrow>
          if length buf < sizeof_inotify_event then Some (WatchStopped, g)
          else do {
            active' \<leftarrow> inotify_events buf 0 (int (length buf)) active;
            Some (Watching active', g)
          })"

definition watch_package_list_turn ::
    "platform \<Rightarrow> watch_env \<Rightarrow> bool \<Rightarrow> fuse_global \<Rightarrow> (watch_state \<times> fuse_global) option" where
  "watch_package_list_turn pf env active g =
     (if \<not> active
      then (case add_watch_res env of
              Inl e \<Rightarrow> if e = ENOENT \<or> e = EACCES then Some (Watching False, g) else Some (WatchStopped, g)
            | Inr _ \<Rightarrow> do {
                (rc, g1) \<leftarrow> read_package_list pf (turn_parser env) g;
                if \<not> rc then Some (WatchStopped, g1) else watch_read env True g1
              })
      else watch_read env True g)"

fun watch_package_list ::
    "platform \<Rightarrow> watch_env list \<Rightarrow> bool \<Rightarrow> fuse_global \<Rightarrow> (watch_state \<times> fuse_global) option" where
  "watch_package_list pf [] active g = Some (Watching active, g)"
| "watch_package_list pf (env # envs) active g = do {
     (st, g1) \<leftarrow> watch_package_list_turn pf env active g;
     (case st of
        WatchStopped \<Rightarrow> Some (WatchStopped, g1)
      | Watching active' \<Rightarrow> watch_package_list pf envs active' g1)
   }"

section \<open>Start-up\<close>

text \<open>\<open>fuse_setup\<close>: the results of opening the device and of the mount are arguments. A failed
  mount leaves the descriptor in place.\<close>

definition fuse_setup :: "view \<Rightarrow> u32 \<Rightarrow> u32 \<Rightarrow> int option \<Rightarrow> bool \<Rightarrow> fuse_global \<Rightarrow> int \<times> fuse_global" where
  "fuse_setup v gid msk fd mount_ok g =
     (case fd of
        None \<Rightarrow> (- 1, g\<lparr>mounts := (mounts g)(v := (mounts g v)\<lparr>fuse_fd := - 1\<rparr>)\<rparr>)
      | Some n \<Rightarrow>
          if \<not> mount_ok then (- 1, g\<lparr>mounts := (mounts g)(v := (mounts g v)\<lparr>fuse_fd := n\<rparr>)\<rparr>)
          else (0, g\<lparr>mounts := (mounts g)(v := (mounts g v)\<lparr>fuse_fd := n, fuse_gid := gid, mask := msk\<rparr>)\<rparr>))"

definition dest_dir :: "view \<Rightarrow> string" where
  "dest_dir v = (case v of FuseDefault \<Rightarrow> ''/mnt/runtime/default/'' | FuseRead \<Rightarrow> ''/mnt/runtime/read/''
     | FuseWrite \<Rightarrow> ''/mnt/runtime/write/'' | FuseFull \<Rightarrow> ''/mnt/runtime/full/'')"

definition run_init :: "platform \<Rightarrow> string \<Rightarrow> string \<Rightarrow> u32 \<Rightarrow> u32 \<Rightarrow> u32 \<Rightarrow> bool \<Rightarrow> fuse_global option" where
  "run_init pf source label uid gid user multi =
     (if PATH_MAX \<le> length source then None
      else Some \<lparr>g_uid = uid, g_gid = gid, multi_user = multi, source_path = source,
             obb_path = take (PATH_MAX - 1) (source @ (if multi then ''/obb'' else ''/Android/obb'')),
             package_to_appid = [], next_generation = 0,
             nodes = [root_ptr \<mapsto>
               \<lparr>refcount = 2, nid = FUSE_ROOT_ID, gen = 0, ino = 0,
                perm = (if multi then PERM_PRE_ROOT else PERM_ROOT), userid = user,
                node_uid = AID_ROOT pf, under_android = False, next_node = 0, child = 0, parent = 0,
                namelen = length source, name = source, actual_name = None, graft_path = None,
                graft_pathlen = 0, deleted = False\<rparr>],
             inode_ctr = 1,
             mounts = (\<lambda>v. \<lparr>dest_path = take (PATH_MAX - 1) (dest_dir v @ label), fuse_fd = 0,
                            fuse_gid = 0, mask = 0\<rparr>)\<rparr>)"

definition view_mask :: "bool \<Rightarrow> bool \<Rightarrow> view \<Rightarrow> u32" where
  "view_mask multi full_write v =
     (if multi
      then (case v of FuseDefault \<Rightarrow> 6 | FuseRead \<Rightarrow> 0x17
              | FuseWrite \<Rightarrow> if full_write then 7 else 0x17 | FuseFull \<Rightarrow> 7)
      else (case v of FuseDefault \<Rightarrow> 6 | FuseRead \<Rightarrow> if full_write then 0x17 else 0x12
              | FuseWrite \<Rightarrow> if full_write then 7 else 0x12 | FuseFull \<Rightarrow> 7))"

definition view_gid :: "platform \<Rightarrow> view \<Rightarrow> u32" where
  "view_gid pf v = (if v = FuseDefault then AID_SDCARD_RW pf else AID_EVERYBODY pf)"

text \<open>The four calls joined by \<open>||\<close>: the first failure is fatal.\<close>

definition run_mounts ::
    "platform \<Rightarrow> bool \<Rightarrow> bool \<Rightarrow> (view \<Rightarrow> int option) \<Rightarrow> (view \<Rightarrow> bool) \<Rightarrow> fuse_global \<Rightarrow> fuse_global option" where
  "run_mounts pf multi full_write fds mount_ok g =
     fold (\<lambda>v acc. do {
        g \<leftarrow> acc;
        let (rc, g') = fuse_setup v (view_gid pf v) (view_mask multi full_write v) (fds v) (mount_ok v) g;
        if rc \<noteq> 0 then None else Some g'
      }) [FuseDefault, FuseRead, FuseWrite, FuseFull] (Some g)"

section \<open>sdcardfs\<close>

text \<open>\<open>%d\<close> of \<open>printf\<close>: the argument read as a signed 32-bit integer.\<close>

fun dec_digits :: "nat \<Rightarrow> string" where
  "dec_digits n = (if n < 10 then [char_of (48 + n)] else dec_digits (n div 10) @ [char_of (48 + n mod 10)])"

declare dec_digits.simps [simp del]

definition fmt_d :: "u32 \<Rightarrow> string" where
  "fmt_d x = (if sint x < 0 then ''-'' @ dec_digits (nat (- sint x)) else dec_digits (nat (sint x)))"

text \<open>The mount table underneath; a call returns whether it succeeded.\<close>

record 'm mounter =
  mount_call :: "string \<Rightarrow> string \<Rightarrow> string option \<Rightarrow> u32 \<Rightarrow> string option \<Rightarrow> 'm \<Rightarrow> bool \<times> 'm"
  umount2_call :: "string \<Rightarrow> 'm \<Rightarrow> 'm"

abbreviation MS_BIND :: u32 where "MS_BIND \<equiv> 4096"
abbreviation MS_REMOUNT :: u32 where "MS_REMOUNT \<equiv> 32"
abbreviation MS_SAFE :: u32 where "MS_SAFE \<equiv> 2 OR 4 OR 8 OR 1024"
  \<comment> \<open>\<open>MS_NOSUID | MS_NODEV | MS_NOEXEC | MS_NOATIME\<close>\<close>

definition sdcardfs_opts :: "u32 \<Rightarrow> u32 \<Rightarrow> bool \<Rightarrow> bool \<Rightarrow> u32 \<Rightarrow> u32 \<Rightarrow> u32 \<Rightarrow> string" where
  "sdcardfs_opts fsuid fsgid multi derive_gid msk user gid =
     ''fsuid='' @ fmt_d fsuid @ '',fsgid='' @ fmt_d fsgid @ '','' @
     (if multi then ''multiuser,'' else []) @ (if derive_gid then ''derive_gid,'' else []) @
     ''mask='' @ fmt_d msk @ '',userid='' @ fmt_d user @ '',gid='' @ fmt_d gid"

definition sdcardfs_setup ::
    "'m mounter \<Rightarrow> string \<Rightarrow> string \<Rightarrow> u32 \<Rightarrow> u32 \<Rightarrow> bool \<Rightarrow> u32 \<Rightarrow> u32 \<Rightarrow> u32 \<Rightarrow> bool \<Rightarrow> 'm \<Rightarrow> bool \<times> 'm" where
  "sdcardfs_setup M source dest fsuid fsgid multi user gid msk derive_gid m =
     (case mount_call M source dest (Some ''sdcardfs'') MS_SAFE
             (Some (sdcardfs_opts fsuid fsgid multi derive_gid msk user gid)) m of
        (True, m1) \<Rightarrow> (True, m1)
      | (False, m1) \<Rightarrow>
          if derive_gid
          then mount_call M source dest (Some ''sdcardfs'') MS_SAFE
                 (Some (sdcardfs_opts fsuid fsgid multi False msk user gid)) m1
          else (False, m1))"

definition sdcardfs_setup_bind_remount ::
    "'m mounter \<Rightarrow> string \<Rightarrow> string \<Rightarrow> u32 \<Rightarrow> u32 \<Rightarrow> 'm \<Rightarrow> bool \<times> 'm" where
  "sdcardfs_setup_bind_remount M source dest gid msk m =
     (case mount_call M source dest None MS_BIND None m of
        (False, m1) \<Rightarrow> (False, m1)
      | (True, m1) \<Rightarrow>
          (case mount_call M source dest (Some ''none'') (MS_REMOUNT OR MS_SAFE)
                  (Some (''mask='' @ fmt_d msk @ '',gid='' @ fmt_d gid)) m1 of
             (True, m2) \<Rightarrow> (True, m2)
           | (False, m2) \<Rightarrow> (False, umount2_call M dest m2)))"

text \<open>The mounts of \<open>run_sdcardfs\<close>, joined by \<open>||\<close>; \<open>False\<close> is the fatal end.\<close>

definition run_sdcardfs_mounts ::
    "platform \<Rightarrow> 'm mounter \<Rightarrow> string \<Rightarrow> string \<Rightarrow> u32 \<Rightarrow> u32 \<Rightarrow> u32 \<Rightarrow> bool \<Rightarrow> bool \<Rightarrow> bool \<Rightarrow> 'm \<Rightarrow> bool \<times> 'm" where
  "run_sdcardfs_mounts pf M source label uid gid user multi full_write derive_gid m =
     (let dest_default = ''/mnt/runtime/default/'' @ label;
          dest_read = ''/mnt/runtime/read/'' @ label;
          dest_write = ''/mnt/runtime/write/'' @ label;
          read_mask = (if multi then 0x17 else if full_write then 0x17 else 0x12);
          write_mask = (if multi then if full_write then 7 else 0x17 else if full_write then 7 else 0x12)
      in case sdcardfs_setup M source dest_default uid gid multi user (AID_SDCARD_RW pf) 6 derive_gid m of
           (False, m1) \<Rightarrow> (False, m1)
         | (True, m1) \<Rightarrow>
             (case sdcardfs_setup_bind_remount M dest_default dest_read (AID_EVERYBODY pf) read_mask m1 of
                (False, m2) \<Rightarrow> (False, m2)
              | (True, m2) \<Rightarrow>
                  sdcardfs_setup_bind_remount M dest_default dest_write (AID_EVERYBODY pf) write_mask m2))"

section \<open>The command line\<close>

text \<open>\<open>android::base::Split\<close> at line feeds and \<open>find\<close>.\<close>

fun split_lines :: "string \<Rightarrow> string list" where
  "split_lines [] = [[]]"
| "split_lines (c # cs) =
     (if c = CHR 0x0A then [] # split_lines cs
      else (case split_lines cs of [] \<Rightarrow> [[c]] | l # ls \<Rightarrow> (c # l) # ls))"

fun contains :: "string \<Rightarrow> string \<Rightarrow> bool" where
  "contains [] pat \<longleftrightarrow> pat = []"
| "contains (c # cs) pat \<longleftrightarrow> take (length pat) (c # cs) = pat \<or> contains cs pat"

definition supports_sdcardfs :: "string option \<Rightarrow> bool" where
  "supports_sdcardfs filesystems =
     (case filesystems of
        None \<Rightarrow> False
      | Some s \<Rightarrow> list_ex (\<lambda>fs. contains fs ''sdcardfs'') (split_lines s))"

definition should_use_sdcardfs :: "string \<Rightarrow> bool \<Rightarrow> string option \<Rightarrow> bool" where
  "should_use_sdcardfs user_prop device_prop filesystems =
     (if user_prop = ''force_on'' then supports_sdcardfs filesystems
      else if user_prop = ''force_off'' then False
      else if device_prop then supports_sdcardfs filesystems else False)"

record sdcard_opts =
  o_uid :: u32
  o_gid :: u32
  o_userid :: u32
  o_multi :: bool
  o_full_write :: bool
  o_derive_gid :: bool

text \<open>The loop over what \<open>getopt (argc, argv, "u:g:U:mwGio")\<close> returns: an option letter and its
  argument, \<open>CHR ''?''\<close> for an unknown option. \<open>None\<close> is the return through \<open>usage\<close>.\<close>

fun sdcard_getopts :: "(char \<times> string) list \<Rightarrow> sdcard_opts \<Rightarrow> sdcard_opts option" where
  "sdcard_getopts [] so = Some so"
| "sdcard_getopts ((opt, optarg) # opts) so =
     (if opt = CHR ''u'' then sdcard_getopts opts (so\<lparr>o_uid := strtoul10 optarg\<rparr>)
      else if opt = CHR ''g'' then sdcard_getopts opts (so\<lparr>o_gid := strtoul10 optarg\<rparr>)
      else if opt = CHR ''U'' then sdcard_getopts opts (so\<lparr>o_userid := strtoul10 optarg\<rparr>)
      else if opt = CHR ''m'' then sdcard_getopts opts (so\<lparr>o_multi := True\<rparr>)
      else if opt = CHR ''w'' then sdcard_getopts opts (so\<lparr>o_full_write := True\<rparr>)
      else if opt = CHR ''G'' then sdcard_getopts opts (so\<lparr>o_derive_gid := True\<rparr>)
      else if opt = CHR ''i'' \<or> opt = CHR ''o'' then sdcard_getopts opts so
      else None)"

text \<open>The loop that waits for the layout version: each answer is an error or a version.\<close>

fun wait_layout :: "int option list \<Rightarrow> bool" where
  "wait_layout [] \<longleftrightarrow> False"
| "wait_layout (r # rs) \<longleftrightarrow> (case r of None \<Rightarrow> wait_layout rs | Some v \<Rightarrow> if v < 3 then wait_layout rs else True)"

datatype sdcard_end =
    Usage
  | StillWaiting
  | RunSdcardfs string string u32 u32 u32 bool bool bool
  | RunFuse string string u32 u32 u32 bool bool

definition sdcard_main ::
    "(char \<times> string) list \<Rightarrow> string list \<Rightarrow> int option list \<Rightarrow> bool \<Rightarrow> sdcard_end" where
  "sdcard_main opts args versions use_sdcardfs =
     (case sdcard_getopts opts \<lparr>o_uid = 0, o_gid = 0, o_userid = 0, o_multi = False, o_full_write = False,
                             o_derive_gid = False\<rparr> of
        None \<Rightarrow> Usage
      | Some so \<Rightarrow>
          (case args of
             [source, label] \<Rightarrow>
               if o_uid so = 0 \<or> o_gid so = 0 then Usage
               else if \<not> wait_layout versions then StillWaiting
               else if use_sdcardfs
               then RunSdcardfs source label (o_uid so) (o_gid so) (o_userid so) (o_multi so)
                      (o_full_write so) (o_derive_gid so)
               else RunFuse source label (o_uid so) (o_gid so) (o_userid so) (o_multi so) (o_full_write so)
           | _ \<Rightarrow> Usage))"

section \<open>The initial state\<close>

definition root_refs :: "ptr \<Rightarrow> nat" where
  "root_refs p = (if p = root_ptr then 2 else 0)"

lemma single_shape:
  assumes "parent n = 0" "child n = 0"
  shows "shape {} [root_ptr \<mapsto> n]"
proof -
  have k: "kids {} [root_ptr \<mapsto> n] p = (if p = 0 then {root_ptr} else {})" for p
    using assms by (auto simp: kids_def)
  have "acyclic (prel {} [root_ptr \<mapsto> n])"
  proof -
    have "prel {} [root_ptr \<mapsto> n] \<subseteq> {(0, root_ptr)}" by (auto simp: prel_def k split: if_splits)
    moreover have "acyclic {(0 :: ptr, root_ptr)}"
      by (auto simp: acyclic_def trancl_insert)
    ultimately show ?thesis by (rule acyclic_subset [rotated])
  qed
  then show ?thesis using assms root_ptr_not_null k by (auto simp: shape_def intro!: exI [of _ "[]"])
qed

lemma run_init_ginv:
  assumes "run_init pf source label uid gid user multi = Some g"
  shows "ginv pf root_refs g" "names (nodes g)"
proof -
  obtain n where n: "nodes g = [root_ptr \<mapsto> n]" "parent n = 0" "child n = 0" "refcount n = 2" "names_ok n"
    using assms unfolding run_init_def names_ok_def by (auto split: if_splits)
  have k: "kids {} (nodes g) root_ptr = {}" using n by (auto simp: kids_def)
  have "counts {} root_refs (nodes g)"
    using n k by (auto simp: counts_def root_refs_def)
  moreover have "settled pf g (nodes g) q" for q using n by (auto simp: settled_def)
  moreover have "ids_ok g" using n by (auto simp: ids_ok_def)
  moreover have "root_ptr \<noteq> 1" by (simp add: root_ptr_def)
  ultimately show "ginv pf root_refs g"
    using single_shape [of n] n by (intro ginvI) (auto simp: root_refs_def)
  show "names (nodes g)" using n by (simp add: names_def)
qed

section \<open>Reloading the package list\<close>

lemma below_root:
  assumes sh: "shape {} h" and q: "h q \<noteq> None" "q \<noteq> root_ptr"
  shows "q \<in> desc {} h (kids {} h root_ptr)"
proof -
  have "finite (prel {} h)" by (rule finite_subset [of _ UNIV]) auto
  with sh have "wf (prel {} h)" by (intro finite_acyclic_wf) (simp_all add: shape_def)
  then show ?thesis using q
  proof (induction q)
    case (less q)
    then obtain n where n: "h q = Some n" by blast
    then have par: "h (parent n) \<noteq> None" using sh less.prems by (simp add: shape_def)
    have e: "(parent n, q) \<in> prel {} h" using n by (simp add: prel_def kids_def)
    show ?case
    proof (cases "parent n = root_ptr")
      case True
      then show ?thesis using n by (auto simp: desc_def kids_def)
    next
      case False
      then have "parent n \<in> desc {} h (kids {} h root_ptr)" using less.IH [OF e] par by blast
      then show ?thesis using e unfolding desc_def by (blast intro: rtrancl_into_rtrancl)
    qed
  qed
qed

text \<open>Whatever the parser returns, the reload leaves every node with the permissions the new list gives.\<close>

lemma read_package_list_ok:
  assumes g: "ginv pf K g" "names (nodes g)"
  obtains rc g' where "read_package_list pf parser g = Some (rc, g')" "ginv pf K g'" "names (nodes g')"
    "rc = fst (parser package_parse_callback [])"
    "package_to_appid g' = snd (parser package_parse_callback [])" "reheaped (nodes g) (nodes g')"
    "mounts g' = mounts g"
proof -
  obtain rc m where pm: "parser package_parse_callback [] = (rc, m)" by fastforce
  let ?g = "g\<lparr>package_to_appid := m\<rparr>"
  note sh = ginvD(1) [OF g(1)]
  have r: "nodes g root_ptr \<noteq> None" using sh by (auto simp: shape_def)
  obtain h where h: "derive_permissions_recursive_locked pf ?g (nodes g) root_ptr = Some h"
    "derived pf ?g (desc {} (nodes g) (kids {} (nodes g) root_ptr)) (nodes g) h"
    using derive_recursive_ok [OF sh r] by blast
  let ?g' = "?g\<lparr>nodes := h\<rparr>"
  have re: "reheaped (nodes g) h" using h(2) by (simp add: derived_def)
  have shh: "shape {} h" using reheaped_shape [OF re] sh by blast
  have ch: "counts {} K h" using reheaped_counts [OF re] ginvD(2) [OF g(1)] by blast
  have dom: "h q = None \<longleftrightarrow> nodes g q = None" for q
    using re unfolding reheaped_def by (metis option.rel_distinct(1,2) option.exhaust)
  have st: "settled pf ?g' h q" for q
  proof (cases "h q = None \<or> q = root_ptr")
    case True
    then show ?thesis using shape_root [OF shh] shh by (auto simp: settled_def shape_def)
  next
    case False
    then have "settled pf ?g h q" using below_root [OF sh] dom h(2) by (auto simp: derived_def)
    then show ?thesis by (simp add: settled_config [of ?g' ?g])
  qed
  have "\<exists>k. nodes ?g q = Some k \<and> nid k = nid n \<and> ino k = ino n" if t: "h q = Some n" for q n
  proof -
    obtain k where "nodes g q = Some k" "rederived k n" using reheaped_back [OF re t] by blast
    then show ?thesis using rederived_keeps(3,5) by simp
  qed
  moreover have "ids_ok ?g" using ginvD(4) [OF g(1)] ids_ok_cong [of ?g g] by simp
  ultimately have "ids_ok ?g'" by (rule ids_ok_sub)
  then have "ginv pf K ?g'"
    using shh ch st dom ginvD(3,6) [OF g(1)] by (intro ginvI) auto
  moreover have "names h" by (rule names_derive_recursive [OF h(1) g(2)])
  ultimately show thesis using pm h(1) re by (intro that [of rc ?g']) (auto simp: read_package_list_def)
qed

section \<open>Mounting\<close>

lemma run_mounts_spec:
  "run_mounts pf multi full fds ok g =
     (if \<forall>v. fds v \<noteq> None \<and> ok v
      then Some (g\<lparr>mounts := (\<lambda>v. (mounts g v)\<lparr>fuse_fd := the (fds v), fuse_gid := view_gid pf v,
                                     mask := view_mask multi full v\<rparr>)\<rparr>)
      else None)"
proof -
  have v: "(\<forall>v. P v) \<longleftrightarrow> P FuseDefault \<and> P FuseRead \<and> P FuseWrite \<and> P FuseFull" for P
    by (metis view.exhaust)
  have f: "(\<lambda>v. F v) = ((((F0(FuseDefault := F FuseDefault))(FuseRead := F FuseRead))
      (FuseWrite := F FuseWrite))(FuseFull := F FuseFull))" for F F0 :: "view \<Rightarrow> fuse"
  proof
    fix u show "F u = ((((F0(FuseDefault := F FuseDefault))(FuseRead := F FuseRead))
      (FuseWrite := F FuseWrite))(FuseFull := F FuseFull)) u" by (cases u) simp_all
  qed
  show ?thesis
    unfolding v f [where F = "\<lambda>v. (mounts g v)\<lparr>fuse_fd := the (fds v), fuse_gid := view_gid pf v,
       mask := view_mask multi full v\<rparr>" and ?F0.0 = "mounts g"] run_mounts_def fuse_setup_def
    by (cases "fds FuseDefault"; cases "fds FuseRead"; cases "fds FuseWrite"; cases "fds FuseFull") auto
qed

section \<open>Events\<close>

record inotify_event =
  ev_wd :: u32
  ev_mask :: u32
  ev_cookie :: u32
  ev_name :: bytes

definition put_event :: "inotify_event \<Rightarrow> bytes" where
  "put_event e = put32 (ev_wd e) @ put32 (ev_mask e) @ put32 (ev_cookie e) @
     put32 (of_nat (length (ev_name e))) @ ev_name e"

definition ignored :: "inotify_event \<Rightarrow> bool" where
  "ignored e \<longleftrightarrow> ev_mask e AND IN_IGNORED = IN_IGNORED"

lemma put_event_length: "length (put_event e) = 16 + length (ev_name e)"
  by (simp add: put_event_def)

lemma get32_mid:
  "get32 (as @ put32 x @ bs) n = Some x" if "n = length as"
  using that get32_put32 by simp

lemma event_fields:
  "get32 (pre @ put_event e @ rest) (length pre + 4) = Some (ev_mask e)"
  "get32 (pre @ put_event e @ rest) (length pre + 12) = Some (of_nat (length (ev_name e)))"
  using get32_mid [of "length pre + 4" "pre @ put32 (ev_wd e)" "ev_mask e"]
    get32_mid [of "length pre + 12" "pre @ put32 (ev_wd e) @ put32 (ev_mask e) @ put32 (ev_cookie e)"]
  by (simp_all add: put_event_def)

lemma event_size: "16 + n < 2 ^ 31 \<Longrightarrow> sint (16 + of_nat n :: u32) = int (16 + n)"
proof -
  assume n: "16 + n < 2 ^ 31"
  have "16 + of_nat n = (of_nat (16 + n) :: u32)" by simp
  then show ?thesis using n by (simp only: signed_of_nat) (simp add: signed_take_bit_int_eq_self)
qed

lemma inotify_events_spec:
  assumes "\<forall>e\<in>set evs. 16 + length (ev_name e) < 2 ^ 31"
  shows "inotify_events (pre @ concat (map put_event evs)) (length pre)
    (int (length (concat (map put_event evs)))) active = Some (active \<and> \<not> list_ex ignored evs)"
  using assms
proof (induction evs arbitrary: pre active)
  case Nil
  then show ?case by (simp add: inotify_events.simps)
next
  case (Cons e evs)
  let ?rest = "concat (map put_event evs)"
  have sz: "sint (16 + of_nat (length (ev_name e)) :: u32) = int (length (put_event e))"
    using Cons.prems event_size by (simp add: put_event_length)
  note ih = Cons.IH [of "pre @ put_event e" "if ignored e then False else active"]
  have "inotify_events (pre @ put_event e @ ?rest) (length pre + nat (int (length (put_event e))))
      (int (length (put_event e @ ?rest)) - int (length (put_event e))) (if ignored e then False else active)
    = Some ((if ignored e then False else active) \<and> \<not> list_ex ignored evs)"
    using ih Cons.prems by simp
  moreover have "\<not> int (length (put_event e @ ?rest)) < 16" by (simp add: put_event_length)
  ultimately show ?case
    by (subst inotify_events.simps) (auto simp: event_fields sz ignored_def)
qed

end
