(* ===== verification/Fuse_System.thy ===== *)
theory Fuse_System
  imports Sdcard
begin

text \<open>
  The running daemon as a state machine: it starts from the state \<open>run\<close> sets up, serves requests
  the kernel may send on any of the four views, and reloads the package list. Every reachable
  state satisfies the invariant, and no request faults in one.
\<close>

section \<open>One request\<close>

lemma entries_append: "entries (ms @ ms') p = entries ms p + entries ms' p"
  by (simp add: entries_def)

lemma status_entries: "entries [(v, \<lparr>out_len = l, out_error = e, out_unique = u, out_data = NoData\<rparr>)] = (\<lambda>p. 0)"
  by (simp add: entries_def entry_for_def fun_eq_iff)

lemma request_ok:
  assumes w: "winv pf K w" and v: "valid_req K w hdr req" and rm: "room 3 (heap_of w)" and al: "alloc_fresh pf"
  obtains res w' ms where "handle_fuse_request pf S v hdr req w = Some (res, w')"
    "outbox w' = outbox w @ ms" "winv pf (\<lambda>p. K p + entries ms p - forgets hdr req p) w'"
proof (cases "\<exists>n. req = FORGET n")
  case True
  then obtain n where n: "req = FORGET n" by blast
  obtain r where "handle_forget hdr n w = Some r" "outbox (snd r) = outbox w"
    "winv pf (\<lambda>p. K p - forgets hdr req p) (snd r)"
    using forget_ok [OF w v [unfolded n]] n unfolding ensures_def by blast
  then show thesis using n by (intro that [of "fst r" "snd r" "[]"]) auto
next
  case False
  then have f: "forgets hdr req = (\<lambda>p. 0)" by (cases req) (auto simp: forgets_def)
  obtain r ms where "handle_fuse_request pf S v hdr req w = Some r" "outbox (snd r) = outbox w @ ms"
    "winv pf (\<lambda>p. K p + entries ms p) (snd r)"
    using request_served [OF w v rm al, where S = S and v = v] False by (auto simp: served_def elim!: ensuresE)
  then show thesis using f by (intro that [of "fst r" "snd r" ms]) auto
qed

lemma handle_one_ok:
  assumes w: "winv pf K w" and v: "valid_req K w hdr req" and rm: "room 3 (heap_of w)" and al: "alloc_fresh pf"
    and len: "hdr_len hdr = len" "40 \<le> len"
  obtains w' ms where "handle_one pf S v (ReadMsg len hdr req) w = Some (Running, w')"
    "outbox w' = outbox w @ ms" "winv pf (\<lambda>p. K p + entries ms p - forgets hdr req p) w'"
proof -
  obtain res w1 ms where r: "handle_fuse_request pf S v hdr req w = Some (res, w1)"
    "outbox w1 = outbox w @ ms" "winv pf (\<lambda>p. K p + entries ms p - forgets hdr req p) w1"
    by (rule request_ok [OF w v rm al])
  let ?m = "(v, \<lparr>out_len = sizeof_out_header, out_error = res, out_unique = unique hdr, out_data = NoData\<rparr>)"
  have "winv pf (\<lambda>p. K p + entries (ms @ [?m]) p - forgets hdr req p) (fuse_status v (unique hdr) res w1)"
    using r(3) winv_cong [of "fuse_status v (unique hdr) res w1" w1]
    by (simp add: entries_append status_entries fuse_status_def emit_def)
  then show thesis
    using r len that [of w1 ms] that [of "fuse_status v (unique hdr) res w1" "ms @ [?m]"]
    by (cases "res = NO_STATUS") (auto simp: fuse_status_def emit_def)
qed

text \<open>The replies of one turn of the loop.\<close>

lemma handle_one_replies:
  assumes S: "errno_pos S" and h: "handle_one pf S v (ReadMsg len hdr req) w = Some (e, w')"
    and len: "hdr_len hdr = len" "40 \<le> len" and nf: "\<forall>n. req \<noteq> FORGET n"
  shows "\<exists>ms m. outbox w' = outbox w @ ms \<and> filter (\<lambda>x. fst x = v) ms = [(v, m)] \<and> out_unique m = unique hdr"
proof -
  obtain res w1 where r: "handle_fuse_request pf S v hdr req w = Some (res, w1)"
    "w' = (if res \<noteq> NO_STATUS then fuse_status v (unique hdr) res w1 else w1)"
    using h len by (auto simp: fault_simps)
  have "answered v (unique hdr) res w w1"
    using holdsD [OF answers_request [OF S nf] r(1)] by simp
  then show ?thesis using r(2) unfolding answered_def
    by (cases "res = NO_STATUS") (auto simp: fuse_status_def emit_def)
qed

section \<open>The state machine\<close>

definition start_world :: "fuse_global \<Rightarrow> 'fs \<Rightarrow> 'fs world" where
  "start_world g f = \<lparr>glob = g, fs = f, handles = Map.empty, dirhandles = Map.empty, outbox = []\<rparr>"

inductive reachable :: "platform \<Rightarrow> 'fs sys \<Rightarrow> (ptr \<Rightarrow> nat) \<Rightarrow> 'fs world \<Rightarrow> bool" for pf S where
  start: "run_init pf source label uid gid user multi = Some g0 \<Longrightarrow>
    run_mounts pf multi full fds ok g0 = Some g \<Longrightarrow> reachable pf S root_refs (start_world g f)"
| serve: "reachable pf S K w \<Longrightarrow> valid_req K w hdr req \<Longrightarrow> room 3 (heap_of w) \<Longrightarrow>
    hdr_len hdr = len \<Longrightarrow> 40 \<le> len \<Longrightarrow> handle_one pf S v (ReadMsg len hdr req) w = Some (e, w') \<Longrightarrow>
    reachable pf S (\<lambda>p. K p + entries (drop (length (outbox w)) (outbox w')) p - forgets hdr req p) w'"
| reload: "reachable pf S K w \<Longrightarrow> read_package_list pf parser (glob w) = Some (rc, g) \<Longrightarrow>
    reachable pf S K (w\<lparr>glob := g\<rparr>)"

lemma run_mounts_ginv:
  assumes "run_mounts pf multi full fds ok g0 = Some g" "ginv pf K g0" "names (nodes g0)"
  shows "ginv pf K g" "names (nodes g)"
proof -
  have n: "nodes g = nodes g0" "inode_ctr g = inode_ctr g0" "obb_path g = obb_path g0"
    "package_to_appid g = package_to_appid g0"
    using assms(1) by (auto simp: run_mounts_spec split: if_splits)
  show "ginv pf K g" using assms(2) unfolding ginv_def n(1)
    by (metis settled_config [OF n(3,4)] ids_ok_cong [OF n(1,2)])
  show "names (nodes g)" using assms(3) n by simp
qed

lemma reachable_winv:
  assumes "reachable pf S K w" and al: "alloc_fresh pf"
  shows "winv pf K w"
  using assms(1)
proof (induction rule: reachable.induct)
  case (start source label uid gid user multi g0 full fds ok g f)
  then show ?case
    using run_mounts_ginv [OF start(2) run_init_ginv [OF start(1)]]
    by (simp add: start_world_def winv_def heap_of_def)
next
  case (serve K w hdr req len v e w')
  obtain w1 ms where "handle_one pf S v (ReadMsg len hdr req) w = Some (Running, w1)"
    "outbox w1 = outbox w @ ms" "winv pf (\<lambda>p. K p + entries ms p - forgets hdr req p) w1"
    using handle_one_ok [OF serve.IH serve.hyps(2,3) al serve.hyps(4,5)] by blast
  then show ?case using serve.hyps(6) by simp
next
  case (reload K w parser rc g)
  obtain rc' g' where "read_package_list pf parser (glob w) = Some (rc', g')" "ginv pf K g'" "names (nodes g')"
    using read_package_list_ok [OF winvD(1) [OF reload.IH]] winvD(2) [OF reload.IH] unfolding heap_of_def by blast
  then show ?case using reload.hyps(2) by (simp add: winv_def heap_of_def)
qed

end
