(* ===== verification/Fuse_Props.thy ===== *)
theory Fuse_Props
  imports Fuse_System
begin

text \<open>
  The properties of the sdcard daemon, over the definitions that model \<open>fuse.cpp\<close> and
  \<open>sdcard.cpp\<close>, with a small concrete platform on which their hypotheses hold.
\<close>

section \<open>A concrete platform\<close>

definition demo_platform :: platform where
  "demo_platform = \<lparr>multiuser_get_uid = (\<lambda>u a. u * 100000 + a), AID_ROOT = 0, AID_SDCARD_RW = 1015,
     AID_EVERYBODY = 9997, calloc_node = (\<lambda>h. if h 0x1000 = None then 0x1000 else 0),
     malloc_ok = (\<lambda>s. True)\<rparr>"

definition demo_stat :: stat where
  "demo_stat = \<lparr>st_mode = 0x41FF, st_nlink = 1, st_size = 0, st_blocks = 0, st_atim = (0, 0),
     st_mtim = (0, 0), st_ctim = (0, 0)\<rparr>"

definition demo_sys :: "unit sys" where
  "demo_sys = \<lparr>sys_lstat = (\<lambda>p f. (Inr demo_stat, f)), sys_access_ok = (\<lambda>p f. (True, f)),
     sys_listdir = (\<lambda>p f. (None, f)), sys_truncate64 = (\<lambda>p z f. (Inr (), f)),
     sys_utimensat = (\<lambda>p a b f. (Inr (), f)), sys_mknod = (\<lambda>p m d f. (Inr (), f)),
     sys_mkdir = (\<lambda>p m f. (Inr (), f)), sys_unlink = (\<lambda>p f. (Inr (), f)),
     sys_rmdir = (\<lambda>p f. (Inr (), f)), sys_rename = (\<lambda>p q f. (Inr (), f)),
     sys_open = (\<lambda>p m f. (Inr 3, f)), sys_open_excl = (\<lambda>p m f. (Inr 3, f)), sys_close = (\<lambda>i f. f),
     sys_pread64 = (\<lambda>i n z f. (Inr (replicate n 0), f)), sys_pwrite64 = (\<lambda>i b z f. (Inr (of_nat (length b)), f)),
     sys_statfs = (\<lambda>p f. (Inl 5, f)), sys_fsync = (\<lambda>i f. (Inr (), f)), sys_fdatasync = (\<lambda>i f. (Inr (), f)),
     sys_opendir = (\<lambda>p f. (Inr 4, f)), sys_dirfd = (\<lambda>d f. 5), sys_rewinddir = (\<lambda>d f. f),
     sys_readdir = (\<lambda>d f. (None, f)), sys_closedir = (\<lambda>d f. f), sys_malloc = (\<lambda>s f. 0x2000)\<rparr>"

definition demo_start :: fuse_global where
  "demo_start = the (run_init demo_platform ''/data/media'' ''emulated'' 1023 1023 0 True)"

definition demo_glob :: fuse_global where
  "demo_glob = the (run_mounts demo_platform True False (\<lambda>v. Some 7) (\<lambda>v. True) demo_start)"

definition demo_world :: "unit world" where
  "demo_world = start_world demo_glob ()"

definition demo_hdr :: fuse_in_header where
  "demo_hdr = \<lparr>hdr_len = 45, unique = 9, nodeid = 1, hdr_uid = 10001\<rparr>"

lemma demo_alloc: "alloc_fresh demo_platform"
  by (simp add: alloc_fresh_def demo_platform_def)

lemma demo_errno: "errno_pos demo_sys"
  by (simp add: errno_pos_def errs_pos_def demo_sys_def)

lemma demo_init: "run_init demo_platform ''/data/media'' ''emulated'' 1023 1023 0 True = Some demo_start"
  by (simp add: demo_start_def run_init_def)

lemma demo_reachable: "reachable demo_platform S root_refs demo_world"
proof -
  have "run_mounts demo_platform True False (\<lambda>v. Some 7) (\<lambda>v. True) demo_start = Some demo_glob"
    by (simp add: demo_glob_def run_mounts_spec)
  then show ?thesis unfolding demo_world_def by (intro reachable.start [OF demo_init])
qed

lemma demo_winv: "winv demo_platform root_refs demo_world"
  by (rule reachable_winv [OF demo_reachable demo_alloc])

lemma demo_root: "lookup_node_by_id_locked (nodeid demo_hdr) = root_ptr"
  by (simp add: demo_hdr_def lookup_node_by_id_locked_def)

lemma demo_nodes: "heap_of demo_world root_ptr = nodes demo_start root_ptr" "heap_of demo_world = nodes demo_start"
  by (simp_all add: demo_world_def start_world_def heap_of_def demo_glob_def run_mounts_spec)

lemma demo_start_nodes: "nodes demo_start = [root_ptr \<mapsto>
   \<lparr>refcount = 2, nid = FUSE_ROOT_ID, gen = 0, ino = 0, perm = PERM_PRE_ROOT, userid = 0, node_uid = 0,
    under_android = False, next_node = 0, child = 0, parent = 0, namelen = length ''/data/media'', name = ''/data/media'',
    actual_name = None, graft_path = None, graft_pathlen = 0, deleted = False\<rparr>]"
  by (simp add: demo_start_def run_init_def demo_platform_def)

lemma demo_room: "room 3 (heap_of demo_world)"
  by (simp add: demo_nodes demo_start_nodes room_def)

lemma demo_valid: "valid_req root_refs demo_world demo_hdr (LOOKUP ''0'')"
  by (simp add: held_def demo_root root_refs_def)

lemma demo_path: "get_node_path_locked (heap_of demo_world) root_ptr PATH_MAX = Some (Some ''/data/media'')"
  by (simp add: get_node_path_locked.simps [of _ root_ptr] demo_nodes demo_start_nodes deref_def stored_name_def)

lemma demo_lookup: "lookup_node_and_path_by_id_locked (heap_of demo_world) (nodeid demo_hdr) PATH_MAX = Some (root_ptr, ''/data/media'')"
  by (simp add: lookup_node_and_path_by_id_locked_def demo_root demo_path)

lemma demo_child: "lookup_child_by_name_locked (heap_of demo_world) root_ptr nm = Some 0"
  by (simp add: lookup_child_by_name_locked_def demo_nodes demo_start_nodes deref_def find_child.simps [of _ _ 0])

lemma demo_valid_rename: "valid_req root_refs demo_world demo_hdr (RENAME 1 ''a'' ''b'')"
  by (simp add: held_def demo_root root_refs_def demo_child) (simp add: lookup_node_by_id_locked_def)

lemma demo_world_simps: "glob demo_world = demo_glob" "nodes demo_glob = nodes demo_start" "fs demo_world = ()"
  "inode_ctr demo_glob = 1" "next_generation demo_glob = 0" "outbox demo_world = []"
  by (simp_all add: demo_world_def start_world_def demo_glob_def run_mounts_spec demo_start_def run_init_def)

definition demo_node :: node where
  "demo_node = \<lparr>refcount = 1, nid = 0x1000, gen = 0, ino = 1, perm = PERM_ROOT, userid = 0, node_uid = 0,
    under_android = False, next_node = 0, child = 0, parent = root_ptr, namelen = 1, name = ''0'',
    actual_name = None, graft_path = None, graft_pathlen = 0, deleted = False\<rparr>"

lemma demo_create: "\<exists>g. create_node_locked demo_platform demo_glob root_ptr ''0'' ''0'' = Some (0x1000, g) \<and>
   nodes g 0x1000 = Some demo_node \<and> room 3 (nodes g)"
  by (simp add: room_def create_node_locked_def demo_world_simps demo_start_nodes derive_permissions_locked_def deref_def modify_def
     acquire_node_locked_def add_node_to_parent_locked_def demo_platform_def root_ptr_def fresh_node_def derive_permissions_def ptr_to_id_def
     strtoul10_def isspace_def isdigit_def digits_value_def demo_node_def Let_def)

lemma demo_child_world:
  "\<exists>K w. reachable demo_platform demo_sys K w \<and> heap_of w 0x1000 = Some demo_node \<and> room 3 (heap_of w)"
proof -
  obtain g where g: "create_node_locked demo_platform demo_glob root_ptr ''0'' ''0'' = Some (0x1000, g)"
    "nodes g 0x1000 = Some demo_node" "room 3 (nodes g)" using demo_create by blast
  have a: "acquire_or_create_child_locked demo_platform demo_glob root_ptr ''0'' ''0'' = Some (0x1000, g)"
    using g(1) demo_child by (simp add: acquire_or_create_child_locked_def heap_of_def demo_world_simps)
  have c: "check_caller_access_to_name (nodes demo_start) demo_hdr root_ptr ''0'' R_OK = Some True"
    by (simp add: check_caller_access_to_name_def deref_def demo_start_nodes)
  have "\<exists>w. handle_one demo_platform demo_sys FuseRead (ReadMsg 45 demo_hdr (LOOKUP ''0'')) demo_world =
      Some (Running, w) \<and> heap_of w 0x1000 = Some demo_node \<and> room 3 (heap_of w)"
    using a g(2,3) c demo_lookup
    by (simp add: handle_lookup_def find_file_within_def demo_sys_def Let_def demo_nodes(2)
        demo_world_simps fuse_reply_entry_def deref_def fuse_reply_def emit_def heap_of_def) (simp add: demo_hdr_def)
  then obtain w where w: "handle_one demo_platform demo_sys FuseRead (ReadMsg 45 demo_hdr (LOOKUP ''0'')) demo_world =
      Some (Running, w)" "heap_of w 0x1000 = Some demo_node" "room 3 (heap_of w)" by blast
  have "hdr_len demo_hdr = 45" by (simp add: demo_hdr_def)
  from reachable.serve [OF demo_reachable demo_valid demo_room this _ w(1)] w(2,3) show ?thesis by auto
qed

section \<open>The daemon\<close>

text \<open>C1: every state the daemon reaches (start-up, any sequence of requests the kernel may send on
  the four views, reloads of the package list) satisfies the state invariant: the nodes form a
  tree of finite sibling lists, each reference count is the number of children plus the references
  the kernel holds, node ids and inode numbers are unique, stored name lengths are right, and the
  derived permissions of every node agree with its parent and the package list.\<close>

theorem daemon_invariant:
  assumes "reachable pf S K w" "alloc_fresh pf"
  shows "winv pf K w"
  using assms by (rule reachable_winv)

theorem daemon_invariant_witness: "winv demo_platform root_refs demo_world"
  using daemon_invariant [OF demo_reachable demo_alloc] .

text \<open>C2: a request that keeps to the kernel's protocol never faults and never hangs: the turn of the
  request loop returns, the loop goes on, and the next state is reachable again, with the kernel's
  references adjusted by the entry replies and by \<open>FUSE_FORGET\<close>. A rename may name a file the
  daemon has no node for; the one rename it may not be asked for is that of a known directory below
  itself.\<close>

theorem request_never_faults:
  assumes "reachable pf S K w" "alloc_fresh pf" "valid_req K w hdr req" "room 3 (heap_of w)"
    "hdr_len hdr = len" "40 \<le> len"
  shows "\<exists>w'. handle_one pf S v (ReadMsg len hdr req) w = Some (Running, w') \<and>
    reachable pf S (\<lambda>p. K p + entries (drop (length (outbox w)) (outbox w')) p - forgets hdr req p) w'"
proof -
  obtain w' where w': "handle_one pf S v (ReadMsg len hdr req) w = Some (Running, w')"
    using handle_one_ok [OF reachable_winv [OF assms(1,2)] assms(3,4,2,5,6)] by blast
  then show ?thesis using reachable.serve [OF assms(1,3-6) w'] by blast
qed

theorem request_never_faults_witness:
  "(\<exists>w'. handle_one demo_platform demo_sys FuseRead (ReadMsg 45 demo_hdr (LOOKUP ''0'')) demo_world = Some (Running, w')) \<and>
   (\<exists>w'. handle_one demo_platform demo_sys FuseFull (ReadMsg 45 demo_hdr (RENAME 1 ''a'' ''b'')) demo_world = Some (Running, w'))"
  using request_never_faults [OF demo_reachable demo_alloc demo_valid demo_room, of 45 demo_sys FuseRead]
    request_never_faults [OF demo_reachable demo_alloc demo_valid_rename demo_room, of 45 demo_sys FuseFull]
  by (auto simp: demo_hdr_def)

text \<open>C3: every request but \<open>FUSE_FORGET\<close> is answered exactly once on the view it came from, with
  its own \<open>unique\<close> value, whatever branch its handler takes (the rename of a name the daemon has no
  node for is one of them); any other message of the turn goes to another view.\<close>

theorem exactly_one_reply:
  assumes "errno_pos S" "reachable pf S K w" "alloc_fresh pf" "valid_req K w hdr req" "room 3 (heap_of w)"
    "hdr_len hdr = len" "40 \<le> len" "\<forall>n. req \<noteq> FORGET n"
  shows "\<exists>w' ms m. handle_one pf S v (ReadMsg len hdr req) w = Some (Running, w') \<and>
    outbox w' = outbox w @ ms \<and> filter (\<lambda>x. fst x = v) ms = [(v, m)] \<and> out_unique m = unique hdr"
proof -
  obtain w' where w': "handle_one pf S v (ReadMsg len hdr req) w = Some (Running, w')"
    using handle_one_ok [OF reachable_winv [OF assms(2,3)] assms(4,5,3,6,7)] by blast
  then show ?thesis using handle_one_replies [OF assms(1) w' assms(6-8)] by blast
qed

theorem exactly_one_reply_witness:
  "(\<exists>w' ms m. handle_one demo_platform demo_sys FuseRead (ReadMsg 45 demo_hdr (LOOKUP ''0'')) demo_world =
     Some (Running, w') \<and> outbox w' = outbox demo_world @ ms \<and> filter (\<lambda>x. fst x = FuseRead) ms = [(FuseRead, m)] \<and>
     out_unique m = 9) \<and>
   (\<exists>w' ms m. handle_one demo_platform demo_sys FuseFull (ReadMsg 45 demo_hdr (RENAME 1 ''a'' ''b'')) demo_world =
     Some (Running, w') \<and> outbox w' = outbox demo_world @ ms \<and> filter (\<lambda>x. fst x = FuseFull) ms = [(FuseFull, m)] \<and>
     out_unique m = 9)"
  using exactly_one_reply [OF demo_errno demo_reachable demo_alloc demo_valid demo_room, of 45 FuseRead]
    exactly_one_reply [OF demo_errno demo_reachable demo_alloc demo_valid_rename demo_room, of 45 FuseFull]
  by (simp add: demo_hdr_def)

text \<open>C4: no node outlives its use: below every live node there is a node the kernel still holds a
  reference on, so a node is freed as soon as the last reference into its subtree is forgotten.\<close>

theorem no_leaked_nodes:
  assumes "reachable pf S K w" "alloc_fresh pf" "heap_of w p \<noteq> None"
  shows "\<exists>q. (p, q) \<in> (prel {} (heap_of w))\<^sup>* \<and> 0 < K q"
proof -
  note w = reachable_winv [OF assms(1,2)]
  have "finite (prel {} (heap_of w))" by (rule finite_subset [of _ UNIV]) auto
  then have "wf ((prel {} (heap_of w))\<inverse>)"
    using shape_acyclic [OF winvD(3) [OF w]] by (rule finite_acyclic_wf_converse)
  then show ?thesis using assms(3)
  proof (induction p)
    case (less p)
    then obtain n where n: "heap_of w p = Some n" by blast
    show ?case
    proof (cases "K p = 0")
      case True
      then have "card (kids {} (heap_of w) p) \<noteq> 0"
        using counts_eq [OF winvD(4) [OF w] n] counts_pos [OF winvD(4) [OF w] n] by (auto simp: word_gt_0 unat_eq_0)
      then obtain c where c: "c \<in> kids {} (heap_of w) p" by fastforce
      then have "(p, c) \<in> prel {} (heap_of w)" "heap_of w c \<noteq> None" by (auto simp: prel_def kids_def)
      then show ?thesis using less.IH [of c] by (meson converse_rtrancl_into_rtrancl converseI)
    qed auto
  qed
qed

theorem no_leaked_nodes_witness:
  "\<exists>q. (root_ptr, q) \<in> (prel {} (heap_of demo_world))\<^sup>* \<and> 0 < root_refs q"
  using no_leaked_nodes [OF demo_reachable demo_alloc, of root_ptr] root_live [OF demo_winv] by auto

section \<open>Paths and names\<close>

text \<open>C5: in every reachable state each live node has exactly one path in the tree (the names up to
  the root, or up to the nearest grafted directory), and \<open>get_node_path_locked\<close> writes exactly that
  path when it fits the buffer with its terminator, and fails otherwise.\<close>

theorem node_path_exact:
  assumes "reachable pf S K w" "alloc_fresh pf" "heap_of w p \<noteq> None"
  shows "\<exists>!s. path_of (heap_of w) p s \<and>
    (\<forall>b. get_node_path_locked (heap_of w) p b = Some (if length s < b then Some s else None))"
proof -
  note w = reachable_winv [OF assms(1,2)]
  obtain s where s: "path_of (heap_of w) p s" using path_exists [OF winvD(3) [OF w] assms(3)] by blast
  note g = get_node_path_spec [OF s winvD(2) [OF w] shape_null [OF winvD(3) [OF w]]]
  show ?thesis
  proof (rule ex1I [of _ s])
    show "path_of (heap_of w) p s \<and>
      (\<forall>b. get_node_path_locked (heap_of w) p b = Some (if length s < b then Some s else None))"
      using s g by blast
  qed (use path_of_unique [OF s] in blast)
qed

theorem node_path_exact_witness:
  "\<exists>!s. path_of (heap_of demo_world) root_ptr s \<and>
    (\<forall>b. get_node_path_locked (heap_of demo_world) root_ptr b = Some (if length s < b then Some s else None))"
  using root_live [OF demo_winv] by (intro node_path_exact [OF demo_reachable demo_alloc]) auto

text \<open>C14: the file \<open>find_file_within\<close> settles on has a name equal to the requested one up to the case
  of its letters, its path is the directory, a slash and that name, and with its terminator the path
  fits the buffer; a name too long for the buffer is refused.\<close>

theorem find_file_within_sound:
  "case find_file_within S path nm bufsize search f of
     (Some (act, buf), f') \<Rightarrow> strcaseeq act nm \<and> length act = length nm \<and> buf = path @ ''/'' @ act \<and> length buf < bufsize
   | (None, f') \<Rightarrow> bufsize \<le> length path + length nm + 1 \<and> f' = f"
proof (cases "find_file_within S path nm bufsize search f")
  case (Pair r f')
  show ?thesis
  proof (cases r)
    case None
    then show ?thesis using Pair unfolding find_file_within_def
      by (auto simp: Let_def split: if_splits prod.splits bool.splits option.splits)
  next
    case (Some a)
    then show ?thesis using Pair find_file_within_name [of S path nm bufsize search f] by (cases a) auto
  qed
qed

text \<open>C15: the number the kernel is given for a node leads back to that node.\<close>

theorem node_id_roundtrip:
  assumes "reachable pf S K w" "alloc_fresh pf" "heap_of w p = Some n" "p \<noteq> root_ptr"
  shows "lookup_node_by_id_locked (nid n) = p"
proof -
  note g = winvD(1) [OF reachable_winv [OF assms(1,2)]]
  have "p \<noteq> 1" using ginvD(6) [OF g] assms(3) by (auto simp: heap_of_def)
  moreover have "nid n = ptr_to_id p"
    using ginvD(4) [OF g] assms(3,4) unfolding ids_ok_def heap_of_def by blast
  ultimately show ?thesis by (simp add: lookup_own_id)
qed

theorem node_id_roundtrip_witness:
  "\<exists>K w. reachable demo_platform demo_sys K w \<and> heap_of w 0x1000 = Some demo_node \<and>
     lookup_node_by_id_locked (nid demo_node) = 0x1000"
proof -
  obtain K w where w: "reachable demo_platform demo_sys K w" "heap_of w 0x1000 = Some demo_node"
    using demo_child_world by blast
  have "0x1000 \<noteq> root_ptr" by (simp add: root_ptr_def)
  from node_id_roundtrip [OF w(1) demo_alloc w(2) this] w show ?thesis by blast
qed

section \<open>Permissions\<close>

text \<open>Two integers with no common bit, bit by bit.\<close>

lemma disjoint_bits: "a AND b = 0 \<Longrightarrow> bit a i \<Longrightarrow> bit b i \<Longrightarrow> False" for a b :: int
  by (metis bit_and_iff bit_0_eq bot_apply bot_bool_def)

lemma subset_bits: "a AND b = a \<Longrightarrow> bit a i \<Longrightarrow> bit b i" for a b :: int
  by (metis bit_and_iff)

lemma attr_mode_bounds_lib:
  "let m = a_mode (attr_from_stat pf fu s n) in
     m AND 0xF000 = st_mode s AND 0xF000 \<and> m AND 0xE02 = 0 \<and>
     (perm n \<noteq> PERM_PRE_ROOT \<longrightarrow> m AND 0x1FF AND mask fu = 0) \<and>
     (perm n \<noteq> PERM_PRE_ROOT \<and> under_android n \<longrightarrow> m AND (if fuse_gid fu = AID_SDCARD_RW pf then 6 else 7) = 0) \<and>
     (perm n = PERM_PRE_ROOT \<longrightarrow> m AND 0x36 = 0)"
proof -
  obtain v x where m: "a_mode (attr_from_stat pf fu s n) = st_mode s AND 0xF000 OR v AND x"
    and v: "v = (if perm n = PERM_PRE_ROOT then 0x1C9
                 else if under_android n then (if fuse_gid fu = AID_SDCARD_RW pf then (0x1FD AND NOT (mask fu)) AND NOT 6
                                               else (0x1FD AND NOT (mask fu)) AND NOT 7)
                 else 0x1FD AND NOT (mask fu))"
    unfolding attr_from_stat_def Let_def fuse_attr.select_convs by blast
  have d: "bit (0xF000 :: int) i \<Longrightarrow> bit (0x1FD :: int) i \<Longrightarrow> False" "bit (0xF000 :: int) i \<Longrightarrow> bit (0x1C9 :: int) i \<Longrightarrow> False"
    "bit (0xE02 :: int) i \<Longrightarrow> bit (0xF000 :: int) i \<Longrightarrow> False" "bit (0xE02 :: int) i \<Longrightarrow> bit (0x1FD :: int) i \<Longrightarrow> False"
    "bit (0xE02 :: int) i \<Longrightarrow> bit (0x1C9 :: int) i \<Longrightarrow> False" "bit (0x1FF :: int) i \<Longrightarrow> bit (0xF000 :: int) i \<Longrightarrow> False"
    "bit (6 :: int) i \<Longrightarrow> bit (0xF000 :: int) i \<Longrightarrow> False" "bit (0x36 :: int) i \<Longrightarrow> bit (0x1C9 :: int) i \<Longrightarrow> False"
    "bit (0x36 :: int) i \<Longrightarrow> bit (0xF000 :: int) i \<Longrightarrow> False"
    "bit (7 :: int) i \<Longrightarrow> bit (0xF000 :: int) i \<Longrightarrow> False" for i
    by - (erule (1) disjoint_bits [rotated], simp)+
  have s: "bit (6 :: int) i \<Longrightarrow> bit (7 :: int) i" for i by (erule subset_bits [rotated]) simp
  have 1: "(st_mode s AND 0xF000 OR v AND x) AND 0xF000 = st_mode s AND 0xF000"
    by (rule bit_word_eqI) (auto simp: bit_simps v dest: d s split: if_splits)
  have 2: "(st_mode s AND 0xF000 OR v AND x) AND 0xE02 = 0"
    by (rule bit_word_eqI) (auto simp: bit_simps v dest: d s split: if_splits)
  have 3: "(st_mode s AND 0xF000 OR v AND x) AND 0x1FF AND mask fu = 0" if "perm n \<noteq> PERM_PRE_ROOT"
    by (rule bit_word_eqI) (use that in \<open>auto simp: bit_simps v dest: d s split: if_splits\<close>)
  have 4: "(st_mode s AND 0xF000 OR v AND x) AND 6 = 0" if "perm n \<noteq> PERM_PRE_ROOT" "under_android n"
    by (rule bit_word_eqI) (use that in \<open>auto simp: bit_simps v dest: d s split: if_splits\<close>)
  have 7: "(st_mode s AND 0xF000 OR v AND x) AND 7 = 0" if "perm n \<noteq> PERM_PRE_ROOT" "under_android n" "fuse_gid fu \<noteq> AID_SDCARD_RW pf"
    by (rule bit_word_eqI) (use that in \<open>auto simp: bit_simps v dest: d s split: if_splits\<close>)
  have 5: "(st_mode s AND 0xF000 OR v AND x) AND 0x36 = 0" if "perm n = PERM_PRE_ROOT"
    by (rule bit_word_eqI) (use that in \<open>auto simp: bit_simps v dest: d s split: if_splits\<close>)
  show ?thesis unfolding Let_def m using 1 2 3 4 5 7 by (cases "fuse_gid fu = AID_SDCARD_RW pf") simp_all
qed

text \<open>C8: the mode reported for a file keeps the file type, never grants a bit outside 0775, never
  grants a bit the view masks off, and below an \<open>Android\<close> directory gives other users no access at
  all, except in the view of the \<open>sdcard_rw\<close> group, where they keep at most the right to pass through;
  the exception is the top of the multi-user layout, which gets 0711 at most.\<close>

theorem attr_mode_bounds:
  "let m = a_mode (attr_from_stat pf fu s n) in
     m AND 0xF000 = st_mode s AND 0xF000 \<and> m AND 0xE02 = 0 \<and>
     (perm n \<noteq> PERM_PRE_ROOT \<longrightarrow> m AND 0x1FF AND mask fu = 0) \<and>
     (perm n \<noteq> PERM_PRE_ROOT \<and> under_android n \<longrightarrow> m AND (if fuse_gid fu = AID_SDCARD_RW pf then 6 else 7) = 0) \<and>
     (perm n = PERM_PRE_ROOT \<longrightarrow> m AND 0x36 = 0)"
  by (rule attr_mode_bounds_lib)

theorem attr_mode_bounds_witness:
  "a_mode (attr_from_stat demo_platform (mounts demo_glob FuseRead) demo_stat demo_node) AND 0x1FF AND 0x17 = 0 \<and>
   a_mode (attr_from_stat demo_platform ((mounts demo_glob FuseRead)\<lparr>mask := 0\<rparr>) demo_stat (demo_node\<lparr>under_android := True\<rparr>)) AND 7 = 0"
proof
  have p: "perm demo_node \<noteq> PERM_PRE_ROOT" "perm (demo_node\<lparr>under_android := True\<rparr>) \<noteq> PERM_PRE_ROOT"
    "under_android (demo_node\<lparr>under_android := True\<rparr>)" by (simp_all add: demo_node_def)
  have m: "mask (mounts demo_glob FuseRead) = 0x17" "fuse_gid ((mounts demo_glob FuseRead)\<lparr>mask := 0\<rparr>) \<noteq> AID_SDCARD_RW demo_platform"
    by (simp_all add: demo_glob_def run_mounts_spec view_mask_def view_gid_def demo_platform_def)
  have "perm demo_node \<noteq> PERM_PRE_ROOT \<longrightarrow>
      a_mode (attr_from_stat demo_platform (mounts demo_glob FuseRead) demo_stat demo_node) AND 0x1FF AND mask (mounts demo_glob FuseRead) = 0"
    using attr_mode_bounds [of demo_platform "mounts demo_glob FuseRead" demo_stat demo_node, unfolded Let_def] by (elim conjE)
  with p(1) show "a_mode (attr_from_stat demo_platform (mounts demo_glob FuseRead) demo_stat demo_node) AND 0x1FF AND 0x17 = 0"
    by (simp only: m(1) simp_thms)
  let ?f = "(mounts demo_glob FuseRead)\<lparr>mask := 0\<rparr>" and ?n = "demo_node\<lparr>under_android := True\<rparr>"
  have "perm ?n \<noteq> PERM_PRE_ROOT \<and> under_android ?n \<longrightarrow>
      a_mode (attr_from_stat demo_platform ?f demo_stat ?n) AND (if fuse_gid ?f = AID_SDCARD_RW demo_platform then 6 else 7) = 0"
    using attr_mode_bounds [of demo_platform ?f demo_stat ?n, unfolded Let_def] by (elim conjE)
  with p(2,3) m(2) show "a_mode (attr_from_stat demo_platform ?f demo_stat ?n) AND 7 = 0"
    by (simp only: if_False simp_thms)
qed

text \<open>C9: once mounted, the read view never reports a file as writable by its group or by others,
  whatever the options of the command line.\<close>

theorem read_view_not_writable:
  assumes "run_mounts pf multi full fds ok g0 = Some g"
  shows "a_mode (attr_from_stat pf (mounts g FuseRead) s n) AND 0x12 = 0"
proof -
  let ?m = "a_mode (attr_from_stat pf (mounts g FuseRead) s n)"
  have mk: "mask (mounts g FuseRead) = 0x17 \<or> mask (mounts g FuseRead) = 0x12"
    using assms by (auto simp: run_mounts_spec view_mask_def split: if_splits)
  have b: "?m AND 0x1FF AND mask (mounts g FuseRead) = 0 \<or> ?m AND 0x36 = 0"
    using attr_mode_bounds_lib [of pf "mounts g FuseRead" s n] by (metis (full_types))
  have e: "?m AND 0x12 = (?m AND 0x1FF AND 0x17) AND 0x12" "?m AND 0x12 = (?m AND 0x1FF AND 0x12) AND 0x12"
    "?m AND 0x12 = (?m AND 0x36) AND 0x12"
    by (simp_all add: and.assoc)
  show ?thesis
  proof (cases "?m AND 0x36 = 0")
    case True
    show ?thesis unfolding e(3) True by simp
  next
    case False
    then have z: "?m AND 0x1FF AND mask (mounts g FuseRead) = 0" using b by blast
    from mk show ?thesis
    proof
      assume "mask (mounts g FuseRead) = 0x17"
      with z have "?m AND 0x1FF AND 0x17 = 0" by metis
      then show ?thesis unfolding e(1) by simp
    next
      assume "mask (mounts g FuseRead) = 0x12"
      with z have "?m AND 0x1FF AND 0x12 = 0" by metis
      then show ?thesis unfolding e(2) by simp
    qed
  qed
qed

theorem read_view_not_writable_witness:
  "a_mode (attr_from_stat demo_platform (mounts demo_glob FuseRead) demo_stat demo_node) AND 0x12 = 0"
  by (rule read_view_not_writable [where multi = True and full = False and fds = "\<lambda>v. Some 7" and
      ok = "\<lambda>v. True" and ?g0.0 = demo_start]) (simp add: demo_glob_def run_mounts_spec)




















text \<open>C7: a reload of the package list, whatever the parser delivers, returns, installs exactly the
  parsed map, and rederives the owner and the permissions of every node from it: no node keeps an
  owner from the old list. The tree, names and reference counts stay as they are.\<close>

theorem package_reload_settles:
  assumes "winv pf K w"
  shows "\<exists>rc g. read_package_list pf parser (glob w) = Some (rc, g) \<and>
    (rc, package_to_appid g) = parser package_parse_callback [] \<and>
    (\<forall>q. settled pf g (nodes g) q) \<and> winv pf K (w\<lparr>glob := g\<rparr>) \<and> same_links (heap_of w) (nodes g)"
proof -
  obtain rc g where g: "read_package_list pf parser (glob w) = Some (rc, g)" "ginv pf K g" "names (nodes g)"
    "rc = fst (parser package_parse_callback [])" "package_to_appid g = snd (parser package_parse_callback [])"
    "reheaped (nodes (glob w)) (nodes g)"
    using read_package_list_ok [OF winvD(1,2) [OF assms, unfolded heap_of_def]] by blast
  have "(rc, package_to_appid g) = parser package_parse_callback []" using g(4,5) by simp
  moreover have "settled pf g (nodes g) q" for q by (rule ginvD(5) [OF g(2)])
  moreover have "winv pf K (w\<lparr>glob := g\<rparr>)" using g(2,3) by (simp add: winv_def heap_of_def)
  ultimately show ?thesis using g(1) reheaped_links [OF g(6)] unfolding heap_of_def by blast
qed

theorem package_reload_settles_witness:
  "\<exists>rc g. read_package_list demo_platform (\<lambda>cb m. cb \<lparr>pkg_name = ''com.example'', pkg_uid = 10001\<rparr> m) demo_glob = Some (rc, g) \<and>
     package_to_appid g = [(''com.example'', 10001)]"
  using package_reload_settles [OF demo_winv,
      of "\<lambda>cb m. cb \<lparr>pkg_name = ''com.example'', pkg_uid = 10001\<rparr> m"]
  by (auto simp: demo_world_simps package_parse_callback_def appid_emplace_def appid_find_def)

section \<open>Operations\<close>

text \<open>A lookup that found a node finds it again after the node was acquired or put first in the list.\<close>

lemma find_child_acquired:
  assumes "find_child h nm q = Some c" "\<And>p n. h p = Some n \<Longrightarrow> \<exists>m. h' p = Some m \<and> next_node m = next_node n \<and> name m = name n \<and> deleted m = deleted n"
  shows "find_child h' nm q = Some c"
proof (rule find_child.raw_induct [where P = "\<lambda>k nm q c. k = h \<longrightarrow> find_child h' nm q = Some c", OF _ assms(1), THEN mp, OF _ refl])
  fix rec :: "heap \<Rightarrow> string \<Rightarrow> ptr \<Rightarrow> ptr option" and k nm q c
  assume IH: "\<And>k nm q c. rec k nm q = Some c \<Longrightarrow> k = h \<longrightarrow> find_child h' nm q = Some c"
    and c: "(if q = 0 then Some 0 else do { n \<leftarrow> deref k q; if nm = name n \<and> \<not> deleted n then Some q else rec k nm (next_node n) }) = Some c"
  show "k = h \<longrightarrow> find_child h' nm q = Some c"
  proof
    assume k: "k = h"
    show "find_child h' nm q = Some c"
    proof (cases "q = 0")
      case False
      then obtain n where n: "h q = Some n" "(if nm = name n \<and> \<not> deleted n then Some q else rec h nm (next_node n)) = Some c"
        using c k by (auto simp: fault_simps deref_def)
      obtain m where "h' q = Some m" "next_node m = next_node n" "name m = name n" "deleted m = deleted n"
        using assms(2) [OF n(1)] by blast
      then show ?thesis using n(2) False IH [of h nm "next_node n" c] find_child.simps [of h' nm q]
        by (auto simp: deref_def split: if_splits)
    qed (use c find_child.simps [of h' nm q] in simp)
  qed
qed

lemma acquired_found_again:
  assumes "lookup_child_by_name_locked h par nm = Some c" "acquire_node_locked h c = Some h'"
  shows "lookup_child_by_name_locked h' par nm = Some c"
proof -
  obtain n where n: "par \<noteq> 0" "h par = Some n" "find_child h nm (child n) = Some c"
    using assms(1) by (auto simp: lookup_child_by_name_locked_def deref_def fault_simps split: if_splits)
  have keep: "\<exists>m. h' p = Some m \<and> next_node m = next_node k \<and> name m = name k \<and> deleted m = deleted k \<and> child m = child k"
    if "h p = Some k" for p k
    using assms(2) that by (auto simp: acquire_node_locked_def modify_def deref_def split: if_splits)
  then have "find_child h' nm (child n) = Some c" by (intro find_child_acquired [OF n(3)]) blast
  then show ?thesis using keep [OF n(2)] n(1) by (auto simp: lookup_child_by_name_locked_def deref_def)
qed

lemma added_is_first:
  assumes "add_node_to_parent_locked h p par = Some h'"
  shows "\<exists>a. par \<noteq> 0 \<and> h' par = Some a \<and> child a = p"
  using assms by (auto simp: add_node_to_parent_locked_def acquire_node_locked_def modify_def deref_def fault_simps split: if_splits)

lemma created_found:
  assumes "acquire_or_create_child_locked pf g par nm act = Some (p, g')" "p \<noteq> 0"
    and n: "nodes g' p = Some n" "name n = nm" "\<not> deleted n"
  shows "lookup_child_by_name_locked (nodes g') par nm = Some p"
proof -
  obtain c where c: "lookup_child_by_name_locked (nodes g) par nm = Some c"
    and r: "(if c \<noteq> 0 then do { h \<leftarrow> acquire_node_locked (nodes g) c; Some (c, g\<lparr>nodes := h\<rparr>) }
      else create_node_locked pf g par nm act) = Some (p, g')"
    using assms(1) by (auto simp: acquire_or_create_child_locked_def fault_simps)
  show ?thesis
  proof (cases "c = 0")
    case False
    then show ?thesis using r c by (auto simp: fault_simps intro: acquired_found_again)
  next
    case True
    then have cr: "create_node_locked pf g par nm act = Some (p, g')" using r by simp
    obtain h2 where "add_node_to_parent_locked h2 p par = Some (nodes g')"
      using cr assms(2) by (auto simp: create_node_locked_def Let_def fault_simps split: if_splits)
    then obtain a where "par \<noteq> 0" "nodes g' par = Some a" "child a = p" using added_is_first by blast
    then show ?thesis using n assms(2)
      by (simp add: lookup_child_by_name_locked_def deref_def find_child.simps [of _ _ p])
  qed
qed

text \<open>C10: when an entry is looked up or created, the operation returns; it either fails and leaves the
  state as it was, or hands out a live node of that name in that directory, which is the very node a
  later lookup of the name returns, whose inode number no other node has, and on which one more
  reference is counted.\<close>

theorem create_then_lookup:
  assumes "ginv pf K g" "nodes g par \<noteq> None" "room 2 (nodes g)" "alloc_fresh pf"
  shows "\<exists>p g'. acquire_or_create_child_locked pf g par nm act = Some (p, g') \<and>
    (if p = 0 then g' = g
     else ginv pf (K(p := K p + 1)) g' \<and>
       (\<exists>n. nodes g' p = Some n \<and> name n = nm \<and> parent n = par \<and> \<not> deleted n \<and>
          lookup_child_by_name_locked (nodes g') par nm = Some p \<and>
          (\<forall>q m. nodes g' q = Some m \<and> q \<noteq> root_ptr \<and> ino m = ino n \<longrightarrow> q = p)))"
proof -
  obtain pn where pn: "nodes g par = Some pn" using assms(2) by blast
  obtain p g' where p: "acquire_or_create_child_locked pf g par nm act = Some (p, g')" "p = 0 \<Longrightarrow> g' = g"
    "p \<noteq> 0 \<Longrightarrow> ginv pf (K(p := K p + 1)) g' \<and>
       (\<exists>n. nodes g' p = Some n \<and> name n = nm \<and> \<not> deleted n \<and> parent n = par \<and> nid n = ptr_to_id p \<and> p \<noteq> 1)"
    using acquire_or_create_ginv [OF assms(1) pn assms(3,4)] by blast
  show ?thesis
  proof (cases "p = 0")
    case True
    then show ?thesis using p(1,2) by auto
  next
    case False
    then obtain n where n: "ginv pf (K(p := K p + 1)) g'" "nodes g' p = Some n" "name n = nm" "\<not> deleted n" "parent n = par"
      using p(3) by blast
    have "par \<noteq> 0" using pn ginvD(1) [OF assms(1)] by auto
    then have pr: "p \<noteq> root_ptr" using n(2,5) shape_root [OF ginvD(1) [OF n(1)]] by auto
    have "q = p" if "nodes g' q = Some m" "q \<noteq> root_ptr" "ino m = ino n" for q m
      using ginvD(4) [OF n(1)] that n(2) pr unfolding ids_ok_def by metis
    then show ?thesis using p(1) False n created_found [OF p(1) False n(2-4)]
      by (intro exI [of _ p] exI [of _ g']) (simp, blast)
  qed
qed

theorem create_then_lookup_witness:
  "\<exists>g'. acquire_or_create_child_locked demo_platform demo_glob root_ptr ''0'' ''0'' = Some (0x1000, g') \<and>
     lookup_child_by_name_locked (nodes g') root_ptr ''0'' = Some 0x1000"
proof -
  have "room 2 (nodes demo_glob)" using demo_room by (fastforce simp: room_def heap_of_def demo_world_simps)
  moreover have "ginv demo_platform root_refs demo_glob" using winvD(1) [OF demo_winv] by (simp add: demo_world_simps)
  moreover have "nodes demo_glob root_ptr \<noteq> None" by (simp add: demo_world_simps demo_start_nodes)
  moreover obtain g where "acquire_or_create_child_locked demo_platform demo_glob root_ptr ''0'' ''0'' = Some (0x1000, g)"
    using demo_create demo_child by (auto simp: acquire_or_create_child_locked_def heap_of_def demo_world_simps)
  ultimately show ?thesis
    using create_then_lookup [of demo_platform root_refs demo_glob root_ptr "''0''" "''0''"] demo_alloc by auto
qed

text \<open>C12: removing a name marks its node as deleted and keeps it for the kernel: the operation
  returns 0, the name no longer leads to that node, the other three views and only they are told,
  and the state invariant holds with the same kernel references.\<close>

theorem removed_name_gone:
  assumes "winv pf K w" "heap_of w par \<noteq> None"
    "lookup_child_by_name_locked (heap_of w) par nm = Some c" "c \<noteq> 0"
  shows "\<exists>w' n d. mark_deleted v par nm w = Some (0, w') \<and> heap_of w' c = Some n \<and> deleted n \<and>
    lookup_child_by_name_locked (heap_of w') par nm = Some d \<and> d \<noteq> c \<and>
    map fst (drop (length (outbox w)) (outbox w')) = filter (\<lambda>u. u \<noteq> v) [FuseDefault, FuseRead, FuseWrite, FuseFull] \<and>
    winv pf K w'"
proof -
  note sh = winvD(3) [OF assms(1)]
  obtain n where n: "heap_of w c = Some n"
    using lookup_child_ok [OF sh assms(2), of nm] assms(3,4) by (auto simp: kids_def)
  let ?h = "(heap_of w)(c \<mapsto> n\<lparr>deleted := True\<rparr>)"
  have g: "ginv pf K ((glob w)\<lparr>nodes := ?h\<rparr>)"
    using ginv_deleted [OF winvD(1) [OF assms(1)]] n by (simp add: heap_of_def)
  have nms: "names ?h" using winvD(2) [OF assms(1)] n namesD by (intro names_upd) fastforce+
  have shh: "shape {} ?h" using ginvD(1) [OF g] by simp
  obtain pn where pn: "?h par = Some pn" using assms(2) by (cases "par = c") auto
  obtain d where d: "lookup_child_by_name_locked ?h par nm = Some d" "d \<noteq> 0 \<Longrightarrow> live_named ?h nm d"
    using lookup_child_ok [OF shh, of par nm] pn by (metis option.distinct(1))
  have dc: "d \<noteq> c" using d(2) assms(4) by (auto simp: live_named_def)
  let ?w = "notify_others v (nid pn) (nid n) nm (set_heap ?h w)"
  have "mark_deleted v par nm w = Some (0, ?w)"
    using assms(3,4) n pn deref_shape [OF sh] deref_shape [OF shh] by (simp add: mark_deleted_def modify_def)
  moreover have "heap_of ?w = ?h" by (simp add: heap_of_def set_heap_def)
  moreover have "winv pf K ?w" using g nms by (simp add: winv_def heap_of_def set_heap_def)
  moreover have "map fst (drop (length (outbox w)) (outbox ?w)) =
      filter (\<lambda>u. u \<noteq> v) [FuseDefault, FuseRead, FuseWrite, FuseFull]"
    by (simp only: notify_others_outbox set_heap_outbox append_eq_conv_conj drop_append) (simp add: comp_def)
  ultimately show ?thesis using d(1) dc by (intro exI [of _ ?w] exI [of _ "n\<lparr>deleted := True\<rparr>"] exI [of _ d]) auto
qed

theorem removed_name_gone_witness:
  "\<exists>K w w' c. reachable demo_platform demo_sys K w \<and> lookup_child_by_name_locked (heap_of w) root_ptr ''0'' = Some c \<and>
     c \<noteq> 0 \<and> mark_deleted FuseRead root_ptr ''0'' w = Some (0, w') \<and>
     map fst (drop (length (outbox w)) (outbox w')) = [FuseDefault, FuseWrite, FuseFull]"
proof -
  obtain K w where w: "reachable demo_platform demo_sys K w" "heap_of w 0x1000 = Some demo_node"
    using demo_child_world by blast
  note i = reachable_winv [OF w(1) demo_alloc]
  have r: "heap_of w root_ptr \<noteq> None" using root_live [OF i] by auto
  have "0x1000 \<in> kids {} (heap_of w) root_ptr" "live_named (heap_of w) ''0'' 0x1000"
    using w(2) by (auto simp: kids_def live_named_def demo_node_def)
  then obtain c where c: "lookup_child_by_name_locked (heap_of w) root_ptr ''0'' = Some c" "c \<noteq> 0"
    using lookup_child_ok [OF winvD(3) [OF i] r, of "''0''"] by metis
  obtain w' n d where "mark_deleted FuseRead root_ptr ''0'' w = Some (0, w')"
    "map fst (drop (length (outbox w)) (outbox w')) = filter (\<lambda>u. u \<noteq> FuseRead) [FuseDefault, FuseRead, FuseWrite, FuseFull]"
    using removed_name_gone [OF i r c, of FuseRead] by blast
  then show ?thesis using w(1) c by (intro exI [of _ K] exI [of _ w] exI [of _ w'] exI [of _ c]) simp
qed

text \<open>C11: the commit of a rename returns; when it reports success the node is found in the new
  directory under the new name and its subtree has been given the permissions of its new place, when
  it reports an error, which is \<open>ENOMEM\<close> for the name, the whole state is as it was; in both cases
  the state invariant and the kernel's references are kept.\<close>

theorem rename_moves_node:
  assumes "winv pf K w" "heap_of w c = Some n" "c \<noteq> root_ptr" "0 < K (parent n)"
    "heap_of w np \<noteq> None" "(c, np) \<notin> (prel {} (heap_of w))\<^sup>*" "room 2 (heap_of w)" "length act = length nm"
  shows "\<exists>res w'. rename_commit pf c np nm act w = Some (res, w') \<and> winv pf K w' \<and> outbox w' = outbox w \<and>
    (\<forall>q. settled pf (glob w') (heap_of w') q) \<and>
    (res = 0 \<longrightarrow> (\<exists>m. heap_of w' c = Some m \<and> parent m = np \<and> name m = nm \<and> deleted m = deleted n)) \<and>
    (res \<noteq> 0 \<longrightarrow> res = - ENOMEM \<and> w' = w)"
proof -
  obtain r where r: "rename_commit pf c np nm act w = Some r" "winv pf K (snd r)" "outbox (snd r) = outbox w"
    "fst r = 0 \<longrightarrow> (\<exists>m. heap_of (snd r) c = Some m \<and> parent m = np \<and> name m = nm \<and> deleted m = deleted n)"
    "fst r \<noteq> 0 \<longrightarrow> fst r = - ENOMEM \<and> snd r = w"
    using rename_commit_ok [OF assms] by (auto elim!: ensuresE)
  have "settled pf (glob (snd r)) (heap_of (snd r)) q" for q
    using ginvD(5) [OF winvD(1) [OF r(2)]] by (simp add: heap_of_def)
  then show ?thesis using r by (intro exI [of _ "fst r"] exI [of _ "snd r"]) simp
qed

lemma root_no_ancestor:
  assumes "shape {} h" "c \<noteq> root_ptr" "c \<noteq> 0"
  shows "(c, root_ptr) \<notin> (prel {} h)\<^sup>*"
proof
  assume "(c, root_ptr) \<in> (prel {} h)\<^sup>*"
  then obtain x where "(c, x) \<in> (prel {} h)\<^sup>*" "(x, root_ptr) \<in> prel {} h" using assms(2) by (auto elim: rtranclE)
  then have c0: "(c, 0) \<in> (prel {} h)\<^sup>*" using shape_root [OF assms(1)] by (auto simp: prel_def kids_def)
  from c0 show False by (rule rtranclE) (use assms(1,3) in \<open>auto simp: prel_def kids_def\<close>)
qed

theorem rename_moves_node_witness:
  "\<exists>K w res w'. reachable demo_platform demo_sys K w \<and>
     rename_commit demo_platform 0x1000 root_ptr ''10'' ''10'' w = Some (res, w') \<and> winv demo_platform K w'"
proof -
  obtain K w where w: "reachable demo_platform demo_sys K w" "heap_of w 0x1000 = Some demo_node" "room 3 (heap_of w)"
    using demo_child_world by blast
  note i = reachable_winv [OF w(1) demo_alloc]
  have r: "heap_of w root_ptr \<noteq> None" using root_live [OF i] by auto
  have "(0x1000, root_ptr) \<notin> (prel {} (heap_of w))\<^sup>*"
    by (rule root_no_ancestor [OF winvD(3) [OF i]]) (simp_all add: root_ptr_def)
  moreover have "0 < K (parent demo_node)" using ginvD(3) [OF winvD(1) [OF i]] by (simp add: demo_node_def)
  moreover have "room 2 (heap_of w)" using w(3) by (fastforce simp: room_def)
  moreover have "(0x1000 :: ptr) \<noteq> root_ptr" by (simp add: root_ptr_def)
  ultimately show ?thesis using rename_moves_node [OF i w(2) _ _ r, where nm = "''10''" and act = "''10''"] w(1)
    by (metis (no_types, lifting))
qed

text \<open>C13: at the top of a volume the names \<open>autorun.inf\<close>, \<open>.android_secure\<close> and \<open>android_secure\<close>, in
  any case, can be neither looked up, created nor removed: the request ends in \<open>EACCES\<close> (or \<open>ENOENT\<close>
  when the path does not fit), with no reply data and no change of the nodes.\<close>

theorem blocked_names_refused:
  assumes "winv pf K w" "held K (nodeid hdr)" "heap_of w (lookup_node_by_id_locked (nodeid hdr)) = Some n"
    "perm n = PERM_ROOT" "\<exists>b\<in>{''autorun.inf'', ''.android_secure'', ''android_secure''}. strcaseeq nm b"
    "req \<in> {LOOKUP nm, MKNOD md rdev nm, MKDIR md nm, UNLINK nm, RMDIR nm}"
  shows "\<exists>res f. handle_fuse_request pf S v hdr req w = Some (res, w\<lparr>fs := f\<rparr>) \<and> res \<in> {- EACCES, - ENOENT}"
proof -
  let ?p = "lookup_node_by_id_locked (nodeid hdr)"
  have pz: "?p \<noteq> 0" using assms(1,3) winvD(3) by (metis option.distinct(1) shape_null)
  have no: "check_caller_access_to_name (heap_of w) hdr ?p nm m = Some False" for m
    using assms(3-5) pz by (auto simp: check_caller_access_to_name_def deref_def)
  obtain s where "lookup_node_and_path_by_id_locked (heap_of w) (nodeid hdr) PATH_MAX =
      Some (if length s < PATH_MAX then (?p, s) else (0, []))"
    using lookup_path_total [OF winvD(3,2) [OF assms(1)] held_live [OF assms(1,2)]] by blast
  then consider (short) "lookup_node_and_path_by_id_locked (heap_of w) (nodeid hdr) PATH_MAX = Some (?p, s)"
    | (long) "lookup_node_and_path_by_id_locked (heap_of w) (nodeid hdr) PATH_MAX = Some (0, [])"
    by (cases "length s < PATH_MAX") simp_all
  then show ?thesis
  proof cases
    case short
    obtain r f1 where f: "find_file_within S s nm PATH_MAX True (fs w) = (r, f1)" by fastforce
    show ?thesis using assms(6) short f no pz
      by (cases r) (auto simp: handle_lookup_def handle_mknod_def handle_mkdir_def handle_unlink_def
          handle_rmdir_def Let_def)
  next
    case long
    have "\<exists>f. w = w\<lparr>fs := f\<rparr>" by (rule exI [of _ "fs w"]) simp
    then show ?thesis using assms(6) long
      by (auto simp: handle_lookup_def handle_mknod_def handle_mkdir_def handle_unlink_def handle_rmdir_def)
  qed
qed

definition demo_single :: "unit world" where
  "demo_single = start_world (the (run_init demo_platform ''/mnt/media_rw/sd'' ''sd'' 1023 1023 0 False)) ()"

theorem blocked_names_refused_witness:
  "\<exists>res f. handle_fuse_request demo_platform demo_sys FuseFull demo_hdr (MKDIR 0x1FF ''AutoRun.inf'') demo_single =
     Some (res, demo_single\<lparr>fs := f\<rparr>) \<and> res \<in> {- EACCES, - ENOENT}"
proof -
  obtain g where g: "run_init demo_platform ''/mnt/media_rw/sd'' ''sd'' 1023 1023 0 False = Some g"
    by (simp add: run_init_def)
  have w: "winv demo_platform root_refs demo_single"
    using run_init_ginv [OF g] g by (simp add: demo_single_def winv_def start_world_def heap_of_def)
  obtain n where n: "heap_of demo_single root_ptr = Some n" "perm n = PERM_ROOT"
    by (simp add: demo_single_def start_world_def heap_of_def run_init_def)
  have "strcaseeq ''AutoRun.inf'' ''autorun.inf''" by code_simp
  then show ?thesis
    by (intro blocked_names_refused [OF w, where n = n and nm = "''AutoRun.inf''" and md = "0x1FF"])
      (use n in \<open>auto simp: held_def demo_root root_refs_def\<close>)
qed

text \<open>C16: what a read request hands back never exceeds the 128 KiB of the read buffer that overlaps
  the request buffer, and a larger request is refused before anything is read.\<close>

theorem read_within_buffer:
  assumes "handles w (id_to_ptr fh) = Some fd"
    "\<And>n off f data f'. sys_pread64 S fd n off f = (Inr data, f') \<Longrightarrow> length data \<le> n"
  shows "\<exists>res w'. handle_read S v hdr fh sz offset w = Some (res, w') \<and>
    (if MAX_READ < unat sz then res = - EINVAL \<and> w' = w
     else \<forall>m\<in>set (drop (length (outbox w)) (outbox w')). out_len (snd m) \<le> MAX_READ + sizeof_out_header)"
proof (cases "MAX_READ < unat sz")
  case True
  then show ?thesis by (simp add: handle_read_def)
next
  case False
  obtain r f1 where p: "sys_pread64 S fd (unat sz) offset (fs w) = (r, f1)" by fastforce
  show ?thesis
  proof (cases r)
    case (Inl e)
    then show ?thesis using False p assms(1) by (simp add: handle_read_def)
  next
    case (Inr d)
    then have "length d \<le> MAX_READ" using assms(2) p False by (meson le_trans not_le_imp_less)
    then show ?thesis using False p assms(1) Inr by (simp add: handle_read_def fuse_reply_def emit_def)
  qed
qed

theorem read_within_buffer_witness:
  "\<exists>res w'. handle_read demo_sys FuseRead demo_hdr 0x2000 0x30000 0 (demo_world\<lparr>handles := [0x2000 \<mapsto> 3]\<rparr>) = Some (res, w') \<and>
     res = - EINVAL"
  using read_within_buffer [where w = "demo_world\<lparr>handles := [0x2000 \<mapsto> 3]\<rparr>" and fh = "0x2000" and fd = 3
      and S = demo_sys and v = FuseRead and hdr = demo_hdr and sz = "0x30000" and offset = 0]
  by (auto simp: id_to_ptr_def demo_sys_def)

section \<open>Start-up and the package list\<close>

text \<open>C17: the loop over a buffer of inotify events stops, reads every event the kernel packed into
  the buffer, and drops the watch exactly when one of them says that the watched file is gone.\<close>

theorem inotify_loop_reads_all:
  assumes "\<forall>e\<in>set evs. 16 + length (ev_name e) < 2 ^ 31"
  shows "inotify_events (concat (map put_event evs)) 0 (int (length (concat (map put_event evs)))) active =
    Some (active \<and> \<not> list_ex ignored evs)"
  using inotify_events_spec [OF assms, of "[]"] by simp

theorem inotify_loop_reads_all_witness:
  "inotify_events (put_event \<lparr>ev_wd = 1, ev_mask = 0x8000, ev_cookie = 0, ev_name = []\<rparr>) 0 16 True = Some False"
  using inotify_loop_reads_all [of "[\<lparr>ev_wd = 1, ev_mask = 0x8000, ev_cookie = 0, ev_name = []\<rparr>]" True]
  by (simp add: put_event_length ignored_def)

lemma wait_layout_version: "wait_layout vs \<Longrightarrow> \<exists>v. Some v \<in> set vs \<and> 3 \<le> v"
  by (induction vs) (force split: option.splits if_splits)+

text \<open>C18: the command line never starts the daemon as root or without its two arguments, and waits
  until the storage layout has reached version 3.\<close>

theorem sdcard_main_guards:
  assumes "sdcard_main opts args versions use \<notin> {Usage, StillWaiting}"
  shows "\<exists>source label so. args = [source, label] \<and> sdcard_getopts opts \<lparr>o_uid = 0, o_gid = 0, o_userid = 0,
      o_multi = False, o_full_write = False, o_derive_gid = False\<rparr> = Some so \<and> o_uid so \<noteq> 0 \<and> o_gid so \<noteq> 0 \<and>
    (\<exists>v. Some v \<in> set versions \<and> 3 \<le> v)"
  using assms wait_layout_version unfolding sdcard_main_def
  by (auto split: option.splits list.splits if_splits)

theorem sdcard_main_guards_witness:
  "\<exists>source label so. [''/data/media'', ''emulated''] = [source, label] \<and>
     sdcard_getopts [(CHR ''u'', ''1023''), (CHR ''g'', ''1023'')] \<lparr>o_uid = 0, o_gid = 0, o_userid = 0,
      o_multi = False, o_full_write = False, o_derive_gid = False\<rparr> = Some so \<and> o_uid so \<noteq> 0 \<and> o_gid so \<noteq> 0"
proof -
  have "sdcard_main [(CHR ''u'', ''1023''), (CHR ''g'', ''1023'')] [''/data/media'', ''emulated''] [None, Some 3] False
    \<notin> {Usage, StillWaiting}"
    by (simp add: sdcard_main_def strtoul10_def isspace_def isdigit_def digits_value_def)
  from sdcard_main_guards [OF this] show ?thesis by blast
qed

text \<open>C19: deriving permissions never takes a graft path away: a node that was \<open>Android/obb\<close> keeps
  resolving to the shared obb directory after it has been moved out of \<open>Android\<close>, whatever its new
  name and parent.\<close>

theorem stale_graft_path:
  assumes "names_ok n" "graft_path n = Some s" "perm pn \<noteq> PERM_ANDROID"
    "h p = Some ((derive_permissions pf g pn n)\<lparr>parent := q, next_node := r\<rparr>)" "p \<noteq> 0" "length s < bufsize"
  shows "get_node_path_locked h p bufsize = Some (Some s)"
proof -
  have "graft_path (derive_permissions pf g pn n) = Some s" "graft_pathlen (derive_permissions pf g pn n) = length s"
    using assms(1-3) by (cases "perm pn"; simp add: derive_permissions_def Let_def names_ok_def split: option.split)+
  then show ?thesis using assms(4-6)
    by (simp add: get_node_path_locked.simps [of h p] deref_def stored_name_def)
qed

theorem stale_graft_path_witness:
  "get_node_path_locked [0x2000 \<mapsto> (derive_permissions demo_platform demo_glob demo_node
     (demo_node\<lparr>graft_path := Some ''/data/media/obb'', graft_pathlen := 15\<rparr>))\<lparr>parent := 0x1000, next_node := 0\<rparr>] 0x2000 64 =
   Some (Some ''/data/media/obb'')"
  by (rule stale_graft_path [where pn = demo_node and n = "demo_node\<lparr>graft_path := Some ''/data/media/obb'', graft_pathlen := 15\<rparr>"])
    (simp_all add: demo_node_def names_ok_def)

end
