(* ===== verification/Hci_Env.thy ===== *)
theory Hci_Env
  imports Codec
begin

text \<open>
  The vocabulary of the Bluetooth sources. Their constants and stream macros come from headers that
  are not part of the repository (\<open>hcidefs.h\<close>, \<open>hcimsgs.h\<close>, \<open>bt_types.h\<close>,
  \<open>bt_target.h\<close>), so the record \<open>hci_hdrs\<close> stands for what those headers define and every
  definition that uses a constant or a macro takes it as an argument. What the code relies on is the
  predicate \<open>hdrs_ok\<close>: the documented values of the Bluetooth Core Specification and the
  documented effect of the macros.

  A \<open>BT_HDR\<close> is a header followed by its data area; a byte that was allocated and never
  written is \<open>None\<close>. Building a packet moves a cursor through the data area, and a write past
  its end is a fault.
\<close>

named_theorems stream_simps \<open>running stream writers\<close>

section \<open>Names of the header constants\<close>

datatype (plugins only: code) hci_op =
    HCI_BLE_WRITE_LOCAL_SPT_FEAT | HCI_BLE_WRITE_RANDOM_ADDR | HCI_BLE_WRITE_ADV_PARAMS
  | HCI_BLE_READ_ADV_CHNL_TX_POWER | HCI_BLE_WRITE_ADV_DATA | HCI_BLE_WRITE_SCAN_RSP_DATA
  | HCI_BLE_WRITE_ADV_ENABLE | HCI_BLE_WRITE_SCAN_PARAMS | HCI_BLE_WRITE_SCAN_ENABLE
  | HCI_BLE_CREATE_LL_CONN | HCI_BLE_CREATE_CONN_CANCEL | HCI_BLE_CLEAR_WHITE_LIST
  | HCI_BLE_ADD_WHITE_LIST | HCI_BLE_REMOVE_WHITE_LIST | HCI_BLE_UPD_LL_CONN_PARAMS
  | HCI_BLE_SET_HOST_CHNL_CLASS | HCI_BLE_READ_CHNL_MAP | HCI_BLE_READ_REMOTE_FEAT
  | HCI_BLE_ENCRYPT | HCI_BLE_RAND | HCI_BLE_START_ENC | HCI_BLE_LTK_REQ_REPLY
  | HCI_BLE_LTK_REQ_NEG_REPLY | HCI_BLE_RECEIVER_TEST | HCI_BLE_TRANSMITTER_TEST
  | HCI_BLE_TEST_END | HCI_READ_LE_HOST_SUPPORT | HCI_BLE_RC_PARAM_REQ_REPLY
  | HCI_BLE_RC_PARAM_REQ_NEG_REPLY | HCI_BLE_ADD_DEV_RESOLVING_LIST
  | HCI_BLE_RM_DEV_RESOLVING_LIST | HCI_BLE_SET_PRIVACY_MODE | HCI_BLE_CLEAR_RESOLVING_LIST
  | HCI_BLE_READ_RESOLVABLE_ADDR_PEER | HCI_BLE_READ_RESOLVABLE_ADDR_LOCAL
  | HCI_BLE_SET_ADDR_RESOLUTION_ENABLE | HCI_BLE_SET_RAND_PRIV_ADDR_TIMOUT
  | HCI_BLE_SET_DATA_LENGTH | HCI_BLE_ENH_RECEIVER_TEST | HCI_BLE_ENH_TRANSMITTER_TEST
  | HCI_LE_SET_EXTENDED_SCAN_PARAMETERS | HCI_LE_SET_EXTENDED_SCAN_ENABLE
  | HCI_LE_EXTENDED_CREATE_CONNECTION

datatype (plugins only: code) hci_br_op =
    HCI_INQUIRY | HCI_INQUIRY_CANCEL | HCI_CREATE_CONNECTION | HCI_DISCONNECT
  | HCI_CREATE_CONNECTION_CANCEL | HCI_ACCEPT_CONNECTION_REQUEST | HCI_REJECT_CONNECTION_REQUEST
  | HCI_LINK_KEY_REQUEST_REPLY | HCI_LINK_KEY_REQUEST_NEG_REPLY | HCI_AUTHENTICATION_REQUESTED
  | HCI_SET_CONN_ENCRYPTION | HCI_RMT_NAME_REQUEST | HCI_RMT_NAME_REQUEST_CANCEL
  | HCI_READ_RMT_EXT_FEATURES | HCI_SETUP_ESCO_CONNECTION | HCI_ACCEPT_ESCO_CONNECTION
  | HCI_REJECT_ESCO_CONNECTION | HCI_IO_CAPABILITY_REQUEST_REPLY | HCI_USER_CONF_REQUEST_REPLY
  | HCI_USER_CONF_VALUE_NEG_REPLY | HCI_USER_PASSKEY_REQ_REPLY | HCI_USER_PASSKEY_REQ_NEG_REPLY
  | HCI_REM_OOB_DATA_REQ_REPLY | HCI_REM_OOB_DATA_REQ_NEG_REPLY | HCI_IO_CAP_REQ_NEG_REPLY
  | HCI_ENH_SETUP_ESCO_CONNECTION | HCI_ENH_ACCEPT_ESCO_CONNECTION | HCI_HOLD_MODE
  | HCI_SNIFF_MODE | HCI_EXIT_SNIFF_MODE | HCI_PARK_MODE | HCI_EXIT_PARK_MODE | HCI_QOS_SETUP
  | HCI_SWITCH_ROLE | HCI_SET_EVENT_FILTER | HCI_DELETE_STORED_LINK_KEY | HCI_READ_LOCAL_NAME
  | HCI_READ_AUTOMATIC_FLUSH_TIMEOUT | HCI_READ_TRANSMIT_POWER_LEVEL
  | HCI_WRITE_SIMPLE_PAIRING_MODE | HCI_READ_LOCAL_OOB_DATA | HCI_READ_INQ_TX_POWER_LEVEL
  | HCI_WRITE_SECURE_CONNS_SUPPORT | HCI_READ_FAILED_CONTACT_COUNTER | HCI_GET_LINK_QUALITY
  | HCI_READ_RSSI | HCI_READ_ENCR_KEY_SIZE

datatype hci_info_op =
    HCI_READ_LOCAL_VERSION_INFO | HCI_READ_LOCAL_SUPPORTED_CMDS | HCI_READ_LOCAL_EXT_FEATURES
  | HCI_READ_BUFFER_SIZE | HCI_READ_BD_ADDR | HCI_READ_LOCAL_SUPPORTED_CODECS
  | HCI_BLE_READ_BUFFER_SIZE | HCI_BLE_READ_LOCAL_SPT_FEAT | HCI_BLE_READ_WHITE_LIST_SIZE
  | HCI_BLE_READ_SUPPORTED_STATES | HCI_BLE_READ_DEFAULT_DATA_LENGTH
  | HCI_BLE_READ_RESOLVING_LIST_SIZE | HCI_BLE_READ_MAXIMUM_DATA_LENGTH
  | HCI_LE_READ_MAXIMUM_ADVERTISING_DATA_LENGTH | HCI_LE_READ_NUMBER_OF_SUPPORTED_ADVERTISING_SETS

datatype (plugins only: code) hcic_size =
    HCIC_PREAMBLE_SIZE | HCI_CMD_BUF_SIZE | BT_HDR_SIZE
  | HCIC_PARAM_SIZE_SET_USED_FEAT_CMD | HCIC_PARAM_SIZE_WRITE_RANDOM_ADDR_CMD
  | HCIC_PARAM_SIZE_BLE_WRITE_ADV_PARAMS | HCIC_PARAM_SIZE_READ_CMD
  | HCIC_PARAM_SIZE_BLE_WRITE_ADV_DATA | HCIC_PARAM_SIZE_BLE_WRITE_SCAN_RSP
  | HCIC_PARAM_SIZE_WRITE_ADV_ENABLE | HCIC_PARAM_SIZE_BLE_WRITE_SCAN_PARAM
  | HCIC_PARAM_SIZE_BLE_WRITE_SCAN_ENABLE | HCIC_PARAM_SIZE_BLE_CREATE_LL_CONN
  | HCIC_PARAM_SIZE_BLE_CREATE_CONN_CANCEL | HCIC_PARAM_SIZE_ADD_WHITE_LIST
  | HCIC_PARAM_SIZE_REMOVE_WHITE_LIST | HCIC_PARAM_SIZE_BLE_UPD_LL_CONN_PARAMS
  | HCIC_PARAM_SIZE_SET_HOST_CHNL_CLASS | HCIC_BLE_CHNL_MAP_SIZE | HCIC_PARAM_SIZE_READ_CHNL_MAP
  | HCIC_PARAM_SIZE_BLE_READ_REMOTE_FEAT | HCIC_PARAM_SIZE_BLE_ENCRYPT | HCIC_BLE_ENCRYT_KEY_SIZE
  | HCIC_PARAM_SIZE_BLE_START_ENC | HCIC_BLE_RAND_DI_SIZE | HCIC_PARAM_SIZE_LTK_REQ_REPLY
  | HCIC_PARAM_SIZE_LTK_REQ_NEG_REPLY | HCIC_PARAM_SIZE_WRITE_PARAM1 | HCIC_PARAM_SIZE_WRITE_PARAM3
  | HCIC_PARAM_SIZE_BLE_RC_PARAM_REQ_REPLY | HCIC_PARAM_SIZE_BLE_RC_PARAM_REQ_NEG_REPLY
  | HCIC_PARAM_SIZE_BLE_ADD_DEV_RESOLVING_LIST | HCIC_PARAM_SIZE_BLE_RM_DEV_RESOLVING_LIST
  | HCIC_PARAM_SIZE_BLE_SET_PRIVACY_MODE | HCIC_PARAM_SIZE_BLE_CLEAR_RESOLVING_LIST
  | HCIC_PARAM_SIZE_BLE_READ_RESOLVABLE_ADDR_PEER | HCIC_PARAM_SIZE_BLE_READ_RESOLVABLE_ADDR_LOCAL
  | HCIC_PARAM_SIZE_BLE_SET_ADDR_RESOLUTION_ENABLE | HCIC_PARAM_SIZE_BLE_SET_RAND_PRIV_ADDR_TIMOUT
  | HCIC_PARAM_SIZE_BLE_SET_DATA_LENGTH | HCIC_PARAM_SIZE_BLE_ENH_RX_TEST
  | HCIC_PARAM_SIZE_BLE_ENH_TX_TEST | BT_OCTET8_LEN

datatype hci_byte =
    HCI_SUCCESS | HCI_COMMAND_COMPLETE_EVT | HCI_COMMAND_STATUS_EVT | HCI_VENDOR_SPECIFIC_EVT
  | HCI_VSE_SUBCODE_DEBUG_INFO_SUB_EVT | HCI_VSE_SUBCODE_BQR_SUB_EVT
  | QUALITY_REPORT_ID_ROOT_INFLAMMATION | BLE_ADDR_RANDOM | BLE_ADDR_PUBLIC_ID
  | BLE_ADDR_RANDOM_ID | BLE_ADDR_ANONYMOUS

datatype hci_word =
    HCI_GRP_VENDOR_SPECIFIC | HCI_CONTROLLER_DEBUG_INFO_OCF | HCI_COMMAND_NONE | MSG_EVT_MASK
  | MSG_STACK_TO_HC_HCI_CMD | MSG_HC_TO_STACK_HCI_EVT | kRootInflammationPacketMinSize
  | STATUS_UNKNOWN | EVT_UNKNOWN | EVT_COMMAND_STATUS | EVT_COMMAND_COMPLETE
  | kUnknownConnectionHandle

type_synonym raw_address = bytes

record hci_hdrs =
  hci_opcode :: "hci_op \<Rightarrow> u16"
  hci_br_opcode :: "hci_br_op \<Rightarrow> u16"
  hci_info_opcode :: "hci_info_op \<Rightarrow> u16"
  hcic_const :: "hcic_size \<Rightarrow> nat"
  uint8_to_stream :: "u8 \<Rightarrow> bytes"
  uint16_to_stream :: "u16 \<Rightarrow> bytes"
  bdaddr_to_stream :: "raw_address \<Rightarrow> bytes"
  array_to_stream :: "bytes \<Rightarrow> nat \<Rightarrow> bytes"
  hci_byte :: "hci_byte \<Rightarrow> u8"
  hci_word :: "hci_word \<Rightarrow> u16"
  stream_to_uint16 :: "u8 \<Rightarrow> u8 \<Rightarrow> u16"
  stream_to_bdaddr :: "bytes \<Rightarrow> raw_address"

section \<open>The documented values\<close>

text \<open>The opcodes of the Core Specification: LE controller, link control and baseband, informational.\<close>

primrec core_opcode :: "hci_op \<Rightarrow> u16" where
  "core_opcode HCI_BLE_WRITE_LOCAL_SPT_FEAT = 0x2004"
| "core_opcode HCI_BLE_WRITE_RANDOM_ADDR = 0x2005"
| "core_opcode HCI_BLE_WRITE_ADV_PARAMS = 0x2006"
| "core_opcode HCI_BLE_READ_ADV_CHNL_TX_POWER = 0x2007"
| "core_opcode HCI_BLE_WRITE_ADV_DATA = 0x2008"
| "core_opcode HCI_BLE_WRITE_SCAN_RSP_DATA = 0x2009"
| "core_opcode HCI_BLE_WRITE_ADV_ENABLE = 0x200A"
| "core_opcode HCI_BLE_WRITE_SCAN_PARAMS = 0x200B"
| "core_opcode HCI_BLE_WRITE_SCAN_ENABLE = 0x200C"
| "core_opcode HCI_BLE_CREATE_LL_CONN = 0x200D"
| "core_opcode HCI_BLE_CREATE_CONN_CANCEL = 0x200E"
| "core_opcode HCI_BLE_CLEAR_WHITE_LIST = 0x2010"
| "core_opcode HCI_BLE_ADD_WHITE_LIST = 0x2011"
| "core_opcode HCI_BLE_REMOVE_WHITE_LIST = 0x2012"
| "core_opcode HCI_BLE_UPD_LL_CONN_PARAMS = 0x2013"
| "core_opcode HCI_BLE_SET_HOST_CHNL_CLASS = 0x2014"
| "core_opcode HCI_BLE_READ_CHNL_MAP = 0x2015"
| "core_opcode HCI_BLE_READ_REMOTE_FEAT = 0x2016"
| "core_opcode HCI_BLE_ENCRYPT = 0x2017"
| "core_opcode HCI_BLE_RAND = 0x2018"
| "core_opcode HCI_BLE_START_ENC = 0x2019"
| "core_opcode HCI_BLE_LTK_REQ_REPLY = 0x201A"
| "core_opcode HCI_BLE_LTK_REQ_NEG_REPLY = 0x201B"
| "core_opcode HCI_BLE_RECEIVER_TEST = 0x201D"
| "core_opcode HCI_BLE_TRANSMITTER_TEST = 0x201E"
| "core_opcode HCI_BLE_TEST_END = 0x201F"
| "core_opcode HCI_READ_LE_HOST_SUPPORT = 0x0C6C"
| "core_opcode HCI_BLE_RC_PARAM_REQ_REPLY = 0x2020"
| "core_opcode HCI_BLE_RC_PARAM_REQ_NEG_REPLY = 0x2021"
| "core_opcode HCI_BLE_SET_DATA_LENGTH = 0x2022"
| "core_opcode HCI_BLE_ADD_DEV_RESOLVING_LIST = 0x2027"
| "core_opcode HCI_BLE_RM_DEV_RESOLVING_LIST = 0x2028"
| "core_opcode HCI_BLE_CLEAR_RESOLVING_LIST = 0x2029"
| "core_opcode HCI_BLE_READ_RESOLVABLE_ADDR_PEER = 0x202B"
| "core_opcode HCI_BLE_READ_RESOLVABLE_ADDR_LOCAL = 0x202C"
| "core_opcode HCI_BLE_SET_ADDR_RESOLUTION_ENABLE = 0x202D"
| "core_opcode HCI_BLE_SET_RAND_PRIV_ADDR_TIMOUT = 0x202E"
| "core_opcode HCI_BLE_ENH_RECEIVER_TEST = 0x2033"
| "core_opcode HCI_BLE_ENH_TRANSMITTER_TEST = 0x2034"
| "core_opcode HCI_LE_SET_EXTENDED_SCAN_PARAMETERS = 0x2041"
| "core_opcode HCI_LE_SET_EXTENDED_SCAN_ENABLE = 0x2042"
| "core_opcode HCI_LE_EXTENDED_CREATE_CONNECTION = 0x2043"
| "core_opcode HCI_BLE_SET_PRIVACY_MODE = 0x204E"

primrec core_br_opcode :: "hci_br_op \<Rightarrow> u16" where
  "core_br_opcode HCI_INQUIRY = 0x0401"
| "core_br_opcode HCI_INQUIRY_CANCEL = 0x0402"
| "core_br_opcode HCI_CREATE_CONNECTION = 0x0405"
| "core_br_opcode HCI_DISCONNECT = 0x0406"
| "core_br_opcode HCI_CREATE_CONNECTION_CANCEL = 0x0408"
| "core_br_opcode HCI_ACCEPT_CONNECTION_REQUEST = 0x0409"
| "core_br_opcode HCI_REJECT_CONNECTION_REQUEST = 0x040A"
| "core_br_opcode HCI_LINK_KEY_REQUEST_REPLY = 0x040B"
| "core_br_opcode HCI_LINK_KEY_REQUEST_NEG_REPLY = 0x040C"
| "core_br_opcode HCI_AUTHENTICATION_REQUESTED = 0x0411"
| "core_br_opcode HCI_SET_CONN_ENCRYPTION = 0x0413"
| "core_br_opcode HCI_RMT_NAME_REQUEST = 0x0419"
| "core_br_opcode HCI_RMT_NAME_REQUEST_CANCEL = 0x041A"
| "core_br_opcode HCI_READ_RMT_EXT_FEATURES = 0x041C"
| "core_br_opcode HCI_SETUP_ESCO_CONNECTION = 0x0428"
| "core_br_opcode HCI_ACCEPT_ESCO_CONNECTION = 0x0429"
| "core_br_opcode HCI_REJECT_ESCO_CONNECTION = 0x042A"
| "core_br_opcode HCI_IO_CAPABILITY_REQUEST_REPLY = 0x042B"
| "core_br_opcode HCI_USER_CONF_REQUEST_REPLY = 0x042C"
| "core_br_opcode HCI_USER_CONF_VALUE_NEG_REPLY = 0x042D"
| "core_br_opcode HCI_USER_PASSKEY_REQ_REPLY = 0x042E"
| "core_br_opcode HCI_USER_PASSKEY_REQ_NEG_REPLY = 0x042F"
| "core_br_opcode HCI_REM_OOB_DATA_REQ_REPLY = 0x0430"
| "core_br_opcode HCI_REM_OOB_DATA_REQ_NEG_REPLY = 0x0433"
| "core_br_opcode HCI_IO_CAP_REQ_NEG_REPLY = 0x0434"
| "core_br_opcode HCI_ENH_SETUP_ESCO_CONNECTION = 0x043D"
| "core_br_opcode HCI_ENH_ACCEPT_ESCO_CONNECTION = 0x043E"
| "core_br_opcode HCI_HOLD_MODE = 0x0801"
| "core_br_opcode HCI_SNIFF_MODE = 0x0803"
| "core_br_opcode HCI_EXIT_SNIFF_MODE = 0x0804"
| "core_br_opcode HCI_PARK_MODE = 0x0805"
| "core_br_opcode HCI_EXIT_PARK_MODE = 0x0806"
| "core_br_opcode HCI_QOS_SETUP = 0x0807"
| "core_br_opcode HCI_SWITCH_ROLE = 0x080B"
| "core_br_opcode HCI_SET_EVENT_FILTER = 0x0C05"
| "core_br_opcode HCI_DELETE_STORED_LINK_KEY = 0x0C12"
| "core_br_opcode HCI_READ_LOCAL_NAME = 0x0C14"
| "core_br_opcode HCI_READ_AUTOMATIC_FLUSH_TIMEOUT = 0x0C27"
| "core_br_opcode HCI_READ_TRANSMIT_POWER_LEVEL = 0x0C2D"
| "core_br_opcode HCI_WRITE_SIMPLE_PAIRING_MODE = 0x0C56"
| "core_br_opcode HCI_READ_LOCAL_OOB_DATA = 0x0C57"
| "core_br_opcode HCI_READ_INQ_TX_POWER_LEVEL = 0x0C58"
| "core_br_opcode HCI_WRITE_SECURE_CONNS_SUPPORT = 0x0C7A"
| "core_br_opcode HCI_READ_FAILED_CONTACT_COUNTER = 0x1401"
| "core_br_opcode HCI_GET_LINK_QUALITY = 0x1403"
| "core_br_opcode HCI_READ_RSSI = 0x1405"
| "core_br_opcode HCI_READ_ENCR_KEY_SIZE = 0x1408"

primrec core_info_opcode :: "hci_info_op \<Rightarrow> u16" where
  "core_info_opcode HCI_READ_LOCAL_VERSION_INFO = 0x1001"
| "core_info_opcode HCI_READ_LOCAL_SUPPORTED_CMDS = 0x1002"
| "core_info_opcode HCI_READ_LOCAL_EXT_FEATURES = 0x1004"
| "core_info_opcode HCI_READ_BUFFER_SIZE = 0x1005"
| "core_info_opcode HCI_READ_BD_ADDR = 0x1009"
| "core_info_opcode HCI_READ_LOCAL_SUPPORTED_CODECS = 0x100B"
| "core_info_opcode HCI_BLE_READ_BUFFER_SIZE = 0x2002"
| "core_info_opcode HCI_BLE_READ_LOCAL_SPT_FEAT = 0x2003"
| "core_info_opcode HCI_BLE_READ_WHITE_LIST_SIZE = 0x200F"
| "core_info_opcode HCI_BLE_READ_SUPPORTED_STATES = 0x201C"
| "core_info_opcode HCI_BLE_READ_DEFAULT_DATA_LENGTH = 0x2023"
| "core_info_opcode HCI_BLE_READ_RESOLVING_LIST_SIZE = 0x202A"
| "core_info_opcode HCI_BLE_READ_MAXIMUM_DATA_LENGTH = 0x202F"
| "core_info_opcode HCI_LE_READ_MAXIMUM_ADVERTISING_DATA_LENGTH = 0x203A"
| "core_info_opcode HCI_LE_READ_NUMBER_OF_SUPPORTED_ADVERTISING_SETS = 0x203B"

text \<open>
  The parameter lengths of the Core Specification. \<open>HCI_CMD_BUF_SIZE\<close> only has to hold a
  packet header, a saved callback pointer and the largest HCI command (3 + 255 bytes); the value
  here is that of \<open>BT_SMALL_BUFFER_SIZE\<close>.
\<close>

primrec core_size :: "hcic_size \<Rightarrow> nat" where
  "core_size HCIC_PREAMBLE_SIZE = 3"
| "core_size HCI_CMD_BUF_SIZE = 660"
| "core_size BT_HDR_SIZE = 8"
| "core_size HCIC_PARAM_SIZE_SET_USED_FEAT_CMD = 8"
| "core_size HCIC_PARAM_SIZE_WRITE_RANDOM_ADDR_CMD = 6"
| "core_size HCIC_PARAM_SIZE_BLE_WRITE_ADV_PARAMS = 15"
| "core_size HCIC_PARAM_SIZE_READ_CMD = 0"
| "core_size HCIC_PARAM_SIZE_BLE_WRITE_ADV_DATA = 31"
| "core_size HCIC_PARAM_SIZE_BLE_WRITE_SCAN_RSP = 31"
| "core_size HCIC_PARAM_SIZE_WRITE_ADV_ENABLE = 1"
| "core_size HCIC_PARAM_SIZE_BLE_WRITE_SCAN_PARAM = 7"
| "core_size HCIC_PARAM_SIZE_BLE_WRITE_SCAN_ENABLE = 2"
| "core_size HCIC_PARAM_SIZE_BLE_CREATE_LL_CONN = 25"
| "core_size HCIC_PARAM_SIZE_BLE_CREATE_CONN_CANCEL = 0"
| "core_size HCIC_PARAM_SIZE_ADD_WHITE_LIST = 7"
| "core_size HCIC_PARAM_SIZE_REMOVE_WHITE_LIST = 7"
| "core_size HCIC_PARAM_SIZE_BLE_UPD_LL_CONN_PARAMS = 14"
| "core_size HCIC_PARAM_SIZE_SET_HOST_CHNL_CLASS = 5"
| "core_size HCIC_BLE_CHNL_MAP_SIZE = 5"
| "core_size HCIC_PARAM_SIZE_READ_CHNL_MAP = 2"
| "core_size HCIC_PARAM_SIZE_BLE_READ_REMOTE_FEAT = 2"
| "core_size HCIC_PARAM_SIZE_BLE_ENCRYPT = 32"
| "core_size HCIC_BLE_ENCRYT_KEY_SIZE = 16"
| "core_size HCIC_PARAM_SIZE_BLE_START_ENC = 28"
| "core_size HCIC_BLE_RAND_DI_SIZE = 8"
| "core_size HCIC_PARAM_SIZE_LTK_REQ_REPLY = 18"
| "core_size HCIC_PARAM_SIZE_LTK_REQ_NEG_REPLY = 2"
| "core_size HCIC_PARAM_SIZE_WRITE_PARAM1 = 1"
| "core_size HCIC_PARAM_SIZE_WRITE_PARAM3 = 3"
| "core_size HCIC_PARAM_SIZE_BLE_RC_PARAM_REQ_REPLY = 14"
| "core_size HCIC_PARAM_SIZE_BLE_RC_PARAM_REQ_NEG_REPLY = 3"
| "core_size HCIC_PARAM_SIZE_BLE_ADD_DEV_RESOLVING_LIST = 39"
| "core_size HCIC_PARAM_SIZE_BLE_RM_DEV_RESOLVING_LIST = 7"
| "core_size HCIC_PARAM_SIZE_BLE_SET_PRIVACY_MODE = 8"
| "core_size HCIC_PARAM_SIZE_BLE_CLEAR_RESOLVING_LIST = 0"
| "core_size HCIC_PARAM_SIZE_BLE_READ_RESOLVABLE_ADDR_PEER = 7"
| "core_size HCIC_PARAM_SIZE_BLE_READ_RESOLVABLE_ADDR_LOCAL = 7"
| "core_size HCIC_PARAM_SIZE_BLE_SET_ADDR_RESOLUTION_ENABLE = 1"
| "core_size HCIC_PARAM_SIZE_BLE_SET_RAND_PRIV_ADDR_TIMOUT = 2"
| "core_size HCIC_PARAM_SIZE_BLE_SET_DATA_LENGTH = 6"
| "core_size HCIC_PARAM_SIZE_BLE_ENH_RX_TEST = 3"
| "core_size HCIC_PARAM_SIZE_BLE_ENH_TX_TEST = 4"
| "core_size BT_OCTET8_LEN = 8"

text \<open>
  Event codes, statuses and address types, and the message classes of \<open>bt_types.h\<close>. The metric
  codes only ever reach the metrics log.
\<close>

primrec core_byte :: "hci_byte \<Rightarrow> u8" where
  "core_byte HCI_SUCCESS = 0x00"
| "core_byte HCI_COMMAND_COMPLETE_EVT = 0x0E"
| "core_byte HCI_COMMAND_STATUS_EVT = 0x0F"
| "core_byte HCI_VENDOR_SPECIFIC_EVT = 0xFF"
| "core_byte HCI_VSE_SUBCODE_DEBUG_INFO_SUB_EVT = 0x57"
| "core_byte HCI_VSE_SUBCODE_BQR_SUB_EVT = 0x58"
| "core_byte QUALITY_REPORT_ID_ROOT_INFLAMMATION = 0x05"
| "core_byte BLE_ADDR_RANDOM = 0x01"
| "core_byte BLE_ADDR_PUBLIC_ID = 0x02"
| "core_byte BLE_ADDR_RANDOM_ID = 0x03"
| "core_byte BLE_ADDR_ANONYMOUS = 0xFF"

primrec core_word :: "hci_word \<Rightarrow> u16" where
  "core_word HCI_GRP_VENDOR_SPECIFIC = 0xFC00"
| "core_word HCI_CONTROLLER_DEBUG_INFO_OCF = 0x015B"
| "core_word HCI_COMMAND_NONE = 0x0000"
| "core_word MSG_EVT_MASK = 0xFF00"
| "core_word MSG_STACK_TO_HC_HCI_CMD = 0x2000"
| "core_word MSG_HC_TO_STACK_HCI_EVT = 0x1000"
| "core_word kRootInflammationPacketMinSize = 0x0007"
| "core_word STATUS_UNKNOWN = 0x0FFF"
| "core_word EVT_UNKNOWN = 0x0FFF"
| "core_word EVT_COMMAND_STATUS = 0x000F"
| "core_word EVT_COMMAND_COMPLETE = 0x000E"
| "core_word kUnknownConnectionHandle = 0xFFFF"

text \<open>
  The macros write little-endian integers, a device address from its last byte to its first, and
  the first bytes of an array.
\<close>

definition hdrs_ok :: "hci_hdrs \<Rightarrow> bool" where
  "hdrs_ok E \<longleftrightarrow> (\<forall>op. hci_opcode E op = core_opcode op) \<and>
     (\<forall>op. hci_br_opcode E op = core_br_opcode op) \<and> (\<forall>op. hci_info_opcode E op = core_info_opcode op) \<and>
     (\<forall>c. c \<noteq> HCI_CMD_BUF_SIZE \<longrightarrow> hcic_const E c = core_size c) \<and>
     8 + 4 + 3 + 255 \<le> hcic_const E HCI_CMD_BUF_SIZE \<and>
     (\<forall>x. uint8_to_stream E x = [x]) \<and> (\<forall>x. uint16_to_stream E x = put16 x) \<and>
     (\<forall>a. bdaddr_to_stream E a = rev a) \<and> (\<forall>a n. array_to_stream E a n = take n a) \<and>
     (\<forall>c. hci_byte E c = core_byte c) \<and> (\<forall>c. hci_word E c = core_word c) \<and>
     (\<forall>lo hi. stream_to_uint16 E lo hi = ucast lo OR push_bit 8 (ucast hi)) \<and>
     (\<forall>bs. stream_to_bdaddr E bs = rev bs)"

definition core_hdrs :: hci_hdrs where
  "core_hdrs = \<lparr>hci_opcode = core_opcode, hci_br_opcode = core_br_opcode, hci_info_opcode = core_info_opcode,
     hcic_const = core_size, uint8_to_stream = (\<lambda>x. [x]),
     uint16_to_stream = put16, bdaddr_to_stream = rev, array_to_stream = (\<lambda>a n. take n a),
     hci_byte = core_byte, hci_word = core_word,
     stream_to_uint16 = (\<lambda>lo hi. ucast lo OR push_bit 8 (ucast hi)), stream_to_bdaddr = rev\<rparr>"

lemma core_hdrs_ok [simp]: "hdrs_ok core_hdrs"
  by (simp add: hdrs_ok_def core_hdrs_def)

section \<open>Packets and the stream cursor\<close>

record bt_hdr =
  bt_event :: "u16 option"
  bt_len :: u16
  bt_offset :: u16
  bt_data :: "u8 option list"

text \<open>The bytes of a packet that go to the transport, and these bytes when all were written.\<close>

definition wire :: "bt_hdr \<Rightarrow> u8 option list" where
  "wire p = take (unat (bt_len p)) (drop (unat (bt_offset p)) (bt_data p))"

definition initialised :: "u8 option list \<Rightarrow> bool" where
  "initialised bs \<longleftrightarrow> None \<notin> set bs"

type_synonym stream = "u8 option list \<times> nat"

text \<open>\<open>memcpy\<close> to the cursor, without moving it.\<close>

fun poke :: "bytes \<Rightarrow> stream \<Rightarrow> stream option" where
  "poke bs (d, pos) =
     (if pos + length bs \<le> length d then Some (take pos d @ map Some bs @ drop (pos + length bs) d, pos) else None)"

text \<open>\<open>pp += n\<close>.\<close>

fun advance :: "nat \<Rightarrow> stream \<Rightarrow> stream option" where
  "advance n (d, pos) = (if pos + n \<le> length d then Some (d, pos + n) else None)"

definition emit :: "bytes \<Rightarrow> stream \<Rightarrow> stream option" where
  "emit bs s = Option.bind (poke bs s) (advance (length bs))"

definition UINT8_TO_STREAM :: "hci_hdrs \<Rightarrow> u8 \<Rightarrow> stream \<Rightarrow> stream option" where
  "UINT8_TO_STREAM E x = emit (uint8_to_stream E x)"

definition UINT16_TO_STREAM :: "hci_hdrs \<Rightarrow> u16 \<Rightarrow> stream \<Rightarrow> stream option" where
  "UINT16_TO_STREAM E x = emit (uint16_to_stream E x)"

definition BDADDR_TO_STREAM :: "hci_hdrs \<Rightarrow> raw_address \<Rightarrow> stream \<Rightarrow> stream option" where
  "BDADDR_TO_STREAM E a = emit (bdaddr_to_stream E a)"

text \<open>Copying \<open>n\<close> bytes out of a shorter array is a read past its end.\<close>

definition ARRAY_TO_STREAM :: "hci_hdrs \<Rightarrow> bytes \<Rightarrow> nat \<Rightarrow> stream \<Rightarrow> stream option" where
  "ARRAY_TO_STREAM E a n s = (if n \<le> length a then emit (array_to_stream E a n) s else None)"

definition memset_stream :: "u8 \<Rightarrow> nat \<Rightarrow> stream \<Rightarrow> stream option" where
  "memset_stream x n = poke (replicate n x)"

fun run_stream :: "(stream \<Rightarrow> stream option) list \<Rightarrow> stream \<Rightarrow> stream option" where
  "run_stream [] s = Some s"
| "run_stream (w # ws) s = Option.bind (w s) (run_stream ws)"

text \<open>
  The frame of every command writer: \<open>osi_malloc\<close> a command buffer, set \<open>len\<close> and
  \<open>offset\<close>, and write through the cursor that starts behind the header.
\<close>

definition hci_cmd :: "hci_hdrs \<Rightarrow> nat \<Rightarrow> nat \<Rightarrow> (stream \<Rightarrow> stream option) list \<Rightarrow> bt_hdr option" where
  "hci_cmd E len off ws =
     (let room = hcic_const E HCI_CMD_BUF_SIZE - hcic_const E BT_HDR_SIZE
      in map_option (\<lambda>(d, _). \<lparr>bt_event = None, bt_len = of_nat len, bt_offset = of_nat off, bt_data = d\<rparr>)
           (run_stream ws (replicate room None, 0)))"

section \<open>Reading a packet\<close>

text \<open>
  Reads relative to the start of the data area. Reading past the allocation or a byte that was
  never written is a fault.
\<close>

definition rd8 :: "bt_hdr \<Rightarrow> nat \<Rightarrow> u8 option" where
  "rd8 p pos = (if pos < length (bt_data p) then bt_data p ! pos else None)"

definition rd16 :: "hci_hdrs \<Rightarrow> bt_hdr \<Rightarrow> nat \<Rightarrow> u16 option" where
  "rd16 E p pos = do { lo \<leftarrow> rd8 p pos; hi \<leftarrow> rd8 p (pos + 1); Some (stream_to_uint16 E lo hi) }"

fun rd_bytes :: "bt_hdr \<Rightarrow> nat \<Rightarrow> nat \<Rightarrow> bytes option" where
  "rd_bytes p pos 0 = Some []"
| "rd_bytes p pos (Suc n) = do { b \<leftarrow> rd8 p pos; bs \<leftarrow> rd_bytes p (pos + 1) n; Some (b # bs) }"

definition rd_bdaddr :: "hci_hdrs \<Rightarrow> bt_hdr \<Rightarrow> nat \<Rightarrow> raw_address option" where
  "rd_bdaddr E p pos = map_option (stream_to_bdaddr E) (rd_bytes p pos 6)"

section \<open>Running writers\<close>

lemma hdrs_okD [stream_simps]:
  assumes "hdrs_ok E"
  shows "hci_opcode E op = core_opcode op" "hci_br_opcode E bop = core_br_opcode bop"
    "hci_info_opcode E iop = core_info_opcode iop" "uint8_to_stream E x = [x]" "uint16_to_stream E y = put16 y"
    "bdaddr_to_stream E a = rev a" "array_to_stream E b n = take n b"
    "hci_byte E cb = core_byte cb" "hci_word E cw = core_word cw"
    "stream_to_uint16 E lo hi = ucast lo OR push_bit 8 (ucast hi)" "stream_to_bdaddr E bs = rev bs"
    "c \<noteq> HCI_CMD_BUF_SIZE \<Longrightarrow> hcic_const E c = core_size c" "270 \<le> hcic_const E HCI_CMD_BUF_SIZE"
  using assms by (auto simp: hdrs_ok_def)

lemma emit_append:
  "pos + length bs \<le> length d \<Longrightarrow>
   emit bs (d, pos) = Some (take pos d @ map Some bs @ drop (pos + length bs) d, pos + length bs)"
  by (simp add: emit_def)

lemma emit_fresh [stream_simps]:
  "length bs \<le> n \<Longrightarrow>
   emit bs (map Some as @ replicate n None, length as) =
     Some (map Some (as @ bs) @ replicate (n - length bs) None, length (as @ bs))"
  by (simp add: emit_append)

text \<open>A list of writers that only emit: what they emit.\<close>

inductive emits :: "(stream \<Rightarrow> stream option) list \<Rightarrow> bytes \<Rightarrow> bool" where
  emits_Nil: "emits [] []"
| emits_Cons: "w = emit bs \<Longrightarrow> emits ws cs \<Longrightarrow> emits (w # ws) (bs @ cs)"

lemma emits_writers:
  assumes "hdrs_ok E"
  shows "emits ws cs \<Longrightarrow> emits (UINT8_TO_STREAM E x # ws) (x # cs)"
    "emits ws cs \<Longrightarrow> emits (UINT16_TO_STREAM E y # ws) (put16 y @ cs)"
    "emits ws cs \<Longrightarrow> emits (BDADDR_TO_STREAM E a # ws) (rev a @ cs)"
    "emits ws cs \<Longrightarrow> n = length bs \<Longrightarrow> emits (ARRAY_TO_STREAM E bs n # ws) (bs @ cs)"
  using emits_Cons [of "UINT8_TO_STREAM E x" "[x]" ws cs] emits_Cons [of "UINT16_TO_STREAM E y" "put16 y" ws cs]
    emits_Cons [of "BDADDR_TO_STREAM E a" "rev a" ws cs] emits_Cons [of "ARRAY_TO_STREAM E bs n" bs ws cs]
  by (simp_all add: UINT8_TO_STREAM_def UINT16_TO_STREAM_def BDADDR_TO_STREAM_def ARRAY_TO_STREAM_def hdrs_okD [OF assms] fun_eq_iff)

lemma emits_append: "emits ws bs \<Longrightarrow> emits vs cs \<Longrightarrow> emits (ws @ vs) (bs @ cs)"
  by (induction rule: emits.induct) (auto intro: emits_Cons)

lemma emits_concat: "(\<And>x. x \<in> set xs \<Longrightarrow> emits (f x) (g x)) \<Longrightarrow> emits (concat (map f xs)) (concat (map g xs))"
  by (induction xs) (auto intro: emits_Nil emits_append)

lemma emits_run:
  "emits ws bs \<Longrightarrow> length bs \<le> n \<Longrightarrow>
   run_stream ws (map Some as @ replicate n None, length as) =
     Some (map Some (as @ bs) @ replicate (n - length bs) None, length (as @ bs))"
proof (induction arbitrary: as n rule: emits.induct)
  case emits_Nil
  then show ?case by simp
next
  case (emits_Cons w bs ws cs)
  have "run_stream (w # ws) (map Some as @ replicate n None, length as)
      = run_stream ws (map Some (as @ bs) @ replicate (n - length bs) None, length (as @ bs))"
    using emits_Cons.hyps emits_Cons.prems emit_fresh [of bs n as] by simp
  then show ?case using emits_Cons.IH [of "n - length bs" "as @ bs"] emits_Cons.prems by simp
qed

text \<open>
  A plain command: every byte up to the declared length was written, and the packet holds exactly
  the bytes that were emitted.
\<close>

lemma hci_cmd_emits:
  assumes E: "hdrs_ok E" and e: "emits ws bs" and len: "length bs = len" "len \<le> 262"
  shows "\<exists>p. hci_cmd E len 0 ws = Some p \<and> wire p = map Some bs \<and> unat (bt_len p) = length bs"
proof -
  have "run_stream ws (map Some [] @ replicate (hcic_const E HCI_CMD_BUF_SIZE - 8) None, length ([] :: bytes)) =
      Some (map Some ([] @ bs) @ replicate (hcic_const E HCI_CMD_BUF_SIZE - 8 - length bs) None, length ([] @ bs))"
    using e by (rule emits_run) (use len hdrs_okD(13) [OF E] in simp)
  moreover have "unat (of_nat len :: u16) = len"
    using len by (simp add: unat_of_nat take_bit_nat_eq_self)
  ultimately show ?thesis
    using len by (simp add: hci_cmd_def hdrs_okD [OF E] wire_def)
qed

end
