(* ===== verification/Hci_Layer.thy ===== *)
theory Hci_Layer
  imports Hci_Env
begin

text \<open>
  The HCI layer of the Bluetooth stack (\<open>hci_layer.cc\<close>): the command queue with its credits, the
  list of commands that wait for a response, the response timer, and the filter that takes command
  complete and command status events out of the event stream.

  Packets and wait entries live in two stores; a pointer that is not in its store has been freed,
  and using or freeing it again is a fault (\<open>None\<close>). What the module hands to code outside the
  file (the fragmenter, the transport, the upper layer, callbacks, futures) is recorded in order.
  Locks are not part of the state: every operation below runs under the locks the code takes, and
  the two thread boundaries (the task queue of \<open>hci_thread\<close> and the upper layers) are explicit.
\<close>

named_theorems hci_simps \<open>unfolding of the HCI layer's store operations\<close>

section \<open>State\<close>

type_synonym ptr = nat

datatype complete_cb =
    Btu_hcif_command_complete_evt | Btu_hcif_command_complete_evt_with_cb | Complete_cb nat

datatype status_cb =
    Btu_hcif_command_status_evt | Btu_hcif_command_status_evt_with_cb | Status_cb nat

record waiting_command =
  wc_opcode :: u16
  wc_complete_future :: "ptr option"
  wc_complete_callback :: "complete_cb option"
  wc_status_callback :: "status_cb option"
  wc_context :: "ptr option"
  wc_command :: ptr
  wc_timestamp :: int

datatype task =
    Event_command_ready ptr | Event_packet_ready ptr | Hci_initialize | Event_finish_startup

datatype abort_task = Hci_timeout_abort | Hci_root_inflamed_abort u8 u8

datatype future_value = Fut_success | Fut_fail | Fut_packet ptr

text \<open>
  The hand-overs, in order. \<open>packet_fragmenter->fragment_and_dispatch\<close> is called for commands and for
  data packets, which the record keeps apart.
\<close>

datatype handed =
    Complete_call complete_cb ptr "ptr option"
  | Status_call status_cb u8 ptr "ptr option"
  | Future_ready ptr future_value
  | Send_upwards ptr
  | Dispatch_command ptr
  | Dispatch_packet ptr
  | Reassemble_and_dispatch ptr
  | Hci_transmit ptr
  | Log_firmware ptr

datatype process = Running | Aborted | Exited

record hci_layer =
  bufs :: "ptr \<rightharpoonup> bt_hdr"
  waits :: "ptr \<rightharpoonup> waiting_command"
  next_ptr :: ptr
  command_credits :: int
  command_queue :: "ptr list"
  commands_pending_response :: "ptr list option"
  thread_tasks :: "task list"
  command_response_timer :: "ptr option option"
  startup_timer :: "u64 option option"
  startup_future :: "ptr option"
  hci_firmware_log_fd :: int
  abort_timer :: "abort_task option"
  send_data_set :: bool
  interface_created :: bool
  process :: process
  outbox :: "handed list"

text \<open>
  What the module asks of code outside the repository: whether \<open>hci_thread\<close> accepts a task and is
  running, the clock, the firmware log file, whether the timed lock and the abort timer succeed, the
  allocations and the property of the start-up sequence, and how many queued tasks \<open>ShutDown\<close>
  still runs before the thread ends.
\<close>

record hci_ext =
  do_in_thread :: "hci_layer \<Rightarrow> bool"
  thread_is_running :: "hci_layer \<Rightarrow> bool"
  steady_now :: "hci_layer \<Rightarrow> int"
  open_firmware_log_file :: "hci_layer \<Rightarrow> int"
  try_lock_for :: "hci_layer \<Rightarrow> bool"
  abort_timer_schedule :: "hci_layer \<Rightarrow> bool"
  alarm_new_startup :: bool
  alarm_new_response :: bool
  enable_rt_scheduling :: bool
  list_new_ok :: bool
  timeout_prop :: "int option"
  shut_down_runs :: nat

abbreviation INVALID_FD :: int where "INVALID_FD \<equiv> -1"

definition hci_layer_init :: hci_layer where
  "hci_layer_init = \<lparr>bufs = Map.empty, waits = Map.empty, next_ptr = 1, command_credits = 1,
     command_queue = [], commands_pending_response = None, thread_tasks = [],
     command_response_timer = None, startup_timer = None, startup_future = None,
     hci_firmware_log_fd = INVALID_FD, abort_timer = None, send_data_set = False,
     interface_created = False, process = Running, outbox = []\<rparr>"

section \<open>Stores\<close>

definition hand :: "handed \<Rightarrow> hci_layer \<Rightarrow> hci_layer" where
  "hand x S = S\<lparr>outbox := outbox S @ [x]\<rparr>"

definition free_buf :: "ptr \<Rightarrow> hci_layer \<Rightarrow> hci_layer option" where
  "free_buf p S = (if bufs S p = None then None else Some (S\<lparr>bufs := (bufs S)(p := None)\<rparr>))"

definition free_wait :: "ptr \<Rightarrow> hci_layer \<Rightarrow> hci_layer option" where
  "free_wait w S = (if waits S w = None then None else Some (S\<lparr>waits := (waits S)(w := None)\<rparr>))"

definition new_wait :: "waiting_command \<Rightarrow> hci_layer \<Rightarrow> ptr \<times> hci_layer" where
  "new_wait e S = (next_ptr S, S\<lparr>waits := (waits S)(next_ptr S \<mapsto> e), next_ptr := next_ptr S + 1\<rparr>)"

definition new_buf :: "bt_hdr \<Rightarrow> hci_layer \<Rightarrow> ptr \<times> hci_layer" where
  "new_buf b S = (next_ptr S, S\<lparr>bufs := (bufs S)(next_ptr S \<mapsto> b), next_ptr := next_ptr S + 1\<rparr>)"

definition future_new :: "hci_layer \<Rightarrow> ptr \<times> hci_layer" where
  "future_new S = (next_ptr S, S\<lparr>next_ptr := next_ptr S + 1\<rparr>)"

definition post_task :: "task \<Rightarrow> hci_layer \<Rightarrow> hci_layer" where
  "post_task t S = S\<lparr>thread_tasks := thread_tasks S @ [t]\<rparr>"

section \<open>Timers and the pending list\<close>

definition get_num_waiting_commands :: "hci_layer \<Rightarrow> int option" where
  "get_num_waiting_commands S = map_option (\<lambda>ws. int (length ws)) (commands_pending_response S)"

definition update_command_response_timer :: "hci_layer \<Rightarrow> hci_layer option" where
  "update_command_response_timer S =
     (case command_response_timer S of
        None \<Rightarrow> Some S
      | Some _ \<Rightarrow> do {
          ws \<leftarrow> commands_pending_response S;
          Some (case ws of [] \<Rightarrow> S\<lparr>command_response_timer := Some None\<rparr>
                         | w # _ \<Rightarrow> S\<lparr>command_response_timer := Some (Some w)\<rparr>)
        })"

text \<open>
  The two passes of \<open>get_waiting_command\<close>: an exact match of the opcode, else the first entry when
  both opcodes are vendor specific. Every entry is dereferenced on the way.
\<close>

definition is_vendor :: "hci_hdrs \<Rightarrow> u16 \<Rightarrow> bool" where
  "is_vendor E op \<longleftrightarrow> op AND hci_word E HCI_GRP_VENDOR_SPECIFIC = hci_word E HCI_GRP_VENDOR_SPECIFIC"

fun find_waiting :: "(u16 \<Rightarrow> bool) \<Rightarrow> hci_layer \<Rightarrow> ptr list \<Rightarrow> ptr option option" where
  "find_waiting P S [] = Some None"
| "find_waiting P S (w # ws) = do {
     e \<leftarrow> waits S w;
     if P (wc_opcode e) then Some (Some w) else find_waiting P S ws
   }"

definition get_waiting_command :: "hci_hdrs \<Rightarrow> u16 \<Rightarrow> hci_layer \<Rightarrow> (ptr option \<times> hci_layer) option" where
  "get_waiting_command E opcode S = do {
     ws \<leftarrow> commands_pending_response S;
     r \<leftarrow> find_waiting (\<lambda>op. op = opcode) S ws;
     (case r of
        Some w \<Rightarrow> Some (Some w, S\<lparr>commands_pending_response := Some (remove1 w ws)\<rparr>)
      | None \<Rightarrow> do {
          r' \<leftarrow> find_waiting (\<lambda>op. op \<noteq> opcode \<and> is_vendor E op \<and> is_vendor E opcode) S ws;
          (case r' of
             Some w \<Rightarrow> Some (Some w, S\<lparr>commands_pending_response := Some (remove1 w ws)\<rparr>)
           | None \<Rightarrow> Some (None, S))
        })
   }"

section \<open>Sending\<close>

definition enqueue_command :: "hci_ext \<Rightarrow> ptr \<Rightarrow> hci_layer \<Rightarrow> hci_layer option" where
  "enqueue_command X w S =
     (if command_credits S > 0 then
        (if do_in_thread X S
         then Some ((post_task (Event_command_ready w) S)\<lparr>command_credits := command_credits S - 1\<rparr>)
         else do {
           e \<leftarrow> waits S w;
           S1 \<leftarrow> free_buf (wc_command e) S;
           free_wait w S1
         })
      else Some (S\<lparr>command_queue := command_queue S @ [w]\<rparr>))"

text \<open>The opcode is read at the packet's offset; the event field is set for the transport.\<close>

definition set_cmd_event :: "hci_hdrs \<Rightarrow> ptr \<Rightarrow> hci_layer \<Rightarrow> hci_layer option" where
  "set_cmd_event E p S = do {
     b \<leftarrow> bufs S p;
     Some (S\<lparr>bufs := (bufs S)(p \<mapsto> b\<lparr>bt_event := Some (hci_word E MSG_STACK_TO_HC_HCI_CMD)\<rparr>)\<rparr>)
   }"

definition transmit_command ::
  "hci_hdrs \<Rightarrow> hci_ext \<Rightarrow> ptr \<Rightarrow> complete_cb option \<Rightarrow> status_cb option \<Rightarrow> ptr option \<Rightarrow> hci_layer \<Rightarrow> hci_layer option"
where
  "transmit_command E X p complete_callback status_callback ctx S = do {
     b \<leftarrow> bufs S p;
     op \<leftarrow> rd16 E b (unat (bt_offset b));
     let (w, S1) = new_wait \<lparr>wc_opcode = op, wc_complete_future = None,
           wc_complete_callback = complete_callback, wc_status_callback = status_callback,
           wc_context = ctx, wc_command = p, wc_timestamp = 0\<rparr> S;
     S2 \<leftarrow> set_cmd_event E p S1;
     enqueue_command X w S2
   }"

definition transmit_command_futured ::
  "hci_hdrs \<Rightarrow> hci_ext \<Rightarrow> ptr \<Rightarrow> hci_layer \<Rightarrow> (ptr \<times> hci_layer) option"
where
  "transmit_command_futured E X p S = do {
     b \<leftarrow> bufs S p;
     op \<leftarrow> rd16 E b (unat (bt_offset b));
     let (f, S1) = future_new S;
     let (w, S2) = new_wait \<lparr>wc_opcode = op, wc_complete_future = Some f,
           wc_complete_callback = None, wc_status_callback = None,
           wc_context = None, wc_command = p, wc_timestamp = 0\<rparr> S1;
     S3 \<leftarrow> set_cmd_event E p S2;
     S4 \<leftarrow> enqueue_command X w S3;
     Some (f, S4)
   }"

definition enqueue_packet :: "hci_ext \<Rightarrow> ptr \<Rightarrow> hci_layer \<Rightarrow> hci_layer option" where
  "enqueue_packet X p S =
     (if do_in_thread X S then Some (post_task (Event_packet_ready p) S) else free_buf p S)"

definition transmit_downward :: "hci_hdrs \<Rightarrow> hci_ext \<Rightarrow> u16 \<Rightarrow> ptr \<Rightarrow> hci_layer \<Rightarrow> hci_layer option" where
  "transmit_downward E X type data S =
     (if type = hci_word E MSG_STACK_TO_HC_HCI_CMD
      then transmit_command E X data None None None S
      else enqueue_packet X data S)"

definition event_command_ready :: "hci_ext \<Rightarrow> ptr \<Rightarrow> hci_layer \<Rightarrow> hci_layer option" where
  "event_command_ready X w S = do {
     e \<leftarrow> waits S w;
     ws \<leftarrow> commands_pending_response S;
     let S1 = S\<lparr>waits := (waits S)(w \<mapsto> e\<lparr>wc_timestamp := steady_now X S\<rparr>),
                commands_pending_response := Some (ws @ [w])\<rparr>;
     update_command_response_timer (hand (Dispatch_command (wc_command e)) S1)
   }"

definition event_packet_ready :: "ptr \<Rightarrow> hci_layer \<Rightarrow> hci_layer option" where
  "event_packet_ready p S = Some (hand (Dispatch_packet p) S)"

text \<open>The callbacks of the packet fragmenter.\<close>

definition transmit_fragment :: "hci_hdrs \<Rightarrow> ptr \<Rightarrow> bool \<Rightarrow> hci_layer \<Rightarrow> hci_layer option" where
  "transmit_fragment E p send_transmit_finished S = do {
     b \<leftarrow> bufs S p;
     ev \<leftarrow> bt_event b;
     let S1 = hand (Hci_transmit p) S;
     if ev AND hci_word E MSG_EVT_MASK \<noteq> hci_word E MSG_STACK_TO_HC_HCI_CMD \<and> send_transmit_finished
     then free_buf p S1 else Some S1
   }"

definition fragmenter_transmit_finished :: "ptr \<Rightarrow> bool \<Rightarrow> hci_layer \<Rightarrow> hci_layer option" where
  "fragmenter_transmit_finished p all_fragments_sent S =
     (if all_fragments_sent then free_buf p S else Some (hand (Send_upwards p) S))"

definition dispatch_reassembled :: "hci_hdrs \<Rightarrow> ptr \<Rightarrow> hci_layer \<Rightarrow> hci_layer option" where
  "dispatch_reassembled E p S = do {
     b \<leftarrow> bufs S p;
     ev \<leftarrow> bt_event b;
     if ev AND hci_word E MSG_EVT_MASK = hci_word E MSG_HC_TO_STACK_HCI_EVT then Some (S\<lparr>process := Aborted\<rparr>)
     else if \<not> send_data_set S then Some (S\<lparr>process := Aborted\<rparr>)
     else Some (hand (Send_upwards p) S)
   }"

section \<open>Receiving\<close>

text \<open>
  The loop of \<open>process_command_credits\<close>. A command that the thread refuses is popped all the same.
\<close>

fun post_queue :: "hci_ext \<Rightarrow> ptr list \<Rightarrow> hci_layer \<Rightarrow> hci_layer" where
  "post_queue X [] S = S\<lparr>command_queue := []\<rparr>"
| "post_queue X (w # ws) S =
     (if command_credits S > 0 then
        (let S1 = (if do_in_thread X S then post_task (Event_command_ready w) S else S)
         in post_queue X ws (S1\<lparr>command_queue := ws, command_credits := command_credits S - 1\<rparr>))
      else S\<lparr>command_queue := w # ws\<rparr>)"

definition process_command_credits :: "hci_ext \<Rightarrow> int \<Rightarrow> hci_layer \<Rightarrow> hci_layer option" where
  "process_command_credits X credits S =
     (if \<not> thread_is_running X S then Some S
      else do {
        n \<leftarrow> get_num_waiting_commands S;
        Some (post_queue X (command_queue S) (S\<lparr>command_credits := credits - n\<rparr>))
      })"

text \<open>The actions at the label \<open>intercepted\<close>.\<close>

definition intercepted :: "bool \<Rightarrow> bool \<Rightarrow> ptr option \<Rightarrow> ptr \<Rightarrow> hci_layer \<Rightarrow> (bool \<times> hci_layer) option" where
  "intercepted is_status status_given_to_future wait_entry packet S =
     (case wait_entry of
        Some w \<Rightarrow> do {
          e \<leftarrow> waits S w;
          S1 \<leftarrow> (if (is_status \<and> \<not> status_given_to_future) \<or>
                    (wc_complete_callback e = None \<and> wc_complete_future e = None)
                 then free_buf packet S else Some S);
          S2 \<leftarrow> (if \<not> is_status \<or> wc_status_callback e = None
                 then free_buf (wc_command e) S1 else Some S1);
          S3 \<leftarrow> free_wait w S2;
          Some (True, S3)
        }
      | None \<Rightarrow> do { S1 \<leftarrow> free_buf packet S; Some (True, S1) })"

definition complete_event :: "hci_hdrs \<Rightarrow> hci_ext \<Rightarrow> ptr \<Rightarrow> bt_hdr \<Rightarrow> hci_layer \<Rightarrow> (bool \<times> hci_layer) option" where
  "complete_event E X packet b S = do {
     credits \<leftarrow> rd8 b 2;
     opcode \<leftarrow> rd16 E b 3;
     (we, S1) \<leftarrow> get_waiting_command E opcode S;
     S2 \<leftarrow> process_command_credits X (uint credits) S1;
     (case we of
        None \<Rightarrow> intercepted False False we packet S2
      | Some w \<Rightarrow> do {
          S3 \<leftarrow> update_command_response_timer S2;
          e \<leftarrow> waits S3 w;
          let S4 = (case wc_complete_callback e of
                      Some cb \<Rightarrow> hand (Complete_call cb packet (wc_context e)) S3
                    | None \<Rightarrow> (case wc_complete_future e of
                        Some f \<Rightarrow> hand (Future_ready f (Fut_packet packet)) S3
                      | None \<Rightarrow> S3));
          intercepted False False we packet S4
        })
   }"

definition status_event :: "hci_hdrs \<Rightarrow> hci_ext \<Rightarrow> ptr \<Rightarrow> bt_hdr \<Rightarrow> hci_layer \<Rightarrow> (bool \<times> hci_layer) option" where
  "status_event E X packet b S = do {
     status \<leftarrow> rd8 b 2;
     credits \<leftarrow> rd8 b 3;
     opcode \<leftarrow> rd16 E b 4;
     (we, S1) \<leftarrow> get_waiting_command E opcode S;
     S2 \<leftarrow> process_command_credits X (uint credits) S1;
     (case we of
        None \<Rightarrow> intercepted True False we packet S2
      | Some w \<Rightarrow> do {
          S3 \<leftarrow> update_command_response_timer S2;
          e \<leftarrow> waits S3 w;
          (case wc_status_callback e of
             Some cb \<Rightarrow> intercepted True False we packet
                         (hand (Status_call cb status (wc_command e) (wc_context e)) S3)
           | None \<Rightarrow> (case wc_complete_future e of
               Some f \<Rightarrow> intercepted True True we packet (hand (Future_ready f (Fut_packet packet)) S3)
             | None \<Rightarrow> intercepted True False we packet S3))
        })
   }"

definition cancel_alarms :: "hci_ext \<Rightarrow> hci_layer \<Rightarrow> hci_layer" where
  "cancel_alarms X S =
     (if try_lock_for X S
      then S\<lparr>startup_timer := map_option (\<lambda>_. None) (startup_timer S),
             command_response_timer := map_option (\<lambda>_. None) (command_response_timer S)\<rparr>
      else S)"

definition vendor_event :: "hci_hdrs \<Rightarrow> hci_ext \<Rightarrow> ptr \<Rightarrow> bt_hdr \<Rightarrow> hci_layer \<Rightarrow> (bool \<times> hci_layer) option" where
  "vendor_event E X packet b S = do {
     sub \<leftarrow> rd8 b 2;
     if sub = hci_byte E HCI_VSE_SUBCODE_DEBUG_INFO_SUB_EVT then do {
       let S1 = (if hci_firmware_log_fd S = INVALID_FD
                 then S\<lparr>hci_firmware_log_fd := open_firmware_log_file X S\<rparr> else S);
       let S2 = (if hci_firmware_log_fd S1 \<noteq> INVALID_FD then hand (Log_firmware packet) S1 else S1);
       S3 \<leftarrow> free_buf packet S2;
       Some (True, S3)
     } else if sub = hci_byte E HCI_VSE_SUBCODE_BQR_SUB_EVT then do {
       report \<leftarrow> rd8 b 3;
       if report = hci_byte E QUALITY_REPORT_ID_ROOT_INFLAMMATION \<and>
          unat (hci_word E kRootInflammationPacketMinSize) \<le> unat (bt_len b)
       then do {
         error_code \<leftarrow> rd8 b 4;
         vendor_error_code \<leftarrow> rd8 b 5;
         let S1 = cancel_alarms X S;
         Some (False, if abort_timer_schedule X S1
                      then S1\<lparr>abort_timer := Some (Hci_root_inflamed_abort error_code vendor_error_code)\<rparr>
                      else S1\<lparr>process := Aborted\<rparr>)
       } else Some (False, S)
     } else Some (False, S)
   }"

definition filter_incoming_event :: "hci_hdrs \<Rightarrow> hci_ext \<Rightarrow> ptr \<Rightarrow> hci_layer \<Rightarrow> (bool \<times> hci_layer) option" where
  "filter_incoming_event E X packet S = do {
     b \<leftarrow> bufs S packet;
     event_code \<leftarrow> rd8 b 0;
     if event_code = hci_byte E HCI_COMMAND_COMPLETE_EVT then complete_event E X packet b S
     else if event_code = hci_byte E HCI_COMMAND_STATUS_EVT then status_event E X packet b S
     else if event_code = hci_byte E HCI_VENDOR_SPECIFIC_EVT then vendor_event E X packet b S
     else Some (False, S)
   }"

definition hci_event_received :: "hci_hdrs \<Rightarrow> hci_ext \<Rightarrow> ptr \<Rightarrow> hci_layer \<Rightarrow> hci_layer option" where
  "hci_event_received E X packet S = do {
     (taken, S1) \<leftarrow> filter_incoming_event E X packet S;
     Some (if taken \<or> process S1 = Aborted then S1 else hand (Send_upwards packet) S1)
   }"

definition acl_event_received :: "ptr \<Rightarrow> hci_layer \<Rightarrow> hci_layer option" where
  "acl_event_received p S = Some (hand (Reassemble_and_dispatch p) S)"

definition sco_data_received :: "ptr \<Rightarrow> hci_layer \<Rightarrow> hci_layer option" where
  "sco_data_received p S = Some (hand (Reassemble_and_dispatch p) S)"

section \<open>Command timeout\<close>

text \<open>
  The log dereferences every waiting command and reads the first three or four bytes of its packet.
\<close>

fun command_timed_out_log_info :: "hci_layer \<Rightarrow> ptr list \<Rightarrow> (u16 \<times> bytes) list option" where
  "command_timed_out_log_info S [] = Some []"
| "command_timed_out_log_info S (w # ws) = do {
     e \<leftarrow> waits S w;
     b \<leftarrow> bufs S (wc_command e);
     bs \<leftarrow> rd_bytes b (unat (bt_offset b)) (if bt_len b > 3 then 4 else 3);
     rest \<leftarrow> command_timed_out_log_info S ws;
     Some ((wc_opcode e, bs) # rest)
   }"

definition firmware_dump_cmd :: "hci_hdrs \<Rightarrow> bt_hdr option" where
  "firmware_dump_cmd E = do {
     (d, _) \<leftarrow> run_stream
        [UINT16_TO_STREAM E (hci_word E HCI_GRP_VENDOR_SPECIFIC OR hci_word E HCI_CONTROLLER_DEBUG_INFO_OCF),
         UINT8_TO_STREAM E 0]
        (replicate (hcic_const E HCIC_PREAMBLE_SIZE) None, 0);
     Some \<lparr>bt_event = Some (hci_word E MSG_STACK_TO_HC_HCI_CMD),
           bt_len = of_nat (hcic_const E HCIC_PREAMBLE_SIZE), bt_offset = 0, bt_data = d\<rparr>
   }"

definition command_timed_out :: "hci_hdrs \<Rightarrow> hci_ext \<Rightarrow> hci_layer \<Rightarrow> hci_layer option" where
  "command_timed_out E X S = do {
     _ \<leftarrow> (if try_lock_for X S
           then do { ws \<leftarrow> commands_pending_response S; command_timed_out_log_info S ws }
           else Some []);
     if hci_firmware_log_fd S \<noteq> INVALID_FD then Some S
     else do {
       b \<leftarrow> firmware_dump_cmd E;
       let (p, S1) = new_buf b S;
       let S2 = S1\<lparr>hci_firmware_log_fd := open_firmware_log_file X S1\<rparr>;
       S3 \<leftarrow> transmit_fragment E p True S2;
       S4 \<leftarrow> free_buf p S3;
       Some (if abort_timer_schedule X S4 then S4\<lparr>abort_timer := Some Hci_timeout_abort\<rparr>
             else S4\<lparr>process := Aborted\<rparr>)
     }
   }"

text \<open>The abort timer fires.\<close>

definition run_abort_timer :: "hci_layer \<Rightarrow> hci_layer" where
  "run_abort_timer S =
     (case abort_timer S of
        None \<Rightarrow> S
      | Some Hci_timeout_abort \<Rightarrow> S\<lparr>process := Exited\<rparr>
      | Some (Hci_root_inflamed_abort _ _) \<Rightarrow> S\<lparr>process := Aborted\<rparr>)"

definition hal_service_died :: "hci_layer \<Rightarrow> hci_layer" where
  "hal_service_died S = (if abort_timer S \<noteq> None then S else S\<lparr>process := Aborted\<rparr>)"

section \<open>Module life cycle\<close>

definition event_finish_startup :: "hci_layer \<Rightarrow> hci_layer" where
  "event_finish_startup S =
     (let S1 = S\<lparr>startup_timer := map_option (\<lambda>_. None) (startup_timer S)\<rparr>
      in case startup_future S1 of
           None \<Rightarrow> S1
         | Some f \<Rightarrow> (hand (Future_ready f Fut_success) S1)\<lparr>startup_future := None\<rparr>)"

definition startup_timer_expired :: "hci_layer \<Rightarrow> hci_layer" where
  "startup_timer_expired S = S\<lparr>process := Aborted\<rparr>"

text \<open>The thread takes the first of its tasks. \<open>hci_initialize\<close> belongs to the transport.\<close>

definition run_task :: "hci_ext \<Rightarrow> hci_layer \<Rightarrow> hci_layer option" where
  "run_task X S =
     (case thread_tasks S of
        [] \<Rightarrow> Some S
      | t # ts \<Rightarrow>
          (let S1 = S\<lparr>thread_tasks := ts\<rparr>
           in case t of
                Event_command_ready w \<Rightarrow> event_command_ready X w S1
              | Event_packet_ready p \<Rightarrow> event_packet_ready p S1
              | Event_finish_startup \<Rightarrow> Some (event_finish_startup S1)
              | Hci_initialize \<Rightarrow> Some S1))"

fun run_tasks :: "hci_ext \<Rightarrow> nat \<Rightarrow> hci_layer \<Rightarrow> hci_layer option" where
  "run_tasks X 0 S = Some S"
| "run_tasks X (Suc n) S = Option.bind (run_task X S) (run_tasks X n)"

definition initialization_complete :: "hci_ext \<Rightarrow> hci_layer \<Rightarrow> hci_layer" where
  "initialization_complete X S = (if do_in_thread X S then post_task Event_finish_startup S else S)"

definition hci_module_shut_down :: "hci_ext \<Rightarrow> hci_layer \<Rightarrow> hci_layer option" where
  "hci_module_shut_down X S = do {
     S1 \<leftarrow> run_tasks X (shut_down_runs X) (S\<lparr>command_response_timer := None, startup_timer := None\<rparr>);
     Some (S1\<lparr>thread_tasks := [], commands_pending_response := None, hci_firmware_log_fd := INVALID_FD\<rparr>)
   }"

text \<open>
  \<open>startup_timeout_ms\<close> is unsigned: the value of \<open>atoi\<close> is converted before it is compared.
\<close>

definition startup_timeout_ms :: "int option \<Rightarrow> u64" where
  "startup_timeout_ms prop =
     (case prop of None \<Rightarrow> 2900 | Some v \<Rightarrow> (if (of_int v :: u64) < 100 then 2900 else of_int v))"

definition hci_module_start_up :: "hci_ext \<Rightarrow> hci_layer \<Rightarrow> (ptr \<times> hci_layer) option" where
  "hci_module_start_up X S = do {
     let S1 = S\<lparr>command_credits := 1\<rparr>;
     let S2 = (if alarm_new_startup X then S1\<lparr>startup_timer := Some None\<rparr> else S1\<lparr>startup_timer := None\<rparr>);
     let S3 = (if \<not> alarm_new_startup X then S2
               else if alarm_new_response X then S2\<lparr>command_response_timer := Some None\<rparr>
               else S2\<lparr>command_response_timer := None\<rparr>);
     if alarm_new_startup X \<and> alarm_new_response X \<and> thread_is_running X S3 \<and> enable_rt_scheduling X \<and> list_new_ok X
     then do {
       let (f, S4) = future_new (S3\<lparr>commands_pending_response := Some []\<rparr>);
       let S5 = S4\<lparr>startup_future := Some f, startup_timer := Some (Some (startup_timeout_ms (timeout_prop X)))\<rparr>;
       Some (f, if do_in_thread X S5 then post_task Hci_initialize S5 else S5)
     } else do {
       S4 \<leftarrow> hci_module_shut_down X S3;
       let (f, S5) = future_new S4;
       Some (f, hand (Future_ready f Fut_fail) S5)
     }
   }"

definition set_data_cb :: "hci_layer \<Rightarrow> hci_layer" where
  "set_data_cb S = S\<lparr>send_data_set := True\<rparr>"

definition init_layer_interface :: "hci_layer \<Rightarrow> hci_layer" where
  "init_layer_interface S = (if \<not> interface_created S then S\<lparr>interface_created := True\<rparr> else S)"

definition hci_layer_cleanup_interface :: "hci_layer \<Rightarrow> hci_layer" where
  "hci_layer_cleanup_interface S =
     (if interface_created S then S\<lparr>send_data_set := False, interface_created := False\<rparr> else S)"

end
