(* ===== verification/Hci_Layer_Inv.thy ===== *)
theory Hci_Layer_Inv
  imports Hci_Layer
begin

text \<open>
  The invariant of the HCI layer: which wait entries the module holds (waiting for a credit, posted
  to the thread, or waiting for a response), that each of them and its command packet is live and
  owned once, that a positive credit means an empty queue, and that the response timer names the
  oldest waiting command. Every operation keeps it and none of them faults.
\<close>

section \<open>What the module holds\<close>

primrec cmd_task :: "task \<Rightarrow> ptr list" where
  "cmd_task (Event_command_ready w) = [w]"
| "cmd_task (Event_packet_ready p) = []"
| "cmd_task Hci_initialize = []"
| "cmd_task Event_finish_startup = []"

text \<open>The commands on their way to the controller, oldest first.\<close>

definition cmd_line :: "hci_layer \<Rightarrow> ptr list" where
  "cmd_line S = concat (map cmd_task (thread_tasks S)) @ command_queue S"

definition pending :: "hci_layer \<Rightarrow> ptr list" where
  "pending S = (case commands_pending_response S of None \<Rightarrow> [] | Some ws \<Rightarrow> ws)"

definition held_waits :: "hci_layer \<Rightarrow> ptr list" where
  "held_waits S = pending S @ cmd_line S"

definition cmd_ptr :: "hci_layer \<Rightarrow> ptr \<Rightarrow> ptr" where
  "cmd_ptr S w = (case waits S w of None \<Rightarrow> 0 | Some e \<Rightarrow> wc_command e)"

text \<open>The bytes of a command that the module itself reads: opcode, length and the first parameter.\<close>

definition head_readable :: "bt_hdr \<Rightarrow> bool" where
  "head_readable b \<longleftrightarrow> rd_bytes b (unat (bt_offset b)) (if bt_len b > 3 then 4 else 3) \<noteq> None"

definition is_cmd_buf :: "hci_hdrs \<Rightarrow> bt_hdr \<Rightarrow> bool" where
  "is_cmd_buf E b \<longleftrightarrow> bt_event b = Some (hci_word E MSG_STACK_TO_HC_HCI_CMD) \<and> head_readable b"

lemma head_readable_event [simp]: "head_readable (b\<lparr>bt_event := ev\<rparr>) = head_readable b"
proof -
  have "rd_bytes (b\<lparr>bt_event := ev\<rparr>) pos n = rd_bytes b pos n" for pos n
    by (induction n arbitrary: pos) (simp_all add: rd8_def)
  then show ?thesis by (simp add: head_readable_def)
qed

lemma head_readable_opcode: "head_readable b \<Longrightarrow> \<exists>op. rd16 E b (unat (bt_offset b)) = Some op"
  by (auto simp: head_readable_def rd16_def numeral_eq_Suc split: if_splits option.splits bind_splits)

text \<open>The wait entries \<open>H\<close> and their packets are live, and no two share a packet.\<close>

definition owns :: "hci_hdrs \<Rightarrow> hci_layer \<Rightarrow> ptr list \<Rightarrow> bool" where
  "owns E S H \<longleftrightarrow> distinct H \<and>
     (\<forall>w\<in>set H. \<exists>e b. waits S w = Some e \<and> bufs S (wc_command e) = Some b \<and> is_cmd_buf E b) \<and>
     inj_on (cmd_ptr S) (set H) \<and>
     (\<forall>w\<in>dom (waits S). w < next_ptr S) \<and> (\<forall>p\<in>dom (bufs S). p < next_ptr S)"

definition timer_ok :: "hci_layer \<Rightarrow> bool" where
  "timer_ok S \<longleftrightarrow>
     (\<forall>w. command_response_timer S = Some (Some w) \<longrightarrow> (\<exists>ws. commands_pending_response S = Some (w # ws)))"

definition credit_ok :: "hci_layer \<Rightarrow> bool" where
  "credit_ok S \<longleftrightarrow> (0 < command_credits S \<longrightarrow> command_queue S = [])"

definition hinv :: "hci_hdrs \<Rightarrow> hci_layer \<Rightarrow> bool" where
  "hinv E S \<longleftrightarrow> owns E S (held_waits S) \<and> timer_ok S \<and> credit_ok S \<and> commands_pending_response S \<noteq> None"

definition cmds :: "hci_layer \<Rightarrow> ptr set" where
  "cmds S = cmd_ptr S ` set (held_waits S)"

lemmas line_defs = cmd_line_def pending_def held_waits_def

section \<open>Frame lemmas\<close>

lemma ownsE:
  assumes "owns E S H" "w \<in> set H"
  obtains e b where "waits S w = Some e" "bufs S (wc_command e) = Some b" "is_cmd_buf E b" "cmd_ptr S w = wc_command e"
  using assms unfolding owns_def by (fastforce simp: cmd_ptr_def)

lemma owns_distinct: "owns E S H \<Longrightarrow> distinct H"
  by (simp add: owns_def)

lemma owns_bound: "owns E S H \<Longrightarrow> waits S w = Some e \<Longrightarrow> w < next_ptr S" "owns E S H \<Longrightarrow> bufs S p = Some b \<Longrightarrow> p < next_ptr S"
  unfolding owns_def by blast+

lemma owns_tl: "owns E S (w # H) \<Longrightarrow> owns E S H"
  unfolding owns_def by auto

lemma owns_head: "owns E S (w # H) \<Longrightarrow> cmd_ptr S w \<notin> cmd_ptr S ` set H"
proof -
  assume a: "owns E S (w # H)"
  have "inj_on (cmd_ptr S) (set (w # H))" using a unfolding owns_def by blast
  moreover have "w \<notin> set H" using owns_distinct [OF a] by simp
  ultimately show ?thesis by (auto simp: inj_on_def)
qed

lemma owns_cong:
  "waits T = waits S \<Longrightarrow> bufs T = bufs S \<Longrightarrow> next_ptr T = next_ptr S \<Longrightarrow> owns E T H = owns E S H"
  by (simp add: owns_def cmd_ptr_def inj_on_def)

lemma owns_sub: "owns E S H \<Longrightarrow> distinct K \<Longrightarrow> set K \<subseteq> set H \<Longrightarrow> owns E S K"
  unfolding owns_def by (meson inj_on_subset subsetD)

lemma owns_perm: "owns E S H \<Longrightarrow> set K = set H \<Longrightarrow> distinct K \<Longrightarrow> owns E S K"
  by (rule owns_sub) auto

lemma owns_free_wait:
  assumes "owns E S H" "free_wait w S = Some T" "w \<notin> set H"
  shows "owns E T H"
proof -
  have "T = S\<lparr>waits := (waits S)(w := None)\<rparr>" using assms(2) by (simp add: free_wait_def split: if_splits)
  moreover have "cmd_ptr (S\<lparr>waits := (waits S)(w := None)\<rparr>) v = cmd_ptr S v" if "v \<in> set H" for v
    using that assms(3) by (auto simp: cmd_ptr_def)
  ultimately show ?thesis using assms(1,3) unfolding owns_def
    by (auto simp: inj_on_def)
qed

lemma owns_free_buf:
  assumes "owns E S H" "free_buf p S = Some T" "p \<notin> cmd_ptr S ` set H"
  shows "owns E T H"
proof -
  have T: "T = S\<lparr>bufs := (bufs S)(p := None)\<rparr>" using assms(2) by (simp add: free_buf_def split: if_splits)
  have c: "cmd_ptr T = cmd_ptr S" unfolding T by (simp add: cmd_ptr_def fun_eq_iff)
  have "\<exists>e b. waits T w = Some e \<and> bufs T (wc_command e) = Some b \<and> is_cmd_buf E b" if w: "w \<in> set H" for w
  proof -
    obtain e b where e: "waits S w = Some e" "bufs S (wc_command e) = Some b" "is_cmd_buf E b"
      "cmd_ptr S w = wc_command e" using ownsE [OF assms(1) w] .
    then have "wc_command e \<noteq> p" using assms(3) w by force
    then show ?thesis using e by (simp add: T)
  qed
  then show ?thesis using assms(1) unfolding owns_def c by (auto simp: T)
qed

lemma cmd_ptr_cong: "waits T = waits S \<Longrightarrow> cmd_ptr T = cmd_ptr S"
  by (simp add: cmd_ptr_def fun_eq_iff)

lemma store_fields [hci_simps]:
  "waits (hand x S) = waits S" "bufs (hand x S) = bufs S" "next_ptr (hand x S) = next_ptr S"
  "thread_tasks (hand x S) = thread_tasks S" "command_queue (hand x S) = command_queue S"
  "commands_pending_response (hand x S) = commands_pending_response S"
  "command_response_timer (hand x S) = command_response_timer S" "command_credits (hand x S) = command_credits S"
  "outbox (hand x S) = outbox S @ [x]"
  "waits (post_task t S) = waits S" "bufs (post_task t S) = bufs S" "next_ptr (post_task t S) = next_ptr S"
  "thread_tasks (post_task t S) = thread_tasks S @ [t]" "command_queue (post_task t S) = command_queue S"
  "commands_pending_response (post_task t S) = commands_pending_response S"
  "command_response_timer (post_task t S) = command_response_timer S"
  "command_credits (post_task t S) = command_credits S" "outbox (post_task t S) = outbox S"
  by (simp_all add: hand_def post_task_def)

text \<open>Operations that leave the queues, the timer and the credits alone.\<close>

definition same_queues :: "hci_layer \<Rightarrow> hci_layer \<Rightarrow> bool" where
  "same_queues S T \<longleftrightarrow> thread_tasks T = thread_tasks S \<and> command_queue T = command_queue S \<and>
     commands_pending_response T = commands_pending_response S \<and>
     command_response_timer T = command_response_timer S \<and> command_credits T = command_credits S"

lemma same_queues_trans: "same_queues S T \<Longrightarrow> same_queues T U \<Longrightarrow> same_queues S U"
  by (simp add: same_queues_def)

lemma same_queues_line: "same_queues S T \<Longrightarrow> held_waits T = held_waits S \<and> cmd_line T = cmd_line S \<and> pending T = pending S"
  by (simp add: same_queues_def line_defs)

lemma same_queues_inv: "same_queues S T \<Longrightarrow> hinv E S \<Longrightarrow> owns E T (held_waits S) \<Longrightarrow> hinv E T"
  using same_queues_line [of S T] by (simp add: hinv_def timer_ok_def credit_ok_def same_queues_def)

lemma free_buf_queues: "free_buf p S = Some T \<Longrightarrow> same_queues S T \<and> waits T = waits S \<and> outbox T = outbox S \<and>
    bufs T = (bufs S)(p := None) \<and> next_ptr T = next_ptr S"
  by (auto simp: free_buf_def same_queues_def split: if_splits)

lemma free_wait_queues: "free_wait w S = Some T \<Longrightarrow> same_queues S T \<and> waits T = (waits S)(w := None) \<and> outbox T = outbox S \<and>
    bufs T = bufs S \<and> next_ptr T = next_ptr S"
  by (auto simp: free_wait_def same_queues_def split: if_splits)

lemma hand_queues [simp]: "same_queues S (hand x S)"
  by (simp add: same_queues_def hci_simps)

lemma ensures_free_buf: "bufs S p = Some b \<Longrightarrow> Q (S\<lparr>bufs := (bufs S)(p := None)\<rparr>) \<Longrightarrow> ensures Q (free_buf p S)"
  by (simp add: free_buf_def ensures_simps)

lemma ensures_free_wait: "waits S w = Some e \<Longrightarrow> Q (S\<lparr>waits := (waits S)(w := None)\<rparr>) \<Longrightarrow> ensures Q (free_wait w S)"
  by (simp add: free_wait_def ensures_simps)

section \<open>Sending\<close>

lemma enqueue_ok:
  assumes inv: "hinv E S" and own: "owns E S (w # held_waits S)"
  shows "ensures (hinv E) (enqueue_command X w S)"
proof -
  have H: "distinct (w # held_waits S)" using own by (simp add: owns_def)
  have keep: "hinv E T"
    if "waits T = waits S" "bufs T = bufs S" "next_ptr T = next_ptr S" "credit_ok T"
      "commands_pending_response T = commands_pending_response S"
      "command_response_timer T = command_response_timer S" "cmd_line T = cmd_line S @ [w]" for T
  proof -
    have "held_waits T = held_waits S @ [w]" using that by (simp add: held_waits_def pending_def)
    moreover have "owns E T (held_waits S @ [w])"
      by (subst owns_cong [OF that(1-3)], rule owns_perm [OF own]) (use H in auto)
    ultimately show ?thesis using inv that by (simp add: hinv_def timer_ok_def)
  qed
  obtain e b where e: "waits S w = Some e" "bufs S (wc_command e) = Some b" "cmd_ptr S w = wc_command e"
    by (rule ownsE [OF own, of w]) auto
  have refused: "ensures (\<lambda>S1. ensures (hinv E) (free_wait w S1)) (free_buf (wc_command e) S)"
  proof (rule ensures_free_buf [OF e(2)], rule ensures_free_wait [where e = e])
    let ?S1 = "S\<lparr>bufs := (bufs S)(wc_command e := None)\<rparr>"
    let ?S2 = "?S1\<lparr>waits := (waits ?S1)(w := None)\<rparr>"
    show "waits ?S1 w = Some e" using e by simp
    have n: "wc_command e \<notin> cmd_ptr S ` set (held_waits S)"
      using owns_head [OF own] by (simp add: e(3))
    have "owns E ?S1 (held_waits S)"
      by (rule owns_free_buf [OF owns_tl [OF own] _ n]) (use e in \<open>simp add: free_buf_def\<close>)
    then have "owns E ?S2 (held_waits S)"
      by (rule owns_free_wait [where w = w]) (use e H in \<open>simp_all add: free_wait_def\<close>)
    then show "hinv E ?S2" by (rule same_queues_inv [OF _ inv, rotated]) (simp add: same_queues_def)
  qed
  consider "command_credits S > 0" "do_in_thread X S" | "command_credits S > 0" "\<not> do_in_thread X S"
    | "\<not> command_credits S > 0" by blast
  then show ?thesis
  proof cases
    case 1
    then have "command_queue S = []" using inv by (simp add: hinv_def credit_ok_def)
    then show ?thesis using 1
      by (auto simp: enqueue_command_def wp_simps hci_simps credit_ok_def cmd_line_def intro!: keep)
  next
    case 2
    then show ?thesis using refused e by (simp add: enqueue_command_def wp_simps)
  next
    case 3
    then show ?thesis by (auto simp: enqueue_command_def wp_simps credit_ok_def cmd_line_def intro!: keep)
  qed
qed

text \<open>A packet that its owner may transmit: live, not already with the module, its header written.\<close>

definition sendable :: "hci_layer \<Rightarrow> ptr \<Rightarrow> bool" where
  "sendable S p \<longleftrightarrow> p \<notin> cmds S \<and>
     (case bufs S p of None \<Rightarrow> False | Some b \<Rightarrow> head_readable b)"

lemma owns_add:
  assumes own: "owns E S H" and p: "p \<notin> cmd_ptr S ` set H" "bufs S p = Some b" and e: "wc_command e = p"
    and w: "next_ptr S \<le> w" and h: "head_readable b"
    and T: "waits T = (waits S)(w \<mapsto> e)" "next_ptr T = w + 1"
      "bufs T = (bufs S)(p \<mapsto> b\<lparr>bt_event := Some (hci_word E MSG_STACK_TO_HC_HCI_CMD)\<rparr>)"
  shows "owns E T (w # H)"
proof -
  have nw: "w \<notin> set H" "\<And>v. v \<in> dom (waits S) \<Longrightarrow> v < w" "\<And>q. q \<in> dom (bufs S) \<Longrightarrow> q < w"
  proof -
    show "\<And>v. v \<in> dom (waits S) \<Longrightarrow> v < w" "\<And>q. q \<in> dom (bufs S) \<Longrightarrow> q < w"
      using owns_bound [OF own] w by (blast intro: less_le_trans)+
    then show "w \<notin> set H" using ownsE [OF own, of w] by blast
  qed
  have c: "cmd_ptr T v = (if v = w then p else cmd_ptr S v)" for v by (simp add: cmd_ptr_def T e)
  have live: "\<exists>e b. waits T v = Some e \<and> bufs T (wc_command e) = Some b \<and> is_cmd_buf E b" if "v \<in> set (w # H)" for v
  proof (cases "v = w")
    case True
    then show ?thesis using h by (simp add: T e is_cmd_buf_def)
  next
    case False
    then have "v \<in> set H" using that by simp
    then obtain e' b' where "waits S v = Some e'" "bufs S (wc_command e') = Some b'" "is_cmd_buf E b'"
      by (rule ownsE [OF own])
    then show ?thesis using False h by (auto simp: T is_cmd_buf_def)
  qed
  have inj: "inj_on (cmd_ptr T) (set (w # H))"
    using own p(1) nw(1) unfolding owns_def inj_on_def c by (auto simp: image_iff)
  have "\<forall>v\<in>dom (waits T). v < next_ptr T" "\<forall>q\<in>dom (bufs T). q < next_ptr T"
    using nw(2,3) p(2) by (auto simp: T less_Suc_eq)
  then show ?thesis using own nw(1) live inj unfolding owns_def by auto
qed

lemma hinvD:
  assumes "hinv E S"
  shows "owns E S (held_waits S)" "timer_ok S" "credit_ok S" "\<exists>ws. commands_pending_response S = Some ws"
  using assms by (auto simp: hinv_def)

lemma transmit_enqueues:
  assumes inv: "hinv E S" and p: "p \<notin> cmds S" "bufs S p = Some b" and n: "next_ptr S \<le> n" and e: "wc_command e = p"
    and h: "head_readable b"
  shows "ensures (hinv E) (Option.bind (set_cmd_event E p
     (S\<lparr>waits := (waits S)(n \<mapsto> e), next_ptr := n + 1\<rparr>)) (enqueue_command X n))"
proof -
  let ?S1 = "S\<lparr>waits := (waits S)(n \<mapsto> e), next_ptr := n + 1\<rparr>"
  let ?S2 = "?S1\<lparr>bufs := (bufs S)(p \<mapsto> b\<lparr>bt_event := Some (hci_word E MSG_STACK_TO_HC_HCI_CMD)\<rparr>)\<rparr>"
  have own: "owns E ?S2 (n # held_waits S)"
    by (rule owns_add [OF hinvD(1) [OF inv] p(1) [unfolded cmds_def] p(2) e n h]) simp_all
  have h: "held_waits ?S2 = held_waits S" by (simp add: line_defs)
  have "owns E ?S2 (held_waits S)" using own by (rule owns_tl)
  then have "hinv E ?S2" by (rule same_queues_inv [OF _ inv, rotated]) (simp add: same_queues_def)
  then have "ensures (hinv E) (enqueue_command X n ?S2)"
    using own by (intro enqueue_ok) (simp_all only: h)
  then show ?thesis using p by (simp add: set_cmd_event_def wp_simps)
qed

lemma sendableE:
  assumes "sendable S p"
  obtains b op where "p \<notin> cmds S" "bufs S p = Some b" "rd16 E b (unat (bt_offset b)) = Some op" "head_readable b"
  using assms head_readable_opcode by (fastforce simp: sendable_def split: option.splits)

lemma transmit_command_ok:
  assumes "hinv E S" "sendable S p"
  shows "ensures (hinv E) (transmit_command E X p cc sc ctx S)"
proof -
  obtain b op where b: "p \<notin> cmds S" "bufs S p = Some b" "rd16 E b (unat (bt_offset b)) = Some op"
    "head_readable b" using sendableE [OF assms(2)] .
  show ?thesis
    using transmit_enqueues [OF assms(1) b(1,2) order.refl _ b(4), of "\<lparr>wc_opcode = op, wc_complete_future = None,
        wc_complete_callback = cc, wc_status_callback = sc, wc_context = ctx, wc_command = p, wc_timestamp = 0\<rparr>" X] b
    by (simp add: transmit_command_def new_wait_def Let_def)
qed

lemma transmit_command_futured_ok:
  assumes "hinv E S" "sendable S p"
  shows "ensures (\<lambda>(f, T). hinv E T) (transmit_command_futured E X p S)"
proof -
  obtain b op where b: "p \<notin> cmds S" "bufs S p = Some b" "rd16 E b (unat (bt_offset b)) = Some op"
    "head_readable b" using sendableE [OF assms(2)] .
  show ?thesis
    using transmit_enqueues [OF assms(1) b(1,2) _ _ b(4), of "next_ptr S + 1" "\<lparr>wc_opcode = op,
        wc_complete_future = Some (next_ptr S), wc_complete_callback = None, wc_status_callback = None,
        wc_context = None, wc_command = p, wc_timestamp = 0\<rparr>" X] b
    by (simp add: transmit_command_futured_def new_wait_def future_new_def Let_def wp_simps)
qed

section \<open>Receiving\<close>

definition op_of :: "hci_layer \<Rightarrow> ptr \<Rightarrow> u16" where
  "op_of S w = (case waits S w of None \<Rightarrow> 0 | Some e \<Rightarrow> wc_opcode e)"

text \<open>The entry that a response with this opcode answers.\<close>

definition waiting_for :: "hci_hdrs \<Rightarrow> u16 \<Rightarrow> hci_layer \<Rightarrow> ptr option" where
  "waiting_for E opcode S =
     (case List.find (\<lambda>w. op_of S w = opcode) (pending S) of
        Some w \<Rightarrow> Some w
      | None \<Rightarrow> List.find (\<lambda>w. op_of S w \<noteq> opcode \<and> is_vendor E (op_of S w) \<and> is_vendor E opcode) (pending S))"

definition without :: "ptr option \<Rightarrow> hci_layer \<Rightarrow> hci_layer" where
  "without we S =
     (case we of None \<Rightarrow> S | Some w \<Rightarrow> S\<lparr>commands_pending_response := Some (remove1 w (pending S))\<rparr>)"

lemma find_waiting_find:
  "\<forall>w\<in>set ws. waits S w \<noteq> None \<Longrightarrow> find_waiting P S ws = Some (List.find (\<lambda>w. P (op_of S w)) ws)"
  by (induction ws) (auto simp: op_of_def)

lemma get_waiting_spec:
  assumes "hinv E S"
  shows "get_waiting_command E opcode S = Some (waiting_for E opcode S, without (waiting_for E opcode S) S)"
proof -
  obtain ws where ws: "commands_pending_response S = Some ws" using hinvD(4) [OF assms] by blast
  have "waits S w \<noteq> None" if "w \<in> set ws" for w
    by (rule ownsE [OF hinvD(1) [OF assms], of w]) (use that ws in \<open>auto simp: line_defs\<close>)
  then have live: "\<forall>w\<in>set ws. waits S w \<noteq> None" by blast
  show ?thesis
    by (simp add: get_waiting_command_def ws find_waiting_find [OF live] waiting_for_def without_def pending_def
        split: option.split)
qed

lemma waiting_for_pending: "waiting_for E opcode S = Some w \<Longrightarrow> w \<in> set (pending S)"
  by (auto simp: waiting_for_def find_Some_iff split: option.splits)

text \<open>
  The invariant between taking an entry off the list and setting the timer again: \<open>H\<close> are entries
  in the hands of the running operation.
\<close>

definition qinv :: "hci_hdrs \<Rightarrow> ptr list \<Rightarrow> hci_layer \<Rightarrow> bool" where
  "qinv E H S \<longleftrightarrow> owns E S (H @ held_waits S) \<and> credit_ok S \<and> commands_pending_response S \<noteq> None"

definition same_store :: "hci_layer \<Rightarrow> hci_layer \<Rightarrow> bool" where
  "same_store S T \<longleftrightarrow> waits T = waits S \<and> bufs T = bufs S \<and> next_ptr T = next_ptr S \<and> outbox T = outbox S"

lemma hinv_qinv: "hinv E S \<longleftrightarrow> qinv E [] S \<and> timer_ok S"
  by (auto simp: hinv_def qinv_def)

lemma qinv_without:
  assumes "hinv E S" "w \<in> set (pending S)"
  shows "qinv E [w] (without (Some w) S)"
proof -
  have "owns E S (w # remove1 w (pending S) @ cmd_line S)"
    using owns_distinct [OF hinvD(1) [OF assms(1)]] assms(2)
    by (intro owns_perm [OF hinvD(1) [OF assms(1)]]) (auto simp: held_waits_def set_remove1_eq distinct_remove1)
  moreover have "held_waits (without (Some w) S) = remove1 w (pending S) @ cmd_line S"
    by (simp add: line_defs without_def)
  ultimately show ?thesis
    using hinvD(3) [OF assms(1)] owns_cong [of "without (Some w) S" S]
    by (simp add: qinv_def credit_ok_def without_def)
qed

lemma post_queue_spec:
  defines "A S \<equiv> concat (map cmd_task (thread_tasks S))"
  assumes "T = post_queue X ws S"
  shows "same_store S T \<and> commands_pending_response T = commands_pending_response S \<and>
    command_response_timer T = command_response_timer S \<and> credit_ok T \<and>
    set (cmd_line T) \<subseteq> set (A S @ ws) \<and> (distinct (A S @ ws) \<longrightarrow> distinct (cmd_line T)) \<and>
    ((\<forall>U. do_in_thread X U) \<longrightarrow> cmd_line T = A S @ ws)"
  using assms(2) unfolding A_def
proof (induction ws arbitrary: S)
  case Nil
  then show ?case by (simp add: same_store_def credit_ok_def cmd_line_def)
next
  case (Cons w ws)
  show ?case
  proof (cases "command_credits S > 0")
    case True
    let ?S1 = "if do_in_thread X S then post_task (Event_command_ready w) S else S"
    let ?U = "?S1\<lparr>command_queue := ws, command_credits := command_credits S - 1\<rparr>"
    have T: "T = post_queue X ws ?U" using Cons.prems True by (simp add: Let_def)
    have a: "concat (map cmd_task (thread_tasks ?U)) = concat (map cmd_task (thread_tasks S)) @ (if do_in_thread X S then [w] else [])"
      by (simp add: hci_simps)
    have f: "same_store S ?U" "commands_pending_response ?U = commands_pending_response S"
      "command_response_timer ?U = command_response_timer S" by (auto simp: same_store_def hci_simps)
    show ?thesis using Cons.IH [OF T] f unfolding a by (auto simp: same_store_def)
  next
    case False
    then show ?thesis using Cons.prems by (auto simp: same_store_def credit_ok_def cmd_line_def)
  qed
qed

lemma process_credits_ok:
  assumes "qinv E H S"
  shows "ensures (\<lambda>T. qinv E H T \<and> same_store S T \<and> commands_pending_response T = commands_pending_response S \<and>
      command_response_timer T = command_response_timer S \<and> set (cmd_line T) \<subseteq> set (cmd_line S) \<and>
      ((\<forall>U. do_in_thread X U) \<longrightarrow> cmd_line T = cmd_line S)) (process_command_credits X c S)"
proof (cases "thread_is_running X S")
  case False
  then show ?thesis using assms by (simp add: process_command_credits_def wp_simps same_store_def)
next
  case True
  obtain ws where ws: "commands_pending_response S = Some ws" using assms by (auto simp: qinv_def)
  define S0 where "S0 = S\<lparr>command_credits := c - int (length ws)\<rparr>"
  define T where "T = post_queue X (command_queue S) S0"
  have eq: "process_command_credits X c S = Some T"
    using True ws by (simp add: process_command_credits_def get_num_waiting_commands_def T_def S0_def)
  have tasks: "thread_tasks S0 = thread_tasks S" by (simp add: S0_def)
  note T = post_queue_spec [OF T_def, unfolded tasks, folded cmd_line_def]
  have f: "same_store S T" "commands_pending_response T = commands_pending_response S"
    "command_response_timer T = command_response_timer S"
    using T by (simp_all add: same_store_def S0_def)
  have d: "distinct (H @ held_waits S)" using assms owns_distinct unfolding qinv_def by blast
  then have sub: "distinct (H @ held_waits T)" "set (H @ held_waits T) \<subseteq> set (H @ held_waits S)"
    using T f(2) unfolding held_waits_def pending_def by auto
  have "owns E S (H @ held_waits S)" using assms by (simp add: qinv_def)
  then have "owns E S (H @ held_waits T)" by (rule owns_sub [OF _ sub])
  then have "owns E T (H @ held_waits T)" using f(1) owns_cong [of T S] by (simp add: same_store_def)
  moreover have "commands_pending_response T \<noteq> None" unfolding f(2) ws by simp
  ultimately have "qinv E H T" using T by (simp add: qinv_def)
  then show ?thesis using T f eq by (simp add: wp_simps)
qed

lemma update_timer_ok:
  assumes "qinv E H S"
  shows "ensures (\<lambda>T. qinv E H T \<and> timer_ok T \<and> same_store S T \<and> cmd_line T = cmd_line S \<and>
      commands_pending_response T = commands_pending_response S) (update_command_response_timer S)"
proof -
  obtain ws where ws: "commands_pending_response S = Some ws" using assms by (auto simp: qinv_def)
  have keep: "qinv E H (S\<lparr>command_response_timer := t\<rparr>)" for t
    using assms owns_cong [of "S\<lparr>command_response_timer := t\<rparr>" S]
    by (simp add: qinv_def line_defs credit_ok_def)
  show ?thesis using assms keep ws
    by (auto simp: update_command_response_timer_def wp_simps timer_ok_def same_store_def cmd_line_def
        split: option.split list.split)
qed

text \<open>
  The contract of a response. A command complete event goes to the entry's callback or future; the
  packet is freed only when there is neither, and the command is freed. A command status event goes
  to the status callback, which then owns the command, or else to the future, which then owns the
  packet; whatever was not handed over is freed. The wait entry is freed in every case.
\<close>

definition deliver_complete :: "waiting_command \<Rightarrow> ptr \<Rightarrow> handed list" where
  "deliver_complete e packet =
     (case wc_complete_callback e of
        Some cb \<Rightarrow> [Complete_call cb packet (wc_context e)]
      | None \<Rightarrow> (case wc_complete_future e of Some f \<Rightarrow> [Future_ready f (Fut_packet packet)] | None \<Rightarrow> []))"

definition deliver_status :: "waiting_command \<Rightarrow> u8 \<Rightarrow> ptr \<Rightarrow> handed list" where
  "deliver_status e status packet =
     (case wc_status_callback e of
        Some cb \<Rightarrow> [Status_call cb status (wc_command e) (wc_context e)]
      | None \<Rightarrow> (case wc_complete_future e of Some f \<Rightarrow> [Future_ready f (Fut_packet packet)] | None \<Rightarrow> []))"

definition freed_complete :: "waiting_command \<Rightarrow> ptr \<Rightarrow> ptr set" where
  "freed_complete e packet = insert (wc_command e) (if deliver_complete e packet = [] then {packet} else {})"

definition freed_status :: "waiting_command \<Rightarrow> ptr \<Rightarrow> ptr set" where
  "freed_status e packet =
     (if wc_status_callback e = None then {wc_command e} else {}) \<union>
     (if wc_status_callback e = None \<and> wc_complete_future e \<noteq> None then {} else {packet})"

definition answered :: "ptr option \<Rightarrow> (waiting_command \<Rightarrow> ptr set) \<Rightarrow> (waiting_command \<Rightarrow> handed list) \<Rightarrow> ptr \<Rightarrow>
    hci_layer \<Rightarrow> hci_layer \<Rightarrow> bool" where
  "answered we F D packet S T \<longleftrightarrow>
     (case we of
        None \<Rightarrow> waits T = waits S \<and> bufs T = (bufs S)(packet := None) \<and> outbox T = outbox S
      | Some w \<Rightarrow> \<exists>e. waits S w = Some e \<and> waits T = (waits S)(w := None) \<and>
                   bufs T = bufs S |` (- F e) \<and> outbox T = outbox S @ D e)"

lemma intercepted_eq:
  assumes "waits S w = Some e" "bufs S packet = Some b" "bufs S (wc_command e) = Some c" "packet \<noteq> wc_command e"
    and F: "F = (if (st \<and> \<not> given) \<or> (wc_complete_callback e = None \<and> wc_complete_future e = None) then {packet} else {}) \<union>
      (if \<not> st \<or> wc_status_callback e = None then {wc_command e} else {})"
  shows "intercepted st given (Some w) packet S =
    Some (True, S\<lparr>bufs := bufs S |` (- F), waits := (waits S)(w := None)\<rparr>)"
proof -
  have r: "(bufs S)(packet := None) = bufs S |` (- {packet})" "(bufs S)(wc_command e := None) = bufs S |` (- {wc_command e})"
    "bufs S |` (- {packet}) |` (- {wc_command e}) = bufs S |` (- {packet, wc_command e})"
    "bufs S |` UNIV = bufs S"
    by (auto simp: restrict_map_def fun_eq_iff)
  have u: "(bufs S)(packet := None, wc_command e := None) = bufs S |` (- {packet, wc_command e})"
    "(bufs S)(wc_command e := None, packet := None) = bufs S |` (- {packet, wc_command e})"
    by (auto simp: restrict_map_def fun_eq_iff)
  show ?thesis
    using assms(1-4) unfolding F intercepted_def
    by (auto simp: free_buf_def free_wait_def r u insert_commute Diff_eq split: if_splits)
qed

lemma owns_release:
  assumes "owns E S (w # H)" "F \<inter> cmd_ptr S ` set H = {}"
  shows "owns E (S\<lparr>bufs := bufs S |` (- F), waits := (waits S)(w := None)\<rparr>) H" (is "owns E ?T H")
proof -
  have w: "w \<notin> set H" using owns_distinct [OF assms(1)] by simp
  have H: "owns E S H" using assms(1) by (rule owns_tl)
  have c: "cmd_ptr ?T v = cmd_ptr S v" if "v \<in> set H" for v using that w by (auto simp: cmd_ptr_def)
  have live: "\<exists>e b. waits ?T v = Some e \<and> bufs ?T (wc_command e) = Some b \<and> is_cmd_buf E b" if v: "v \<in> set H" for v
  proof (rule ownsE [OF H v])
    fix e b assume e: "waits S v = Some e" "bufs S (wc_command e) = Some b" "is_cmd_buf E b" "cmd_ptr S v = wc_command e"
    then have "wc_command e \<notin> F" using assms(2) imageI [OF v, of "cmd_ptr S"] by auto
    then show ?thesis using e v w by auto
  qed
  have inj: "inj_on (cmd_ptr ?T) (set H)" using H c unfolding owns_def inj_on_def by simp
  have "\<forall>v\<in>dom (waits ?T). v < next_ptr ?T" "\<forall>q\<in>dom (bufs ?T). q < next_ptr ?T"
    using owns_bound [OF H] by (auto simp: restrict_map_def split: if_splits)
  then show ?thesis using owns_distinct [OF H] live inj unfolding owns_def by blast
qed

text \<open>
  An entry in hand, the timer set again: handing over, freeing and dropping the entry restores the
  invariant.
\<close>

lemma intercepted_ok:
  assumes q: "qinv E [w] S" "timer_ok S" and e: "waits S w = Some e" and p: "bufs S packet = Some b"
    and np: "packet \<notin> cmd_ptr S ` set (w # held_waits S)"
    and F: "F = (if (st \<and> \<not> given) \<or> (wc_complete_callback e = None \<and> wc_complete_future e = None) then {packet} else {}) \<union>
      (if \<not> st \<or> wc_status_callback e = None then {wc_command e} else {})"
    and U: "U = S\<lparr>outbox := out\<rparr>"
  shows "\<exists>T. intercepted st given (Some w) packet U = Some (True, T) \<and> hinv E T \<and>
    waits T = (waits S)(w := None) \<and> bufs T = bufs S |` (- F) \<and> outbox T = out \<and> cmd_line T = cmd_line S"
proof -
  have own: "owns E S (w # held_waits S)" using q by (simp add: qinv_def)
  obtain c where c: "bufs S (wc_command e) = Some c" "cmd_ptr S w = wc_command e"
    using ownsE [OF own, of w] e by (metis list.set_intros(1) option.inject)
  have ne: "packet \<noteq> wc_command e" using np c(2) by auto
  have F': "F \<inter> cmd_ptr S ` set (held_waits S) = {}"
    using owns_head [OF own, unfolded c(2)] np unfolding F by (cases st) (simp_all split: if_split)
  define T where "T = U\<lparr>bufs := bufs U |` (- F), waits := (waits U)(w := None)\<rparr>"
  have eq: "intercepted st given (Some w) packet U = Some (True, T)"
    unfolding T_def by (rule intercepted_eq [OF _ _ _ ne F]) (use e p c in \<open>simp_all add: U\<close>)
  have own': "owns E U (w # held_waits S)" "cmd_ptr U = cmd_ptr S"
    using own owns_cong [of U S] by (simp_all add: U cmd_ptr_def fun_eq_iff)
  have "owns E T (held_waits S)"
    unfolding T_def by (rule owns_release [OF own'(1)]) (simp add: own'(2) F')
  moreover have "held_waits T = held_waits S" "cmd_line T = cmd_line S" by (simp_all add: T_def U line_defs)
  ultimately have "hinv E T" using q unfolding hinv_def qinv_def timer_ok_def credit_ok_def by (simp add: T_def U)
  then show ?thesis using eq by (simp add: T_def U cmd_line_def)
qed

lemma respond_some:
  assumes inv: "hinv E S" and w: "waiting_for E op S = Some w"
  obtains S2 S3 e where "process_command_credits X c (without (Some w) S) = Some S2"
    "update_command_response_timer S2 = Some S3" "qinv E [w] S3" "timer_ok S3" "same_store S S3"
    "waits S w = Some e" "insert w (set (held_waits S3)) \<subseteq> set (held_waits S)"
    "(\<forall>U. do_in_thread X U) \<longrightarrow> cmd_line S3 = cmd_line S"
proof -
  have wp: "w \<in> set (pending S)" using waiting_for_pending [OF w] .
  have q: "qinv E [w] (without (Some w) S)" by (rule qinv_without [OF inv wp])
  have l: "cmd_line (without (Some w) S) = cmd_line S" "same_store S (without (Some w) S)"
    "pending (without (Some w) S) = remove1 w (pending S)"
    by (simp_all add: without_def line_defs same_store_def)
  obtain S2 where S2: "process_command_credits X c (without (Some w) S) = Some S2" "qinv E [w] S2"
    "same_store (without (Some w) S) S2" "(\<forall>U. do_in_thread X U) \<longrightarrow> cmd_line S2 = cmd_line S"
    "set (cmd_line S2) \<subseteq> set (cmd_line S)" "pending S2 = remove1 w (pending S)"
    by (rule ensuresE [OF process_credits_ok [OF q, of X c]])
      (metis l(1) l(3) pending_def)
  obtain S3 where S3: "update_command_response_timer S2 = Some S3" "qinv E [w] S3" "timer_ok S3" "same_store S2 S3"
    "cmd_line S3 = cmd_line S2" "pending S3 = pending S2"
    by (rule ensuresE [OF update_timer_ok [OF S2(2)]]) (metis pending_def)
  obtain e where e: "waits S w = Some e"
    using ownsE [OF hinvD(1) [OF inv], of w] wp by (metis Un_iff held_waits_def set_append)
  have "insert w (set (held_waits S3)) \<subseteq> set (held_waits S)"
    using S2(5) wp set_remove1_subset [of w "pending S"] unfolding held_waits_def S3(5,6) S2(6) by auto
  moreover have "same_store S S3" using l(2) S2(3) S3(4) by (simp add: same_store_def)
  moreover have "(\<forall>U. do_in_thread X U) \<longrightarrow> cmd_line S3 = cmd_line S" using S2(4) S3(5) by simp
  ultimately show ?thesis using that S2(1) S3(1-3) e by blast
qed

lemma respond_none:
  assumes inv: "hinv E S" and w: "waiting_for E op S = None" and p: "bufs S packet = Some b" "packet \<notin> cmds S"
  obtains S2 T where "process_command_credits X c S = Some S2" "intercepted st False None packet S2 = Some (True, T)"
    "hinv E T" "answered None F D packet S T" "(\<forall>U. do_in_thread X U) \<longrightarrow> cmd_line T = cmd_line S"
proof -
  have q: "qinv E [] S" using inv by (simp add: hinv_qinv)
  obtain S2 where S2: "process_command_credits X c S = Some S2" "qinv E [] S2" "same_store S S2"
    "(\<forall>U. do_in_thread X U) \<longrightarrow> cmd_line S2 = cmd_line S" "set (cmd_line S2) \<subseteq> set (cmd_line S)"
    "commands_pending_response S2 = commands_pending_response S" "command_response_timer S2 = command_response_timer S"
    by (rule ensuresE [OF process_credits_ok [OF q, of X c]]) blast
  have inv2: "hinv E S2" using S2(2,6,7) hinvD(2) [OF inv] by (simp add: hinv_qinv timer_ok_def)
  define T where "T = S2\<lparr>bufs := (bufs S2)(packet := None)\<rparr>"
  have T: "free_buf packet S2 = Some T" using p S2(3) by (simp add: free_buf_def T_def same_store_def)
  have "set (held_waits S2) \<subseteq> set (held_waits S)" using S2(5,6) unfolding held_waits_def pending_def by auto
  then have np: "packet \<notin> cmd_ptr S2 ` set (held_waits S2)"
    using p(2) S2(3) cmd_ptr_cong [of S2 S] unfolding cmds_def same_store_def by auto
  have "owns E T (held_waits S2)" by (rule owns_free_buf [OF hinvD(1) [OF inv2] T np])
  then have "hinv E T" using free_buf_queues [OF T] by (blast intro: same_queues_inv [OF _ inv2])
  moreover have "answered None F D packet S T" using S2(3) by (simp add: answered_def T_def same_store_def)
  moreover have "cmd_line T = cmd_line S2" by (simp add: T_def cmd_line_def)
  ultimately show ?thesis using that [OF S2(1), of T] T S2(4) by (simp add: intercepted_def)
qed

lemma packet_apart:
  assumes "packet \<notin> cmds S" "same_store S T" "insert w (set (held_waits T)) \<subseteq> set (held_waits S)"
  shows "packet \<notin> cmd_ptr T ` set (w # held_waits T)"
  using assms cmd_ptr_cong [of T S] unfolding cmds_def same_store_def by auto

lemma complete_event_ok:
  assumes inv: "hinv E S" and p: "bufs S packet = Some b" "packet \<notin> cmds S" and r: "rd8 b 2 = Some c" "rd16 E b 3 = Some op"
  shows "\<exists>T. complete_event E X packet b S = Some (True, T) \<and> hinv E T \<and>
    answered (waiting_for E op S) (\<lambda>e. freed_complete e packet) (\<lambda>e. deliver_complete e packet) packet S T \<and>
    ((\<forall>U. do_in_thread X U) \<longrightarrow> cmd_line T = cmd_line S)"
proof (cases "waiting_for E op S")
  case None
  show ?thesis
    by (rule respond_none [OF inv None p, where c = "uint c" and st = False and X = X])
      (auto simp: complete_event_def r get_waiting_spec [OF inv] None without_def)
next
  case (Some w)
  obtain S2 S3 e where s: "process_command_credits X (uint c) (without (Some w) S) = Some S2"
    "update_command_response_timer S2 = Some S3" "qinv E [w] S3" "timer_ok S3" "same_store S S3"
    "waits S w = Some e" "insert w (set (held_waits S3)) \<subseteq> set (held_waits S)"
    "(\<forall>U. do_in_thread X U) \<longrightarrow> cmd_line S3 = cmd_line S"
    by (rule respond_some [OF inv Some])
  have e3: "waits S3 w = Some e" "bufs S3 packet = Some b" using s(5,6) p(1) by (simp_all add: same_store_def)
  define U where "U = S3\<lparr>outbox := outbox S3 @ deliver_complete e packet\<rparr>"
  have F: "freed_complete e packet =
      (if (False \<and> \<not> False) \<or> (wc_complete_callback e = None \<and> wc_complete_future e = None) then {packet} else {}) \<union>
      (if \<not> False \<or> wc_status_callback e = None then {wc_command e} else {})"
    by (auto simp: freed_complete_def deliver_complete_def split: option.split)
  obtain T where T: "intercepted False False (Some w) packet U = Some (True, T)" "hinv E T"
    "waits T = (waits S3)(w := None)" "bufs T = bufs S3 |` (- freed_complete e packet)"
    "outbox T = outbox S3 @ deliver_complete e packet" "cmd_line T = cmd_line S3"
    using intercepted_ok [OF s(3,4) e3 packet_apart [OF p(2) s(5,7)] F U_def] by blast
  have "complete_event E X packet b S = Some (True, T)"
    using T(1) unfolding U_def deliver_complete_def
    by (auto simp: complete_event_def r get_waiting_spec [OF inv] Some s(1,2) e3 hand_def split: option.splits)
  then show ?thesis using T s(5,6,8) by (simp add: answered_def Some same_store_def)
qed

lemma status_event_ok:
  assumes inv: "hinv E S" and p: "bufs S packet = Some b" "packet \<notin> cmds S"
    and r: "rd8 b 2 = Some st" "rd8 b 3 = Some c" "rd16 E b 4 = Some op"
  shows "\<exists>T. status_event E X packet b S = Some (True, T) \<and> hinv E T \<and>
    answered (waiting_for E op S) (\<lambda>e. freed_status e packet) (\<lambda>e. deliver_status e st packet) packet S T \<and>
    ((\<forall>U. do_in_thread X U) \<longrightarrow> cmd_line T = cmd_line S)"
proof (cases "waiting_for E op S")
  case None
  show ?thesis
    by (rule respond_none [OF inv None p, where c = "uint c" and st = True and X = X])
      (auto simp: status_event_def r get_waiting_spec [OF inv] None without_def)
next
  case (Some w)
  obtain S2 S3 e where s: "process_command_credits X (uint c) (without (Some w) S) = Some S2"
    "update_command_response_timer S2 = Some S3" "qinv E [w] S3" "timer_ok S3" "same_store S S3"
    "waits S w = Some e" "insert w (set (held_waits S3)) \<subseteq> set (held_waits S)"
    "(\<forall>U. do_in_thread X U) \<longrightarrow> cmd_line S3 = cmd_line S"
    by (rule respond_some [OF inv Some])
  have e3: "waits S3 w = Some e" "bufs S3 packet = Some b" using s(5,6) p(1) by (simp_all add: same_store_def)
  define U where "U = S3\<lparr>outbox := outbox S3 @ deliver_status e st packet\<rparr>"
  define given where "given = (wc_status_callback e = None \<and> wc_complete_future e \<noteq> None)"
  have F: "freed_status e packet =
      (if (True \<and> \<not> given) \<or> (wc_complete_callback e = None \<and> wc_complete_future e = None) then {packet} else {}) \<union>
      (if \<not> True \<or> wc_status_callback e = None then {wc_command e} else {})"
    by (auto simp: freed_status_def given_def)
  obtain T where T: "intercepted True given (Some w) packet U = Some (True, T)" "hinv E T"
    "waits T = (waits S3)(w := None)" "bufs T = bufs S3 |` (- freed_status e packet)"
    "outbox T = outbox S3 @ deliver_status e st packet" "cmd_line T = cmd_line S3"
    using intercepted_ok [OF s(3,4) e3 packet_apart [OF p(2) s(5,7)] F U_def] by blast
  have "status_event E X packet b S = Some (True, T)"
    using T(1) unfolding U_def deliver_status_def given_def
    by (auto simp: status_event_def r get_waiting_spec [OF inv] Some s(1,2) e3 hand_def split: option.splits)
  then show ?thesis using T s(5,6,8) by (simp add: answered_def Some same_store_def)
qed

end
