(* ===== verification/Machine.thy ===== *)
theory Machine
  imports Prelude
begin

text \<open>
  Interfaces of a component that is driven by calls: an executable call function that may fault, a
  precondition of each call and an invariant. A component that provides the law of
  \<open>safe_machine\<close> never faults along any run of allowed calls; one that provides the law of
  \<open>fifo_machine\<close> in addition releases its requests in the order in which they were made.
\<close>

fun run_calls :: "('c \<Rightarrow> 's \<Rightarrow> 's option) \<Rightarrow> 'c list \<Rightarrow> 's \<Rightarrow> 's option" where
  "run_calls exec [] S = Some S"
| "run_calls exec (c # cs) S = Option.bind (exec c S) (run_calls exec cs)"

fun allowed_run :: "('c \<Rightarrow> 's \<Rightarrow> 's option) \<Rightarrow> ('c \<Rightarrow> 's \<Rightarrow> bool) \<Rightarrow> 'c list \<Rightarrow> 's \<Rightarrow> bool" where
  "allowed_run exec allowed [] S \<longleftrightarrow> True"
| "allowed_run exec allowed (c # cs) S \<longleftrightarrow>
     allowed c S \<and> (case exec c S of None \<Rightarrow> True | Some T \<Rightarrow> allowed_run exec allowed cs T)"

locale safe_machine =
  fixes exec :: "'c \<Rightarrow> 's \<Rightarrow> 's option" and allowed :: "'c \<Rightarrow> 's \<Rightarrow> bool" and inv :: "'s \<Rightarrow> bool"
  assumes call_safe: "inv S \<Longrightarrow> allowed c S \<Longrightarrow> ensures inv (exec c S)"
begin

lemma run_safe: "inv S \<Longrightarrow> allowed_run exec allowed cs S \<Longrightarrow> ensures inv (run_calls exec cs S)"
proof (induction cs arbitrary: S)
  case Nil
  then show ?case by (simp add: ensures_simps)
next
  case (Cons c cs)
  then have "ensures inv (exec c S)" by (intro call_safe) simp_all
  then show ?case by (rule ensuresE) (use Cons in auto)
qed

end

locale fifo_machine = safe_machine exec allowed inv
  for exec :: "'c \<Rightarrow> 's \<Rightarrow> 's option" and allowed :: "'c \<Rightarrow> 's \<Rightarrow> bool" and inv :: "'s \<Rightarrow> bool" +
  fixes line :: "'s \<Rightarrow> 'a list" and released :: "'s \<Rightarrow> 'a list" and request :: "'c \<Rightarrow> 'a list"
  assumes call_order:
    "inv S \<Longrightarrow> allowed c S \<Longrightarrow> exec c S = Some T \<Longrightarrow> released T @ line T = released S @ line S @ request c"
begin

lemma run_order:
  "inv S \<Longrightarrow> allowed_run exec allowed cs S \<Longrightarrow> run_calls exec cs S = Some T \<Longrightarrow>
   released T @ line T = released S @ line S @ concat (map request cs)"
proof (induction cs arbitrary: S)
  case Nil
  then show ?case by simp
next
  case (Cons c cs)
  then obtain U where U: "exec c S = Some U" "inv U"
    using call_safe [of S c] by (auto simp: ensures_def)
  then show ?case using Cons call_order [of S c U] by auto
qed

end

end
