(* ===== verification/Hci_System.thy ===== *)
theory Hci_System
  imports Hci_Layer_Inv Machine
begin

text \<open>
  The HCI layer as a system: the calls that the upper layers, the transport, the fragmenter and the
  timers make on it, when each of them is allowed, and the states that can be reached. No allowed
  call faults in a reachable state.
\<close>

section \<open>Single calls\<close>

text \<open>The command packets on their way, and those already released to the fragmenter, oldest first.\<close>

definition line_pkts :: "hci_layer \<Rightarrow> ptr list" where
  "line_pkts S = map (cmd_ptr S) (cmd_line S)"

fun dispatched :: "handed list \<Rightarrow> ptr list" where
  "dispatched [] = []"
| "dispatched (Dispatch_command p # xs) = p # dispatched xs"
| "dispatched (x # xs) = dispatched xs"

definition released :: "hci_layer \<Rightarrow> ptr list" where
  "released S = dispatched (outbox S)"

lemma dispatched_append [simp]: "dispatched (xs @ ys) = dispatched xs @ dispatched ys"
  by (induction xs rule: dispatched.induct) simp_all

lemma dispatched_transmit [simp]: "dispatched (map Hci_transmit xs) = []"
  by (induction xs) simp_all

lemma same_line:
  assumes "hinv E T" "waits T \<subseteq>\<^sub>m waits S" "cmd_line T = cmd_line S"
  shows "line_pkts T = line_pkts S"
proof -
  have "cmd_ptr T v = cmd_ptr S v" if v: "v \<in> set (cmd_line T)" for v
  proof (rule ownsE [OF hinvD(1) [OF assms(1)]])
    show "v \<in> set (held_waits T)" using v by (simp add: held_waits_def)
    fix e assume "waits T v = Some e"
    moreover from this have "waits S v = Some e" using assms(2) by (metis domI map_le_def)
    ultimately show ?thesis by (simp add: cmd_ptr_def)
  qed
  then show ?thesis unfolding line_pkts_def assms(3) [symmetric] by simp
qed

lemma answered_frame:
  assumes "answered we F D packet S T" "\<And>e. dispatched (D e) = []"
  shows "waits T \<subseteq>\<^sub>m waits S \<and> released T = released S"
  using assms by (auto simp: answered_def released_def map_le_def split: option.splits if_splits)

lemma deliver_frame: "dispatched (deliver_complete e p) = []" "dispatched (deliver_status e st p) = []"
  by (auto simp: deliver_complete_def deliver_status_def split: option.split)

text \<open>
  An event packet from the transport: live, not a command, and holding the bytes that the filter
  reads of it: five of a command complete event, six of a command status event, the subcode of a
  vendor event and, in a quality report, what the subcode announces; of any other event the filter
  reads the event code alone.
\<close>

definition root_inflammation :: "bt_hdr \<Rightarrow> bool" where
  "root_inflammation b \<longleftrightarrow>
     rd8 b 0 = Some 0xFF \<and> rd8 b 2 = Some 0x58 \<and> rd8 b 3 = Some 0x05 \<and> 7 \<le> unat (bt_len b)"

definition event_reads :: "bt_hdr \<Rightarrow> nat" where
  "event_reads b =
     (if rd8 b 0 = Some 0x0E then 5
      else if rd8 b 0 = Some 0x0F \<or> root_inflammation b then 6
      else if rd8 b 0 = Some 0xFF then (if rd8 b 2 = Some 0x58 then 4 else 3)
      else 1)"

definition event_ok :: "hci_layer \<Rightarrow> ptr \<Rightarrow> bool" where
  "event_ok S p \<longleftrightarrow> p \<notin> cmds S \<and>
     (case bufs S p of None \<Rightarrow> False
      | Some b \<Rightarrow> event_reads b \<le> length (bt_data b) \<and> initialised (take (event_reads b) (bt_data b)))"

lemma initialised_rd8:
  assumes "n \<le> length (bt_data b)" "initialised (take n (bt_data b))" "i < n"
  shows "\<exists>x. rd8 b i = Some x"
proof -
  have "take n (bt_data b) ! i \<noteq> None"
    using assms nth_mem [of i "take n (bt_data b)"] unfolding initialised_def by (metis length_take min.absorb2)
  then show ?thesis using assms by (auto simp: rd8_def)
qed

lemma event_reads_pos: "0 < event_reads b"
  by (simp add: event_reads_def)

lemma event_okE:
  assumes "event_ok S p"
  obtains b c where "p \<notin> cmds S" "bufs S p = Some b" "rd8 b 0 = Some c" "\<And>i. i < event_reads b \<Longrightarrow> \<exists>x. rd8 b i = Some x"
proof -
  obtain b where b: "p \<notin> cmds S" "bufs S p = Some b" "event_reads b \<le> length (bt_data b)" "initialised (take (event_reads b) (bt_data b))"
    using assms by (auto simp: event_ok_def split: option.splits)
  note r = initialised_rd8 [OF b(3,4)]
  from r [OF event_reads_pos] obtain c where "rd8 b 0 = Some c" by blast
  then show thesis using that b(1,2) r by blast
qed

lemma rd16_some: "\<lbrakk>\<exists>x. rd8 b i = Some x; \<exists>x. rd8 b (i + 1) = Some x\<rbrakk> \<Longrightarrow> \<exists>x. rd16 E b i = Some x"
  by (auto simp: rd16_def)

text \<open>
  What becomes of an event packet: it is freed, or handed over once and still live. \<open>gives\<close> are
  the hand-overs that pass on the ownership.
\<close>

primrec gives :: "ptr \<Rightarrow> handed \<Rightarrow> bool" where
  "gives p (Complete_call cb q ctx) \<longleftrightarrow> q = p"
| "gives p (Status_call cb st q ctx) \<longleftrightarrow> q = p"
| "gives p (Future_ready f v) \<longleftrightarrow> v = Fut_packet p"
| "gives p (Send_upwards q) \<longleftrightarrow> q = p"
| "gives p (Dispatch_command q) \<longleftrightarrow> False"
| "gives p (Dispatch_packet q) \<longleftrightarrow> False"
| "gives p (Reassemble_and_dispatch q) \<longleftrightarrow> q = p"
| "gives p (Hci_transmit q) \<longleftrightarrow> False"
| "gives p (Log_firmware q) \<longleftrightarrow> False"

definition given_count :: "ptr \<Rightarrow> hci_layer \<Rightarrow> nat" where
  "given_count p S = length (filter (gives p) (outbox S))"

text \<open>Between \<open>S\<close> and \<open>T\<close> the module passed the packet on once: by freeing it or by giving it away.\<close>

definition passed_on :: "ptr \<Rightarrow> hci_layer \<Rightarrow> hci_layer \<Rightarrow> bool" where
  "passed_on p S T \<longleftrightarrow>
     (if bufs T p = None then given_count p T = given_count p S
      else bufs T p = bufs S p \<and> given_count p T = given_count p S + 1)"

lemma answered_passed_on:
  assumes "answered we F D packet S T" "bufs S packet = Some b"
    and "\<And>e w. we = Some w \<Longrightarrow> waits S w = Some e \<Longrightarrow>
      length (filter (gives packet) (D e)) = (if packet \<in> F e then 0 else 1)"
  shows "passed_on packet S T"
proof (cases we)
  case None
  then show ?thesis using assms(1) by (simp add: passed_on_def answered_def given_count_def)
next
  case (Some w)
  then obtain e where e: "waits S w = Some e" "bufs T = bufs S |` (- F e)" "outbox T = outbox S @ D e"
    using assms(1) by (auto simp: answered_def)
  then show ?thesis using assms(2) assms(3) [OF Some e(1)] by (simp add: passed_on_def given_count_def)
qed

lemma complete_passes_on:
  "packet \<noteq> wc_command e \<Longrightarrow>
   length (filter (gives packet) (deliver_complete e packet)) = (if packet \<in> freed_complete e packet then 0 else 1)"
  by (auto simp: freed_complete_def deliver_complete_def split: option.split)

lemma status_passes_on:
  "packet \<noteq> wc_command e \<Longrightarrow>
   length (filter (gives packet) (deliver_status e st packet)) = (if packet \<in> freed_status e packet then 0 else 1)"
  by (auto simp: freed_status_def deliver_status_def split: option.split)

lemma waiting_cmd:
  assumes "hinv E S" "waiting_for E op S = Some w" "waits S w = Some e"
  shows "wc_command e \<in> cmds S"
  using waiting_for_pending [OF assms(2)] assms(3)
  by (auto simp: cmds_def held_waits_def cmd_ptr_def intro!: image_eqI [where x = w])

lemma hinv_free:
  assumes "hinv E S" "free_buf p S = Some T" "p \<notin> cmds S"
  shows "hinv E T"
  using free_buf_queues [OF assms(2)] owns_free_buf [OF hinvD(1) [OF assms(1)] assms(2)] assms(1,3)
  unfolding cmds_def by (blast intro: same_queues_inv)

text \<open>Fields that the invariant does not mention.\<close>

lemma hinv_fields [simp]:
  "hinv E (S\<lparr>outbox := x\<rparr>) = hinv E S" "hinv E (S\<lparr>hci_firmware_log_fd := i\<rparr>) = hinv E S"
  "hinv E (S\<lparr>abort_timer := a\<rparr>) = hinv E S" "hinv E (S\<lparr>process := pr\<rparr>) = hinv E S"
  "hinv E (S\<lparr>startup_timer := st\<rparr>) = hinv E S" "hinv E (S\<lparr>startup_future := sf\<rparr>) = hinv E S"
  "hinv E (S\<lparr>send_data_set := sd\<rparr>) = hinv E S"
  by (simp_all add: hinv_def owns_def timer_ok_def credit_ok_def line_defs cmd_ptr_def inj_on_def)

lemma hinv_hand [simp]: "hinv E (hand x S) = hinv E S"
  by (simp add: hand_def)

lemma hinv_cancel: "hinv E S \<Longrightarrow> hinv E (cancel_alarms X S)"
proof -
  assume h: "hinv E S"
  have "owns E (S\<lparr>command_response_timer := t\<rparr>) = owns E S" for t
    by (simp add: owns_def cmd_ptr_def inj_on_def fun_eq_iff)
  then have "hinv E (S\<lparr>command_response_timer := map_option (\<lambda>_. None) (command_response_timer S)\<rparr>)"
    using h by (auto simp: hinv_def timer_ok_def credit_ok_def line_defs)
  moreover have "hinv E (S\<lparr>startup_timer := x, command_response_timer := y\<rparr>) = hinv E (S\<lparr>command_response_timer := y\<rparr>)" for x y
    by (simp add: hinv_def owns_def timer_ok_def credit_ok_def line_defs cmd_ptr_def inj_on_def)
  ultimately show ?thesis using h by (simp add: cancel_alarms_def)
qed

lemma vendor_event_ok:
  assumes E: "hdrs_ok E" and inv: "hinv E S" and p: "bufs S packet = Some b" "packet \<notin> cmds S" and code: "rd8 b 0 = Some 0xFF"
    and r: "\<And>i. i < event_reads b \<Longrightarrow> \<exists>x. rd8 b i = Some x"
  shows "\<exists>taken T. vendor_event E X packet b S = Some (taken, T) \<and> hinv E T \<and> cmd_line T = cmd_line S \<and>
    given_count packet T = given_count packet S \<and> bufs T packet = (if taken then None else Some b) \<and>
    waits T = waits S \<and> released T = released S \<and> (process T = process S \<or> root_inflammation b \<and> \<not> abort_timer_schedule X (cancel_alarms X S))"
proof -
  have "2 < event_reads b" using code by (simp add: event_reads_def)
  from r [OF this] obtain sub where sub: "rd8 b 2 = Some sub" by blast
  have rep: "\<exists>x. rd8 b 3 = Some x" if "sub = 0x58" using r [of 3] code that sub by (auto simp: event_reads_def)
  have codes: "\<exists>x. rd8 b 4 = Some x" "\<exists>x. rd8 b 5 = Some x" if "root_inflammation b"
    using r [of 4] r [of 5] code that by (auto simp: event_reads_def)
  have free: "\<exists>T. free_buf packet U = Some T \<and> hinv E T \<and> cmd_line T = cmd_line S \<and>
      given_count packet T = given_count packet S \<and> bufs T packet = None \<and> waits T = waits U \<and> released T = released U \<and>
      process T = process U"
    if u: "hinv E U" "bufs U = bufs S" "cmds U = cmds S" "cmd_line U = cmd_line S" "given_count packet U = given_count packet S" for U
  proof -
    obtain T where T: "free_buf packet U = Some T" using u(2) p by (auto simp: free_buf_def)
    have "hinv E T" using hinv_free [OF u(1) T] u(3) p by simp
    then show ?thesis using T u(4,5) free_buf_queues [OF T] same_queues_line [of U T] 
      by (auto simp: given_count_def released_def free_buf_def split: if_splits)
  qed
  have frame: "cmd_line (cancel_alarms X S) = cmd_line S" "outbox (cancel_alarms X S) = outbox S" "bufs (cancel_alarms X S) = bufs S"
    "waits (cancel_alarms X S) = waits S" "process (cancel_alarms X S) = process S"
    by (simp_all add: cancel_alarms_def cmd_line_def)
  show ?thesis
  proof (cases "sub = hci_byte E HCI_VSE_SUBCODE_DEBUG_INFO_SUB_EVT")
    case True
    define S1 where "S1 = (if hci_firmware_log_fd S = INVALID_FD then S\<lparr>hci_firmware_log_fd := open_firmware_log_file X S\<rparr> else S)"
    define S2 where "S2 = (if hci_firmware_log_fd S1 \<noteq> INVALID_FD then hand (Log_firmware packet) S1 else S1)"
    have "hinv E S2" "bufs S2 = bufs S" "cmds S2 = cmds S" "cmd_line S2 = cmd_line S" "given_count packet S2 = given_count packet S"
      using inv by (simp_all add: S2_def S1_def hand_def cmds_def line_defs cmd_ptr_def given_count_def)
    moreover have "waits S2 = waits S" "released S2 = released S" "process S2 = process S"
      by (simp_all add: S2_def S1_def hand_def released_def)
    ultimately show ?thesis using free [of S2] True sub by (auto simp: vendor_event_def S1_def S2_def Let_def)
  next
    case False
    show ?thesis
    proof (cases "root_inflammation b")
      case True
      then have "rd8 b 2 = Some 0x58" "rd8 b 3 = Some 0x05" "7 \<le> unat (bt_len b)" by (simp_all add: root_inflammation_def)
      then show ?thesis using False True codes [OF True] inv p hinv_cancel [OF inv, of X] frame
        by (auto simp: vendor_event_def Let_def given_count_def cmd_line_def released_def hdrs_okD [OF E])
    next
      case False
      then have "\<not> (sub = 0x58 \<and> rd8 b 3 = Some 0x05 \<and> 7 \<le> unat (bt_len b))" using sub code by (simp add: root_inflammation_def)
      then show ?thesis using \<open>sub \<noteq> _\<close> rep sub inv p
        by (cases "sub = 0x58") (auto simp: vendor_event_def hdrs_okD [OF E])
    qed
  qed
qed

text \<open>A response leaves the process running.\<close>

lemma post_queue_process: "process (post_queue X ws S) = process S"
  by (induction ws arbitrary: S) (auto simp: post_task_def Let_def)

lemma credits_process: "process_command_credits X c S = Some T \<Longrightarrow> process T = process S"
  by (auto simp: process_command_credits_def fault_simps post_queue_process split: if_splits)

lemma intercepted_process: "intercepted st g we p S = Some (t, T) \<Longrightarrow> process T = process S"
  by (auto simp: intercepted_def fault_simps free_buf_def free_wait_def split: option.splits if_splits)

lemma timer_process: "update_command_response_timer S = Some T \<Longrightarrow> process T = process S"
  by (cases "commands_pending_response S"; cases "the (commands_pending_response S)")
     (auto simp: update_command_response_timer_def fault_simps split: option.splits if_splits)

lemma waiting_process: "get_waiting_command E op S = Some (we, T) \<Longrightarrow> process T = process S"
  by (auto simp: get_waiting_command_def fault_simps split: option.splits)

lemma response_process:
  assumes "complete_event E X p b S = Some (t, T) \<or> status_event E X p b S = Some (t, T)"
  shows "process T = process S"
  using assms
  by (auto simp: complete_event_def status_event_def fault_simps hand_def Let_def split: option.splits
      dest!: credits_process intercepted_process timer_process waiting_process)

lemma event_received_ok:
  assumes E: "hdrs_ok E" and inv: "hinv E S" and ev: "event_ok S packet"
  shows "ensures (\<lambda>T. hinv E T \<and> (process T \<noteq> Aborted \<longrightarrow> passed_on packet S T) \<and>
      (process T = process S \<or> (\<exists>b. bufs S packet = Some b \<and> root_inflammation b) \<and> \<not> abort_timer_schedule X (cancel_alarms X S)) \<and>
      released T = released S \<and> ((\<forall>U. do_in_thread X U) \<longrightarrow> line_pkts T = line_pkts S)) (hci_event_received E X packet S)"
proof -
  obtain b c0 where p: "packet \<notin> cmds S" "bufs S packet = Some b" and c0: "rd8 b 0 = Some c0"
    and r: "\<And>i. i < event_reads b \<Longrightarrow> \<exists>x. rd8 b i = Some x" by (rule event_okE [OF ev]) blast
  consider "c0 = 0x0E" | "c0 = 0x0F" | "c0 = 0xFF" | "c0 \<notin> {0x0E, 0x0F, 0xFF}" by blast
  then show ?thesis
  proof cases
    case 1
    then have n: "event_reads b = 5" using c0 by (simp add: event_reads_def)
    obtain c2 o3 where rd: "rd8 b 2 = Some c2" "rd16 E b 3 = Some o3"
      using r [of 2] r [of 3] r [of 4] rd16_some [of b 3 E] by (auto simp: n)
    obtain T where T: "complete_event E X packet b S = Some (True, T)" "hinv E T"
      "answered (waiting_for E o3 S) (\<lambda>e. freed_complete e packet) (\<lambda>e. deliver_complete e packet) packet S T"
      "(\<forall>U. do_in_thread X U) \<longrightarrow> cmd_line T = cmd_line S"
      using complete_event_ok [OF inv p(2,1) rd] by blast
    have "passed_on packet S T"
      by (rule answered_passed_on [OF T(3) p(2)], rule complete_passes_on) (use waiting_cmd [OF inv] p(1) in blast)
    moreover note answered_frame [OF T(3) deliver_frame(1)] response_process [OF disjI1 [OF T(1)]]
    ultimately show ?thesis using 1 T same_line [OF T(2), of S] p c0
      by (simp add: hci_event_received_def filter_incoming_event_def wp_simps hdrs_okD [OF E])
  next
    case 2
    then have n: "event_reads b = 6" using c0 by (simp add: event_reads_def)
    obtain c2 c3 o4 where rd: "rd8 b 2 = Some c2" "rd8 b 3 = Some c3" "rd16 E b 4 = Some o4"
      using r [of 2] r [of 3] r [of 4] r [of 5] rd16_some [of b 4 E] by (auto simp: n)
    obtain T where T: "status_event E X packet b S = Some (True, T)" "hinv E T"
      "answered (waiting_for E o4 S) (\<lambda>e. freed_status e packet) (\<lambda>e. deliver_status e c2 packet) packet S T"
      "(\<forall>U. do_in_thread X U) \<longrightarrow> cmd_line T = cmd_line S"
      using status_event_ok [OF inv p(2,1) rd] by blast
    have "passed_on packet S T"
      by (rule answered_passed_on [OF T(3) p(2)], rule status_passes_on) (use waiting_cmd [OF inv] p(1) in blast)
    moreover note answered_frame [OF T(3) deliver_frame(2)] response_process [OF disjI2 [OF T(1)]]
    ultimately show ?thesis using 2 T same_line [OF T(2), of S] p c0
      by (simp add: hci_event_received_def filter_incoming_event_def wp_simps hdrs_okD [OF E])
  next
    case 3
    have line: "line_pkts (hand x U) = line_pkts U" "process (hand x U) = process U" for x U
      by (simp_all add: line_pkts_def cmd_line_def hand_def cmd_ptr_def)
    obtain taken T where T: "vendor_event E X packet b S = Some (taken, T)" "hinv E T" "cmd_line T = cmd_line S"
      "given_count packet T = given_count packet S" "bufs T packet = (if taken then None else Some b)"
      "waits T = waits S" "released T = released S"
      "process T = process S \<or> root_inflammation b \<and> \<not> abort_timer_schedule X (cancel_alarms X S)"
      using vendor_event_ok [OF E inv p(2,1) c0 [unfolded 3] r] by blast
    have "line_pkts T = line_pkts S" by (rule same_line [OF T(2) _ T(3)]) (simp add: T(6))
    then show ?thesis using 3 p c0 inv T
      by (auto simp: hci_event_received_def filter_incoming_event_def wp_simps passed_on_def given_count_def hci_simps released_def
          line hdrs_okD [OF E])
  next
    case 4
    have line: "line_pkts (hand x U) = line_pkts U" "process (hand x U) = process U" for x U
      by (simp_all add: line_pkts_def cmd_line_def hand_def cmd_ptr_def)
    from 4 show ?thesis using p c0 inv
      by (auto simp: hci_event_received_def filter_incoming_event_def wp_simps passed_on_def given_count_def hci_simps released_def
          line hdrs_okD [OF E])
  qed
qed

lemma hinv_tasks:
  assumes "hinv E S" "concat (map cmd_task ts) = concat (map cmd_task (thread_tasks S))"
  shows "hinv E (S\<lparr>thread_tasks := ts\<rparr>)"
proof -
  have h: "held_waits (S\<lparr>thread_tasks := ts\<rparr>) = held_waits S" using assms(2) by (simp add: line_defs)
  show ?thesis using assms(1) owns_cong [of "S\<lparr>thread_tasks := ts\<rparr>" S E "held_waits S"]
    unfolding hinv_def h by (simp add: timer_ok_def credit_ok_def)
qed

lemma owns_touch:
  assumes own: "owns E S H" and e: "waits S w = Some e" "wc_command e' = wc_command e"
    and T: "waits T = (waits S)(w \<mapsto> e')" "bufs T = bufs S" "next_ptr T = next_ptr S"
  shows "owns E T H"
proof -
  have c: "cmd_ptr T = cmd_ptr S" using e by (auto simp: T cmd_ptr_def fun_eq_iff)
  have "\<exists>d b. waits T v = Some d \<and> bufs T (wc_command d) = Some b \<and> is_cmd_buf E b" if v: "v \<in> set H" for v
    by (rule ownsE [OF own v]) (use e in \<open>auto simp: T\<close>)
  moreover have "\<forall>v\<in>dom (waits T). v < next_ptr T" "\<forall>q\<in>dom (bufs T). q < next_ptr T"
    using owns_bound [OF own] e(1) by (auto simp: T)
  moreover have "inj_on (cmd_ptr T) (set H)" using own unfolding c owns_def by blast
  ultimately show ?thesis using owns_distinct [OF own] unfolding owns_def by blast
qed

lemma event_command_ready_ok:
  assumes inv: "hinv E S" and t: "thread_tasks S = Event_command_ready w # ts"
  shows "ensures (\<lambda>T. hinv E T \<and> cmd_line S = w # cmd_line T \<and> waits T = (waits S)(w := waits T w) \<and>
      cmd_ptr T = cmd_ptr S \<and> bufs T = bufs S \<and> next_ptr T = next_ptr S \<and>
      outbox T = outbox S @ [Dispatch_command (cmd_ptr S w)])
    (event_command_ready X w (S\<lparr>thread_tasks := ts\<rparr>))"
proof -
  obtain ws where ws: "commands_pending_response S = Some ws" using hinvD(4) [OF inv] by blast
  have line: "cmd_line S = w # concat (map cmd_task ts) @ command_queue S" by (simp add: cmd_line_def t)
  then have "w \<in> set (held_waits S)" by (simp add: held_waits_def)
  then obtain e where e: "waits S w = Some e" "cmd_ptr S w = wc_command e"
    using ownsE [OF hinvD(1) [OF inv]] by metis
  define S1 where "S1 = S\<lparr>thread_tasks := ts, waits := (waits S)(w \<mapsto> e\<lparr>wc_timestamp := steady_now X (S\<lparr>thread_tasks := ts\<rparr>)\<rparr>),
      commands_pending_response := Some (ws @ [w]), outbox := outbox S @ [Dispatch_command (wc_command e)]\<rparr>"
  have c: "cmd_ptr S1 = cmd_ptr S" using e by (auto simp: S1_def cmd_ptr_def fun_eq_iff)
  have "held_waits S1 = ws @ [w] @ concat (map cmd_task ts) @ command_queue S" by (simp add: S1_def line_defs)
  moreover have "held_waits S = ws @ [w] @ concat (map cmd_task ts) @ command_queue S"
    using line ws by (simp add: held_waits_def pending_def)
  ultimately have h: "held_waits S1 = held_waits S" by simp
  have "owns E S1 (held_waits S)"
    by (rule owns_touch [OF hinvD(1) [OF inv] e(1)]) (simp_all add: S1_def)
  moreover have "credit_ok S1" "commands_pending_response S1 \<noteq> None"
    using hinvD(3) [OF inv] by (simp_all add: credit_ok_def S1_def)
  ultimately have q: "qinv E [] S1" by (simp add: qinv_def h)
  have eq: "event_command_ready X w (S\<lparr>thread_tasks := ts\<rparr>) = update_command_response_timer S1"
    using e ws by (simp add: event_command_ready_def S1_def hand_def)
  have l1: "cmd_line S1 = concat (map cmd_task ts) @ command_queue S" by (simp add: S1_def cmd_line_def)
  show ?thesis unfolding eq
  proof (rule ensures_mono [OF update_timer_ok [OF q]])
    fix T assume "qinv E [] T \<and> timer_ok T \<and> same_store S1 T \<and> cmd_line T = cmd_line S1 \<and>
       commands_pending_response T = commands_pending_response S1"
    moreover from this have "cmd_ptr T = cmd_ptr S" using c cmd_ptr_cong [of T S1] by (simp add: same_store_def)
    ultimately show "hinv E T \<and> cmd_line S = w # cmd_line T \<and> waits T = (waits S)(w := waits T w) \<and>
      cmd_ptr T = cmd_ptr S \<and> bufs T = bufs S \<and> next_ptr T = next_ptr S \<and>
      outbox T = outbox S @ [Dispatch_command (cmd_ptr S w)]"
      using line l1 e by (simp add: hinv_qinv same_store_def) (simp add: S1_def)
  qed
qed

lemma hinv_new_buf:
  assumes inv: "hinv E S"
  shows "hinv E (S\<lparr>bufs := (bufs S)(next_ptr S \<mapsto> b), next_ptr := next_ptr S + 1\<rparr>)" (is "hinv E ?T")
    and "next_ptr S \<notin> cmds S" "bufs S (next_ptr S) = None"
proof -
  note own = hinvD(1) [OF inv]
  show n: "bufs S (next_ptr S) = None" using owns_bound(2) [OF own, of "next_ptr S"] by (cases "bufs S (next_ptr S)") auto
  show "next_ptr S \<notin> cmds S" using n ownsE [OF own] by (metis cmds_def imageE option.distinct(1))
  have c: "cmd_ptr ?T = cmd_ptr S" by (rule cmd_ptr_cong) simp
  have "\<exists>d c. waits ?T v = Some d \<and> bufs ?T (wc_command d) = Some c \<and> is_cmd_buf E c" if v: "v \<in> set (held_waits S)" for v
    by (rule ownsE [OF own v]) (use n in auto)
  moreover have "\<forall>v\<in>dom (waits ?T). v < next_ptr ?T" "\<forall>q\<in>dom (bufs ?T). q < next_ptr ?T"
    using owns_bound [OF own] by (fastforce simp: less_Suc_eq)+
  moreover have "inj_on (cmd_ptr ?T) (set (held_waits S))" using own unfolding c owns_def by blast
  ultimately have "owns E ?T (held_waits S)" using owns_distinct [OF own] unfolding owns_def by blast
  then show "hinv E ?T" by (rule same_queues_inv [OF _ inv, rotated]) (simp add: same_queues_def)
qed

text \<open>The log of a timeout reads every waiting command, and all of them are live.\<close>

lemma log_info_ok:
  assumes own: "owns E S H"
  shows "set ws \<subseteq> set H \<Longrightarrow> \<exists>l. command_timed_out_log_info S ws = Some l"
proof (induction ws)
  case Nil
  then show ?case by simp
next
  case (Cons w ws)
  obtain e b where e: "waits S w = Some e" "bufs S (wc_command e) = Some b" "is_cmd_buf E b"
    using ownsE [OF own, of w] Cons.prems by (metis list.set_intros(1) subsetD)
  moreover obtain l where "command_timed_out_log_info S ws = Some l" using Cons by auto
  ultimately show ?case by (auto simp: is_cmd_buf_def head_readable_def)
qed

lemma firmware_dump_ok:
  assumes "hdrs_ok E"
  shows "\<exists>b. firmware_dump_cmd E = Some b \<and> bt_event b = Some (hci_word E MSG_STACK_TO_HC_HCI_CMD)"
proof -
  let ?x = "hci_word E HCI_GRP_VENDOR_SPECIFIC OR hci_word E HCI_CONTROLLER_DEBUG_INFO_OCF"
  have "emits [UINT16_TO_STREAM E ?x, UINT8_TO_STREAM E 0] (put16 ?x @ [0])"
    by (intro emits_writers [OF assms] emits_Nil)
  from emits_run [OF this, of 3 "[]"] show ?thesis by (simp add: firmware_dump_cmd_def hdrs_okD [OF assms])
qed

lemma transmit_fragment_ok:
  assumes E: "hdrs_ok E" and inv: "hinv E S" and p: "bufs S p = Some b" "bt_event b = Some ev"
  shows "ensures (\<lambda>T. hinv E T \<and> same_queues S T \<and> waits T = waits S \<and> outbox T = outbox S @ [Hci_transmit p] \<and>
      next_ptr T = next_ptr S \<and> (ev = hci_word E MSG_STACK_TO_HC_HCI_CMD \<longrightarrow> bufs T = bufs S)) (transmit_fragment E p fin S)"
proof -
  have keep: "ev AND 0xFF00 = 0x2000" if "ev = 0x2000" using that by simp
  have nc: "p \<notin> cmds S" if "ev AND 0xFF00 \<noteq> 0x2000"
  proof
    assume "p \<in> cmds S"
    then obtain w where "w \<in> set (held_waits S)" "cmd_ptr S w = p" by (auto simp: cmds_def)
    then have "is_cmd_buf E b" using ownsE [OF hinvD(1) [OF inv]] p(1) by (metis option.inject)
    then show False using p(2) that by (simp add: is_cmd_buf_def hdrs_okD [OF E])
  qed
  have cm: "cmds (hand (Hci_transmit p) S) = cmds S" by (simp add: cmds_def line_defs hand_def cmd_ptr_def)
  obtain T where T: "free_buf p (hand (Hci_transmit p) S) = Some T" using p by (auto simp: free_buf_def hci_simps)
  note f = free_buf_queues [OF T]
  have "hinv E T" if "ev AND 0xFF00 \<noteq> 0x2000" using hinv_free [OF _ T, of E] inv nc [OF that] cm by simp
  moreover have "same_queues S T" using f same_queues_trans [OF hand_queues] by blast
  ultimately show ?thesis using p inv T f keep
    by (auto simp: transmit_fragment_def hdrs_okD [OF E] wp_simps hci_simps Let_def)
qed

lemma command_timed_out_ok:
  assumes E: "hdrs_ok E" and inv: "hinv E S"
  shows "ensures (\<lambda>T. hinv E T \<and> cmd_line T = cmd_line S \<and> cmd_ptr T = cmd_ptr S \<and>
      (\<exists>xs. outbox T = outbox S @ map Hci_transmit xs)) (command_timed_out E X S)"
proof -
  obtain ws where ws: "commands_pending_response S = Some ws" using hinvD(4) [OF inv] by blast
  have "set ws \<subseteq> set (held_waits S)" using ws by (auto simp: held_waits_def pending_def)
  then obtain l where l: "command_timed_out_log_info S ws = Some l" using log_info_ok [OF hinvD(1) [OF inv]] by blast
  obtain b where b: "firmware_dump_cmd E = Some b" "bt_event b = Some (hci_word E MSG_STACK_TO_HC_HCI_CMD)"
    using firmware_dump_ok [OF E] by blast
  define p where "p = next_ptr S"
  define S2 where "S2 = S\<lparr>bufs := (bufs S)(p \<mapsto> b), next_ptr := p + 1,
      hci_firmware_log_fd := open_firmware_log_file X (snd (new_buf b S))\<rparr>"
  have inv2: "hinv E S2" and np: "p \<notin> cmds S"
    using hinv_new_buf(1) [OF inv, of b] hinv_new_buf(2) [OF inv] by (simp_all add: S2_def p_def)
  obtain S3 where S3: "transmit_fragment E p True S2 = Some S3" "hinv E S3" "same_queues S2 S3" "waits S3 = waits S2"
    "outbox S3 = outbox S2 @ [Hci_transmit p]" "bufs S3 = bufs S2"
    using transmit_fragment_ok [OF E inv2, of p b] b(2) by (auto simp: S2_def ensures_def)
  obtain S4 where S4: "free_buf p S3 = Some S4" using S3(6) by (auto simp: free_buf_def S2_def)
  note f = free_buf_queues [OF S4]
  have cp: "cmd_ptr S4 = cmd_ptr S" "cmd_ptr S3 = cmd_ptr S" using f S3(4) by (auto intro!: cmd_ptr_cong simp: S2_def)
  have q: "same_queues S S3" "same_queues S S4"
    using S3(3) f unfolding same_queues_def by (simp_all add: S2_def)
  have "cmds S3 = cmds S" using same_queues_line [OF q(1)] by (simp add: cmds_def cp)
  then have inv4: "hinv E S4" using hinv_free [OF S3(2) S4] np by simp
  have eq: "command_timed_out E X S = (if hci_firmware_log_fd S \<noteq> INVALID_FD then Some S
      else Some (if abort_timer_schedule X S4 then S4\<lparr>abort_timer := Some Hci_timeout_abort\<rparr> else S4\<lparr>process := Aborted\<rparr>))"
    using ws l b S3(1) S4 by (simp add: command_timed_out_def new_buf_def S2_def p_def Let_def)
  have "outbox S4 = outbox S @ map Hci_transmit [p]" "cmd_line S4 = cmd_line S"
    using f S3(5) same_queues_line [OF q(2)] by (simp_all add: S2_def)
  then have out: "\<exists>xs. outbox S4 = outbox S @ map Hci_transmit xs" "cmd_line S4 = cmd_line S" by blast+
  have "\<exists>xs. outbox S = outbox S @ map Hci_transmit xs" by (rule exI [of _ "[]"]) simp
  then show ?thesis using inv inv4 out cp(1) unfolding eq by (simp add: wp_simps cmd_line_def cmd_ptr_def fun_eq_iff)
qed

section \<open>The system\<close>

datatype hci_call =
    Call_transmit ptr "complete_cb option" "status_cb option" "ptr option"
  | Call_transmit_futured ptr
  | Call_packet ptr
  | Call_run_task
  | Call_event ptr
  | Call_data ptr
  | Call_fragment ptr bool
  | Call_finished ptr bool
  | Call_reassembled ptr
  | Call_timeout
  | Call_new bt_hdr
  | Call_free ptr

primrec hci_exec :: "hci_hdrs \<Rightarrow> hci_ext \<Rightarrow> hci_call \<Rightarrow> hci_layer \<Rightarrow> hci_layer option" where
  "hci_exec E X (Call_transmit p cc sc ctx) S = transmit_command E X p cc sc ctx S"
| "hci_exec E X (Call_transmit_futured p) S = map_option snd (transmit_command_futured E X p S)"
| "hci_exec E X (Call_packet p) S = enqueue_packet X p S"
| "hci_exec E X Call_run_task S = run_task X S"
| "hci_exec E X (Call_event p) S = hci_event_received E X p S"
| "hci_exec E X (Call_data p) S = acl_event_received p S"
| "hci_exec E X (Call_fragment p fin) S = transmit_fragment E p fin S"
| "hci_exec E X (Call_finished p all) S = fragmenter_transmit_finished p all S"
| "hci_exec E X (Call_reassembled p) S = dispatch_reassembled E p S"
| "hci_exec E X Call_timeout S = command_timed_out E X S"
| "hci_exec E X (Call_new b) S = Some (snd (new_buf b S))"
| "hci_exec E X (Call_free p) S = free_buf p S"

text \<open>
  A client only passes on or frees packets that it owns: live ones that are not commands in the
  hands of the module.
\<close>

definition owned :: "hci_layer \<Rightarrow> ptr \<Rightarrow> bool" where
  "owned S p \<longleftrightarrow> bufs S p \<noteq> None \<and> p \<notin> cmds S"

definition has_event :: "hci_layer \<Rightarrow> ptr \<Rightarrow> bool" where
  "has_event S p \<longleftrightarrow> (case bufs S p of None \<Rightarrow> False | Some b \<Rightarrow> bt_event b \<noteq> None)"

primrec hci_allowed :: "hci_call \<Rightarrow> hci_layer \<Rightarrow> bool" where
  "hci_allowed (Call_transmit p cc sc ctx) S = sendable S p"
| "hci_allowed (Call_transmit_futured p) S = sendable S p"
| "hci_allowed (Call_packet p) S = owned S p"
| "hci_allowed Call_run_task S = True"
| "hci_allowed (Call_event p) S = event_ok S p"
| "hci_allowed (Call_data p) S = owned S p"
| "hci_allowed (Call_fragment p fin) S = has_event S p"
| "hci_allowed (Call_finished p all) S = owned S p"
| "hci_allowed (Call_reassembled p) S = has_event S p"
| "hci_allowed Call_timeout S = (\<exists>w\<in>set (pending S). command_response_timer S = Some (Some w))"
| "hci_allowed (Call_new b) S = True"
| "hci_allowed (Call_free p) S = owned S p"

lemma free_owned: "hinv E S \<Longrightarrow> owned S p \<Longrightarrow> ensures (hinv E) (free_buf p S)"
  using hinv_free [of E S p] by (auto simp: owned_def free_buf_def ensures_def)

lemma run_task_ok:
  assumes "hinv E S"
  shows "ensures (hinv E) (run_task X S)"
proof (cases "thread_tasks S")
  case Nil
  then show ?thesis using assms by (simp add: run_task_def wp_simps)
next
  case (Cons t ts)
  show ?thesis
  proof (cases t)
    case (Event_command_ready w)
    then show ?thesis using event_command_ready_ok [OF assms, of w ts X] Cons
      by (auto simp: run_task_def ensures_def)
  qed (use Cons assms hinv_tasks [OF assms, of ts] in
      \<open>auto simp: run_task_def wp_simps event_packet_ready_def event_finish_startup_def Let_def split: option.split\<close>)
qed

lemma exec_ok:
  assumes E: "hdrs_ok E" and inv: "hinv E S" and a: "hci_allowed c S"
  shows "ensures (hinv E) (hci_exec E X c S)"
proof (cases c)
  case (Call_transmit_futured p)
  then show ?thesis using transmit_command_futured_ok [OF inv, of p X] a by (auto simp: ensures_def)
next
  case (Call_packet p)
  have "hinv E (post_task (Event_packet_ready p) S)"
    unfolding post_task_def by (rule hinv_tasks [OF inv]) simp
  then show ?thesis using Call_packet a free_owned [OF inv] by (simp add: enqueue_packet_def wp_simps)
next
  case (Call_event p)
  then show ?thesis using event_received_ok [OF E inv, of p X] a by (auto intro: ensures_mono)
next
  case (Call_fragment p fin)
  then obtain b ev where "bufs S p = Some b" "bt_event b = Some ev"
    using a by (auto simp: has_event_def split: option.splits)
  then show ?thesis using Call_fragment transmit_fragment_ok [OF E inv, of p b ev fin] by (auto intro: ensures_mono)
next
  case (Call_reassembled p)
  then show ?thesis using a inv by (auto simp: has_event_def dispatch_reassembled_def wp_simps split: option.splits)
next
  case Call_timeout
  then show ?thesis using command_timed_out_ok [OF E inv, of X] by (auto intro: ensures_mono)
qed (use a inv transmit_command_ok [OF inv] run_task_ok [OF inv] free_owned [OF inv] hinv_new_buf(1) [OF inv] in
    \<open>simp_all add: wp_simps acl_event_received_def fragmenter_transmit_finished_def new_buf_def\<close>)

section \<open>Order\<close>

primrec hci_request :: "hci_call \<Rightarrow> ptr list" where
  "hci_request (Call_transmit p cc sc ctx) = [p]"
| "hci_request (Call_transmit_futured p) = [p]"
| "hci_request (Call_packet p) = []"
| "hci_request Call_run_task = []"
| "hci_request (Call_event p) = []"
| "hci_request (Call_data p) = []"
| "hci_request (Call_fragment p fin) = []"
| "hci_request (Call_finished p all) = []"
| "hci_request (Call_reassembled p) = []"
| "hci_request Call_timeout = []"
| "hci_request (Call_new b) = []"
| "hci_request (Call_free p) = []"

text \<open>The thread takes every task: the case of a module that is running.\<close>

definition accepting :: "hci_ext \<Rightarrow> bool" where
  "accepting X \<longleftrightarrow> (\<forall>U. do_in_thread X U)"

lemma enqueue_line:
  assumes "accepting X" "credit_ok S" "enqueue_command X w S = Some T"
  shows "cmd_line T = cmd_line S @ [w] \<and> waits T = waits S \<and> outbox T = outbox S"
  using assms by (auto simp: enqueue_command_def accepting_def credit_ok_def cmd_line_def hci_simps split: if_splits)

lemma transmit_order:
  assumes inv: "hinv E S" and X: "accepting X" and n: "next_ptr S \<le> w" and e: "wc_command e = p"
    and T: "Option.bind (set_cmd_event E p (S\<lparr>waits := (waits S)(w \<mapsto> e), next_ptr := w + 1\<rparr>)) (enqueue_command X w) = Some T"
  shows "released T @ line_pkts T = released S @ line_pkts S @ [p]"
proof -
  obtain S2 where S2: "set_cmd_event E p (S\<lparr>waits := (waits S)(w \<mapsto> e), next_ptr := w + 1\<rparr>) = Some S2"
    "enqueue_command X w S2 = Some T" using T by (auto simp: fault_simps)
  have s2: "cmd_line S2 = cmd_line S" "waits S2 = (waits S)(w \<mapsto> e)" "outbox S2 = outbox S" "credit_ok S2"
    using S2(1) hinvD(3) [OF inv] by (auto simp: set_cmd_event_def cmd_line_def credit_ok_def fault_simps)
  have t: "cmd_line T = cmd_line S @ [w]" "waits T = (waits S)(w \<mapsto> e)" "outbox T = outbox S"
    using enqueue_line [OF X s2(4) S2(2)] s2 by auto
  have "cmd_ptr T v = cmd_ptr S v" if v: "v \<in> set (cmd_line S)" for v
  proof -
    have "v \<in> set (held_waits S)" using v by (simp add: held_waits_def)
    then obtain d where "waits S v = Some d" by (rule ownsE [OF hinvD(1) [OF inv]])
    then have "v \<noteq> w" using owns_bound(1) [OF hinvD(1) [OF inv]] n by fastforce
    then show ?thesis by (simp add: cmd_ptr_def t)
  qed
  moreover have "cmd_ptr T w = p" by (simp add: cmd_ptr_def t e)
  ultimately show ?thesis by (simp add: released_def line_pkts_def t)
qed

lemma still_line:
  "waits T = waits S \<Longrightarrow> cmd_line T = cmd_line S \<Longrightarrow> dispatched (outbox T) = dispatched (outbox S) \<Longrightarrow>
   released T @ line_pkts T = released S @ line_pkts S"
  using cmd_ptr_cong [of T S] by (simp add: released_def line_pkts_def)

lemma run_task_order:
  assumes "hinv E S" "run_task X S = Some T"
  shows "released T @ line_pkts T = released S @ line_pkts S"
proof (cases "thread_tasks S")
  case Nil
  then show ?thesis using assms by (simp add: run_task_def)
next
  case (Cons t ts)
  show ?thesis
  proof (cases t)
    case (Event_command_ready w)
    then have "event_command_ready X w (S\<lparr>thread_tasks := ts\<rparr>) = Some T" using Cons assms by (simp add: run_task_def)
    then have "cmd_line S = w # cmd_line T \<and> cmd_ptr T = cmd_ptr S \<and> outbox T = outbox S @ [Dispatch_command (cmd_ptr S w)]"
      using event_command_ready_ok [OF assms(1), of w ts X] Cons Event_command_ready by (auto simp: ensures_def)
    then show ?thesis by (simp add: released_def line_pkts_def)
  qed (use Cons assms in \<open>auto simp: run_task_def event_packet_ready_def event_finish_startup_def Let_def hand_def cmd_line_def
      intro!: still_line split: option.splits\<close>)
qed

lemma exec_order:
  assumes E: "hdrs_ok E" and X: "accepting X" and inv: "hinv E S" and a: "hci_allowed c S" and T: "hci_exec E X c S = Some T"
  shows "released T @ line_pkts T = released S @ line_pkts S @ hci_request c"
proof (cases c)
  case (Call_transmit p cc sc ctx)
  obtain b op where b: "bufs S p = Some b" "rd16 E b (unat (bt_offset b)) = Some op"
    using sendableE a Call_transmit by (metis hci_allowed.simps(1))
  show ?thesis
    using T Call_transmit b transmit_order [OF inv X order.refl, of "\<lparr>wc_opcode = op, wc_complete_future = None,
      wc_complete_callback = cc, wc_status_callback = sc, wc_context = ctx, wc_command = p, wc_timestamp = 0\<rparr>" p T]
    by (simp add: transmit_command_def new_wait_def Let_def)
next
  case (Call_transmit_futured p)
  obtain b op where b: "bufs S p = Some b" "rd16 E b (unat (bt_offset b)) = Some op"
    using sendableE a Call_transmit_futured by (metis hci_allowed.simps(2))
  show ?thesis
    using T Call_transmit_futured b transmit_order [OF inv X, of "next_ptr S + 1" "\<lparr>wc_opcode = op,
      wc_complete_future = Some (next_ptr S), wc_complete_callback = None, wc_status_callback = None,
      wc_context = None, wc_command = p, wc_timestamp = 0\<rparr>" p T]
    by (auto simp: transmit_command_futured_def new_wait_def future_new_def Let_def fault_simps)
next
  case (Call_packet p)
  then show ?thesis using X T by (auto simp: enqueue_packet_def accepting_def cmd_line_def hci_simps intro!: still_line)
next
  case Call_run_task
  then show ?thesis using run_task_order [OF inv, of X T] T by simp
next
  case (Call_event p)
  then show ?thesis using event_received_ok [OF E inv, of p X] a T X by (auto simp: ensures_def accepting_def)
next
  case (Call_fragment p fin)
  then obtain b ev where "bufs S p = Some b" "bt_event b = Some ev"
    using a by (auto simp: has_event_def split: option.splits)
  then show ?thesis using Call_fragment T transmit_fragment_ok [OF E inv, of p b ev fin] same_queues_line [of S T]
    by (auto simp: ensures_def intro!: still_line)
next
  case Call_timeout
  then show ?thesis using T command_timed_out_ok [OF E inv, of X] by (auto simp: ensures_def released_def line_pkts_def)
next
  case (Call_finished p all)
  then show ?thesis using T free_buf_queues [of p S T] same_queues_line [of S T]
    by (auto simp: fragmenter_transmit_finished_def hci_simps cmd_line_def intro!: still_line split: if_splits)
next
  case (Call_free p)
  then show ?thesis using T free_buf_queues [of p S T] same_queues_line [of S T] by (auto intro!: still_line)
qed (use T in \<open>auto simp: acl_event_received_def dispatch_reassembled_def new_buf_def hci_simps cmd_line_def fault_simps
    intro!: still_line split: if_splits\<close>)

section \<open>The interfaces that the HCI layer provides\<close>

definition running_inv :: "hci_hdrs \<Rightarrow> hci_layer \<Rightarrow> bool" where
  "running_inv E S \<longleftrightarrow> hdrs_ok E \<and> hinv E S"

interpretation hci: safe_machine "hci_exec E X" hci_allowed "running_inv E" for E X
  by unfold_locales (auto simp: running_inv_def intro: ensures_mono exec_ok)

interpretation hci_line: fifo_machine "hci_exec E X" hci_allowed "\<lambda>S. accepting X \<and> running_inv E S" line_pkts released hci_request
  for E X
  by unfold_locales (auto simp: running_inv_def exec_order intro: ensures_mono exec_ok)

text \<open>The module just after start-up.\<close>

definition hci_started :: "hci_layer \<Rightarrow> bool" where
  "hci_started S \<longleftrightarrow> cmd_line S = [] \<and> commands_pending_response S = Some [] \<and> waits S = Map.empty \<and> bufs S = Map.empty \<and>
     command_response_timer S = Some None \<and> outbox S = []"

lemma started_inv: "hci_started S \<Longrightarrow> hinv E S"
proof -
  assume s: "hci_started S"
  then have "held_waits S = []" "command_queue S = []" by (auto simp: hci_started_def held_waits_def pending_def cmd_line_def)
  then show ?thesis using s by (simp add: hci_started_def hinv_def owns_def timer_ok_def credit_ok_def)
qed

lemma start_up_started:
  assumes "hci_module_start_up X hci_layer_init = Some (f, S)" "alarm_new_startup X" "alarm_new_response X"
    "\<And>U. thread_is_running X U" "enable_rt_scheduling X" "list_new_ok X"
  shows "hci_started S"
  using assms by (auto simp: hci_module_start_up_def hci_layer_init_def hci_started_def future_new_def Let_def post_task_def cmd_line_def
      split: if_splits)

end
