(* ===== verification/Hci_Props.thy ===== *)
theory Hci_Props
  imports Hci_System
begin

text \<open>
  The properties of the HCI layer, each with a witness on a concrete run of the module.
\<close>

section \<open>A concrete module\<close>

definition demo_ext :: hci_ext where
  "demo_ext = \<lparr>do_in_thread = \<lambda>_. True, thread_is_running = \<lambda>_. True, steady_now = \<lambda>_. 0,
     open_firmware_log_file = \<lambda>_. 3, try_lock_for = \<lambda>_. True, abort_timer_schedule = \<lambda>_. True,
     alarm_new_startup = True, alarm_new_response = True, enable_rt_scheduling = True, list_new_ok = True,
     timeout_prop = None, shut_down_runs = 0\<rparr>"

text \<open>An \<open>LE Rand\<close> command and the command status and command complete events that answer it.\<close>

definition demo_cmd :: bt_hdr where
  "demo_cmd = \<lparr>bt_event = None, bt_len = 3, bt_offset = 0, bt_data = map Some [0x18, 0x20, 0]\<rparr>"

definition demo_status :: bt_hdr where
  "demo_status = \<lparr>bt_event = Some 0x1000, bt_len = 6, bt_offset = 0, bt_data = map Some [0x0F, 4, 1, 1, 0x18, 0x20]\<rparr>"

definition demo_complete :: bt_hdr where
  "demo_complete = \<lparr>bt_event = Some 0x1000, bt_len = 6, bt_offset = 0, bt_data = map Some [0x0E, 4, 1, 0x18, 0x20, 0]\<rparr>"

definition demo_started :: hci_layer where
  "demo_started = hci_layer_init\<lparr>next_ptr := 2, commands_pending_response := Some [],
     thread_tasks := [Hci_initialize], command_response_timer := Some None,
     startup_timer := Some (Some 2900), startup_future := Some 1\<rparr>"

lemma demo_start_up: "hci_module_start_up demo_ext hci_layer_init = Some (1, demo_started)"
  by (simp add: hci_module_start_up_def demo_ext_def demo_started_def hci_layer_init_def future_new_def
      post_task_def startup_timeout_ms_def)

lemma demo_started_ok: "hci_started demo_started"
  by (rule start_up_started [OF demo_start_up]) (simp_all add: demo_ext_def)

text \<open>The command is sent with a future and reaches the controller.\<close>

definition demo_sent :: "bt_hdr \<Rightarrow> hci_layer" where
  "demo_sent ev = hci_layer_init\<lparr>next_ptr := 6,
     bufs := [2 \<mapsto> demo_cmd\<lparr>bt_event := Some 0x2000\<rparr>, 5 \<mapsto> ev],
     waits := [4 \<mapsto> \<lparr>wc_opcode = 0x2018, wc_complete_future = Some 3, wc_complete_callback = None,
       wc_status_callback = None, wc_context = None, wc_command = 2, wc_timestamp = 0\<rparr>],
     command_credits := 0, commands_pending_response := Some [4], thread_tasks := [],
     command_response_timer := Some (Some 4), startup_timer := Some (Some 2900), startup_future := Some 1,
     outbox := [Dispatch_command 2]\<rparr>"

definition demo_calls :: "bt_hdr \<Rightarrow> hci_call list" where
  "demo_calls ev = [Call_new demo_cmd, Call_transmit_futured 2, Call_run_task, Call_run_task, Call_new ev]"

lemmas demo_defs = demo_ext_def demo_cmd_def demo_status_def demo_started_def hci_layer_init_def core_hdrs_def

lemmas call_defs = new_buf_def transmit_command_futured_def transmit_command_def future_new_def new_wait_def set_cmd_event_def
  enqueue_command_def run_task_def event_command_ready_def update_command_response_timer_def hand_def post_task_def
  rd16_def rd8_def

lemmas allowed_defs = sendable_def owned_def event_ok_def event_reads_def root_inflammation_def head_readable_def cmds_def held_waits_def cmd_line_def pending_def
  cmd_ptr_def initialised_def

lemma demo_op: "(ucast (0x18 :: u8) OR push_bit 8 (ucast (0x20 :: u8)) :: u16) = 0x2018"
  by code_simp

lemma demo_run: "run_calls (hci_exec core_hdrs demo_ext) (demo_calls ev) demo_started = Some (demo_sent ev)"
  by (simp add: demo_calls_def demo_defs call_defs demo_sent_def demo_op Let_def)

lemma demo_allowed: "allowed_run (hci_exec core_hdrs demo_ext) hci_allowed (demo_calls ev) demo_started"
  by (simp add: demo_calls_def demo_defs call_defs allowed_defs demo_op Let_def numeral_eq_Suc)

lemma demo_accepting: "accepting demo_ext"
  by (simp add: accepting_def demo_ext_def)

lemma demo_sent_inv: "hinv core_hdrs (demo_sent ev)"
proof -
  have "ensures (running_inv core_hdrs) (run_calls (hci_exec core_hdrs demo_ext) (demo_calls ev) demo_started)"
    by (rule hci.run_safe [OF _ demo_allowed]) (simp add: running_inv_def started_inv [OF demo_started_ok])
  then show ?thesis by (simp add: demo_run running_inv_def ensures_simps)
qed

lemma demo_events_ok: "event_ok (demo_sent demo_status) 5" "event_ok (demo_sent demo_complete) 5"
  by (simp_all add: demo_sent_def demo_complete_def demo_defs allowed_defs)

section \<open>Safety\<close>

text \<open>C20: The HCI layer never uses or frees a packet or a wait entry twice. Whatever sequence of
  transmissions, thread tasks, controller events, fragmenter callbacks and timeouts follows start-up,
  as long as clients pass on only packets that they own and an event holds the bytes the filter reads
  for its code, no call faults and the module invariant holds: every held entry and its command packet is live, no two
  entries share a packet, and the response timer names the oldest waiting command.\<close>

theorem hci_run_safe:
  assumes "hdrs_ok E" "hci_started S" "allowed_run (hci_exec E X) hci_allowed cs S"
  shows "\<exists>T. run_calls (hci_exec E X) cs S = Some T \<and> hinv E T \<and> set (pending T) \<subseteq> dom (waits T) \<and>
    (\<forall>w. command_response_timer T = Some (Some w) \<longrightarrow> (\<exists>ws. pending T = w # ws))"
proof -
  have "ensures (running_inv E) (run_calls (hci_exec E X) cs S)"
    by (rule hci.run_safe [OF _ assms(3)]) (simp add: running_inv_def assms(1) started_inv [OF assms(2)])
  then obtain T where T: "run_calls (hci_exec E X) cs S = Some T" "hinv E T"
    by (auto simp: ensures_def running_inv_def)
  have "w \<in> dom (waits T)" if "w \<in> set (pending T)" for w
    by (rule ownsE [OF hinvD(1) [OF T(2)], of w]) (use that in \<open>auto simp: held_waits_def\<close>)
  moreover have "\<exists>ws. pending T = w # ws" if "command_response_timer T = Some (Some w)" for w
    using hinvD(2) [OF T(2)] that by (auto simp: timer_ok_def pending_def)
  ultimately show ?thesis using T by blast
qed

theorem hci_run_safe_witness:
  "\<exists>T. run_calls (hci_exec core_hdrs demo_ext) (demo_calls demo_status) demo_started = Some T \<and> pending T = [4]"
  using hci_run_safe [OF core_hdrs_ok demo_started_ok demo_allowed] demo_run
  by (simp add: demo_sent_def pending_def)

text \<open>C21: An event packet is passed on exactly once. Every event that reaches the module, of whatever
  code and length as long as it holds the bytes the filter reads for that code, is either freed and
  given to nobody, or still live and given to exactly one of a callback, a future or the upper layer;
  the command status path for futures included. The one event after which this is not claimed ends
  the process: a root inflammation report of the controller when the abort timer cannot be scheduled.\<close>

theorem event_packet_passed_on:
  assumes "hdrs_ok E" "hinv E S" "event_ok S packet"
  shows "\<exists>T. hci_event_received E X packet S = Some T \<and> hinv E T \<and> (process T \<noteq> Aborted \<longrightarrow> passed_on packet S T) \<and>
    (process T = process S \<or>
      (\<exists>b. bufs S packet = Some b \<and> root_inflammation b) \<and> \<not> abort_timer_schedule X (cancel_alarms X S))"
  using event_received_ok [OF assms, of X] by (auto simp: ensures_def)

text \<open>A Hardware Error event of three bytes, for which no command waits.\<close>

definition demo_short :: bt_hdr where
  "demo_short = \<lparr>bt_event = Some 0x1000, bt_len = 3, bt_offset = 0, bt_data = [Some 0x10, Some 1, Some 0x42]\<rparr>"

lemma demo_short_ok: "event_ok (demo_sent demo_short) 5"
  by (simp add: demo_sent_def demo_short_def demo_defs allowed_defs rd8_def)

theorem event_packet_passed_on_witness:
  "(\<exists>T. hci_event_received core_hdrs demo_ext 5 (demo_sent demo_status) = Some T \<and> hinv core_hdrs T \<and>
     passed_on 5 (demo_sent demo_status) T) \<and>
   (\<exists>T. hci_event_received core_hdrs demo_ext 5 (demo_sent demo_short) = Some T \<and> hinv core_hdrs T \<and>
     passed_on 5 (demo_sent demo_short) T)"
proof -
  have run: "process (demo_sent ev) \<noteq> Aborted" for ev by (simp add: demo_sent_def hci_layer_init_def)
  have "bufs (demo_sent ev) 5 = Some ev" for ev by (simp add: demo_sent_def)
  moreover have "\<not> root_inflammation demo_status" "\<not> root_inflammation demo_short"
    by (simp_all add: root_inflammation_def demo_defs demo_short_def rd8_def)
  ultimately show ?thesis
    using event_packet_passed_on [OF core_hdrs_ok demo_sent_inv demo_events_ok(1), of demo_ext]
      event_packet_passed_on [OF core_hdrs_ok demo_sent_inv demo_short_ok, of demo_ext] run
    by (metis option.inject)
qed

section \<open>Responses\<close>

text \<open>C22: A command status event resolves the future of the command it answers. When the entry
  that the opcode selects waits through a future, the future receives the event packet, which stays
  live, and the command packet and the entry are freed, so a caller that awaits the future returns
  even though no command complete event comes.\<close>

theorem status_resolves_future:
  assumes inv: "hinv E S" and ev: "event_ok S packet" and b: "bufs S packet = Some b" and hdr: "hdrs_ok E"
    and code: "rd8 b 0 = Some 0x0F" and op: "rd16 E b 4 = Some opcode"
    and w: "waiting_for E opcode S = Some w" and e: "waits S w = Some e"
    and fut: "wc_status_callback e = None" "wc_complete_future e = Some f"
  shows "\<exists>T. hci_event_received E X packet S = Some T \<and> outbox T = outbox S @ [Future_ready f (Fut_packet packet)] \<and>
    bufs T packet = Some b \<and> bufs T (wc_command e) = None \<and> waits T w = None \<and> hinv E T"
proof -
  have p: "packet \<notin> cmds S" using ev by (simp add: event_ok_def)
  have n: "event_reads b = 6" using code by (simp add: event_reads_def)
  have r: "\<And>i. i < 6 \<Longrightarrow> \<exists>x. rd8 b i = Some x" by (rule event_okE [OF ev]) (use b n in auto)
  obtain st c where rd: "rd8 b 2 = Some st" "rd8 b 3 = Some c" using r [of 2] r [of 3] by auto
  obtain T where T: "status_event E X packet b S = Some (True, T)" "hinv E T"
    "answered (waiting_for E opcode S) (\<lambda>e. freed_status e packet) (\<lambda>e. deliver_status e st packet) packet S T"
    using status_event_ok [OF inv b p rd op] by blast
  have "packet \<noteq> wc_command e" using waiting_cmd [OF inv w e] p by auto
  then show ?thesis using T b code w e fut
    by (simp add: hci_event_received_def filter_incoming_event_def hdrs_okD [OF hdr] answered_def freed_status_def deliver_status_def)
qed

theorem status_resolves_future_witness:
  "\<exists>T. hci_event_received core_hdrs demo_ext 5 (demo_sent demo_status) = Some T \<and>
     outbox T = [Dispatch_command 2, Future_ready 3 (Fut_packet 5)] \<and> bufs T 2 = None"
proof -
  let ?S = "demo_sent demo_status"
  have b: "bufs ?S 5 = Some demo_status" by (simp add: demo_sent_def)
  have r: "rd8 demo_status 0 = Some 0x0F" "rd16 core_hdrs demo_status 4 = Some 0x2018"
    by (simp_all add: rd8_def rd16_def demo_defs demo_op)
  have w: "waiting_for core_hdrs 0x2018 ?S = Some 4"
    by (simp add: waiting_for_def pending_def op_of_def demo_sent_def)
  obtain e where e: "waits ?S 4 = Some e" "wc_status_callback e = None" "wc_complete_future e = Some 3" "wc_command e = 2"
    by (simp add: demo_sent_def)
  have "outbox ?S = [Dispatch_command 2]" by (simp add: demo_sent_def)
  then show ?thesis
    using status_resolves_future [OF demo_sent_inv demo_events_ok(1) b core_hdrs_ok r w e(1-3), of demo_ext] e(4) by auto
qed

text \<open>C23: A command complete event honours the contract of the entry it answers. The entry's
  callback or future gets the packet, the command packet and the entry are freed, the packet is freed
  when nobody asked for it, and an event that answers no entry is freed and changes no entry.\<close>

theorem complete_event_contract:
  assumes inv: "hinv E S" and ev: "event_ok S packet" and b: "bufs S packet = Some b" and hdr: "hdrs_ok E"
    and code: "rd8 b 0 = Some 0x0E" and op: "rd16 E b 3 = Some opcode"
  shows "\<exists>T. hci_event_received E X packet S = Some T \<and> hinv E T \<and>
    answered (waiting_for E opcode S) (\<lambda>e. freed_complete e packet) (\<lambda>e. deliver_complete e packet) packet S T"
proof -
  have p: "packet \<notin> cmds S" using ev by (simp add: event_ok_def)
  have n: "event_reads b = 5" using code by (simp add: event_reads_def)
  have "\<And>i. i < 5 \<Longrightarrow> \<exists>x. rd8 b i = Some x" by (rule event_okE [OF ev]) (use b n in auto)
  then obtain c where rd: "rd8 b 2 = Some c" by fastforce
  show ?thesis using complete_event_ok [OF inv b p rd op, of X] b code
    by (auto simp: hci_event_received_def filter_incoming_event_def hdrs_okD [OF hdr])
qed

theorem complete_event_contract_witness:
  "\<exists>T. hci_event_received core_hdrs demo_ext 5 (demo_sent demo_complete) = Some T \<and>
     outbox T = [Dispatch_command 2, Future_ready 3 (Fut_packet 5)]"
proof -
  let ?S = "demo_sent demo_complete"
  have b: "bufs ?S 5 = Some demo_complete" by (simp add: demo_sent_def)
  have r: "rd8 demo_complete 0 = Some 0x0E" "rd16 core_hdrs demo_complete 3 = Some 0x2018"
    by (simp_all add: rd8_def rd16_def demo_complete_def demo_defs demo_op)
  have w: "waiting_for core_hdrs 0x2018 ?S = Some 4"
    by (simp add: waiting_for_def pending_def op_of_def demo_sent_def)
  obtain e where e: "waits ?S 4 = Some e" "wc_complete_callback e = None" "wc_complete_future e = Some 3"
    by (simp add: demo_sent_def)
  have "outbox ?S = [Dispatch_command 2]" by (simp add: demo_sent_def)
  then show ?thesis using complete_event_contract [OF demo_sent_inv demo_events_ok(2) b core_hdrs_ok r, of demo_ext] e
    by (auto simp: w answered_def deliver_complete_def)
qed

section \<open>Order and credits\<close>

text \<open>C24: Commands reach the controller in the order in which they were requested. While the thread
  takes tasks, the commands handed to the fragmenter followed by those posted to the thread and those
  waiting for a credit are exactly the requested commands, in order; none is lost, duplicated or
  overtaken.\<close>

theorem commands_in_order:
  assumes "hdrs_ok E" "hci_started S" "accepting X" "allowed_run (hci_exec E X) hci_allowed cs S"
    "run_calls (hci_exec E X) cs S = Some T"
  shows "released T @ line_pkts T = concat (map hci_request cs)"
  using hci_line.run_order [OF _ assms(4,5)] assms(1-3) started_inv [OF assms(2), of E]
  by (simp add: running_inv_def hci_started_def released_def line_pkts_def)

theorem commands_in_order_witness:
  "released (demo_sent demo_status) @ line_pkts (demo_sent demo_status) = [2]"
  using commands_in_order [OF core_hdrs_ok demo_started_ok demo_accepting demo_allowed demo_run]
  by (simp add: demo_calls_def)

definition posted :: "hci_layer \<Rightarrow> nat" where
  "posted S = length (concat (map cmd_task (thread_tasks S)))"

lemma post_queue_posts:
  "int (posted (post_queue X ws S)) \<le> int (posted S) + max 0 (command_credits S)"
proof (induction ws arbitrary: S)
  case Nil
  then show ?case by (simp add: posted_def)
next
  case (Cons w ws)
  let ?U = "(if do_in_thread X S then post_task (Event_command_ready w) S else S)
      \<lparr>command_queue := ws, command_credits := command_credits S - 1\<rparr>"
  have U: "int (posted ?U) \<le> int (posted S) + 1" by (simp add: posted_def hci_simps)
  show ?case
  proof (cases "command_credits S > 0")
    case True
    then have "post_queue X (w # ws) S = post_queue X ws ?U" by (simp only: post_queue.simps Let_def if_True)
    then show ?thesis using Cons [of ?U] U True by simp
  qed (simp add: posted_def)
qed

text \<open>C25: The commands outstanding after a credit update (waiting for a response or posted to the thread)
  are bounded by the larger of the credit that the controller granted and the number of commands that
  already waited for a response, plus the commands that were posted to the thread and have not run yet.
  The last term is real: the update subtracts only the commands that already wait for a response, so
  two commands can be outstanding on one credit.\<close>

theorem credit_bound:
  assumes "process_command_credits X c S = Some T" "thread_is_running X S" "commands_pending_response S = Some ws"
  shows "int (length (pending T)) + int (posted T) \<le> max c (int (length ws)) + int (posted S)"
proof -
  let ?S0 = "S\<lparr>command_credits := c - int (length ws)\<rparr>"
  have T: "T = post_queue X (command_queue S) ?S0"
    using assms by (simp add: process_command_credits_def get_num_waiting_commands_def)
  have "pending T = ws" using post_queue_spec [OF T] assms(3) by (simp add: pending_def)
  then show ?thesis using post_queue_posts [of X "command_queue S" ?S0] unfolding T [symmetric] by (simp add: posted_def)
qed

definition demo_posted :: hci_layer where
  "demo_posted = demo_started\<lparr>thread_tasks := [Event_command_ready 7], command_queue := [8], command_credits := 0\<rparr>"

theorem credit_bound_witness:
  "\<exists>T. process_command_credits demo_ext 1 demo_posted = Some T \<and> posted T = 2 \<and>
     int (length (pending T)) + int (posted T) \<le> 2"
proof -
  let ?T = "demo_posted\<lparr>thread_tasks := [Event_command_ready 7, Event_command_ready 8], command_queue := []\<rparr>"
  have T: "process_command_credits demo_ext 1 demo_posted = Some ?T"
    by (simp add: process_command_credits_def get_num_waiting_commands_def demo_posted_def demo_defs post_task_def)
  show ?thesis using credit_bound [OF T, of "[]"] T
    by (simp add: demo_posted_def demo_defs posted_def)
qed

text \<open>C26: The command queue survives a restart of the module. Shutting down and starting up leave the
  queue of waiting commands as it was and set the credit to one, so stale commands of the previous
  session stay queued and the next command is sent ahead of them.\<close>

theorem restart_keeps_queue:
  assumes "hci_module_shut_down X S = Some T" "hci_module_start_up X T = Some (f, U)" "shut_down_runs X = 0"
    "alarm_new_startup X" "alarm_new_response X" "enable_rt_scheduling X" "list_new_ok X"
    "\<And>V. thread_is_running X V" "accepting X"
  shows "command_queue U = command_queue S \<and> (\<exists>V. enqueue_command X w U = Some V \<and> cmd_line V = w # command_queue S)"
  using assms
  by (auto simp: hci_module_shut_down_def hci_module_start_up_def enqueue_command_def accepting_def Let_def future_new_def
      post_task_def cmd_line_def)

theorem restart_keeps_queue_witness:
  "\<exists>T f U V. hci_module_shut_down demo_ext demo_posted = Some T \<and> hci_module_start_up demo_ext T = Some (f, U) \<and>
     enqueue_command demo_ext 9 U = Some V \<and> cmd_line V = [9, 8]"
proof -
  obtain T where T: "hci_module_shut_down demo_ext demo_posted = Some T"
    by (simp add: hci_module_shut_down_def demo_ext_def)
  obtain f U where U: "hci_module_start_up demo_ext T = Some (f, U)"
    by (simp add: hci_module_start_up_def demo_ext_def future_new_def Let_def)
  have q: "command_queue demo_posted = [8]" by (simp add: demo_posted_def)
  have "\<exists>V. enqueue_command demo_ext 9 U = Some V \<and> cmd_line V = [9, 8]"
    using restart_keeps_queue [OF T U, of 9] demo_accepting unfolding q by (simp add: demo_ext_def)
  then show ?thesis using T U by blast
qed

end
