(* ===== verification/Btu_Hcif.thy ===== *)
theory Btu_Hcif
  imports Hci_System
begin

text \<open>
  The sending half of \<open>btu_hcif.cc\<close>: commands from the stack to the HCI layer, with the two kinds
  of callback the layer hands back, the metrics that are logged on the way, and the callbacks that
  run on the main thread when the controller answers.

  The state adds to that of the HCI layer the wrappers of command callbacks, the tasks posted to the
  main thread, the metrics log and the callbacks that were run, with the bytes they were given and
  the length they were told, and the callbacks that were given eight random bytes.
\<close>

section \<open>State\<close>

datatype direction = DIRECTION_UNKNOWN | DIRECTION_OUTGOING | DIRECTION_INCOMING

datatype link_type = LINK_TYPE_UNKNOWN | LINK_TYPE_ACL | Link_type_code u8

datatype metric =
    LogLinkLayerConnectionEvent "raw_address option" u16 direction link_type u16 u16 u16 u16
  | LogClassicPairingEvent raw_address u16 u16 u16 u16 u16 int

text \<open>The callbacks of \<open>btu_hcif_send_cmd_with_cb\<close>: that of LE Rand, and those of other callers.\<close>

datatype hci_cmd_cb = Ble_rand_cb nat | Client_cb nat

datatype main_task =
    Command_complete_on_task ptr "ptr option"
  | Command_status_on_task u8 ptr "ptr option"
  | Command_complete_with_cb_on_task ptr "ptr option"
  | Command_status_with_cb_on_task u8 ptr "ptr option"

text \<open>A run callback: the bytes at the pointer it gets, and the length it is told.\<close>

record cb_run =
  run_cb :: hci_cmd_cb
  run_bytes :: bytes
  run_len :: u16

record btu_state =
  hci :: hci_layer
  metrics :: "metric list"
  wrappers :: "ptr \<rightharpoonup> hci_cmd_cb"
  main_tasks :: "main_task list"
  cb_runs :: "cb_run list"
  octet8_runs :: "(nat \<times> bytes) list"

text \<open>
  Code outside the repository: the compile-time switch for LE privacy, the resolution of identity
  addresses (found or not, and the address after the call), and whether the main thread takes a task.
\<close>

record btu_ext =
  ble_privacy_spt :: bool
  btm_identity_addr_to_random_pseudo :: "raw_address \<Rightarrow> u8 \<Rightarrow> bool \<times> raw_address"
  btm_ble_is_resolve_bda :: "raw_address \<Rightarrow> bool"
  do_in_main_thread :: "btu_state \<Rightarrow> bool"

definition kEmpty :: raw_address where
  "kEmpty = replicate 6 0"

section \<open>Metrics\<close>

text \<open>
  The status and event that are logged: a command that is being sent has neither yet.
\<close>

definition log_event_code :: "hci_hdrs \<Rightarrow> bool \<Rightarrow> u16" where
  "log_event_code E is_cmd_status =
     (if is_cmd_status then hci_word E EVT_COMMAND_STATUS else hci_word E EVT_UNKNOWN)"

definition log_status :: "hci_hdrs \<Rightarrow> bool \<Rightarrow> u16 \<Rightarrow> u16" where
  "log_status E is_cmd_status cmd_status =
     (if is_cmd_status then cmd_status else hci_word E STATUS_UNKNOWN)"

text \<open>The initiating commands, whose peer address is only meaningful without a filter policy.\<close>

definition log_create_ll_conn ::
  "hci_hdrs \<Rightarrow> btu_ext \<Rightarrow> u16 \<Rightarrow> bt_hdr \<Rightarrow> nat \<Rightarrow> u16 \<Rightarrow> u16 \<Rightarrow> bool \<Rightarrow> metric list option"
where
  "log_create_ll_conn E B opcode b p hci_event cmd_status is_cmd_status = do {
     initiator_filter_policy \<leftarrow> rd8 b (p + 4);
     peer_address_type \<leftarrow> rd8 b (p + 5);
     bd_addr \<leftarrow> rd_bdaddr E b (p + 6);
     let (found, pseudo) = btm_identity_addr_to_random_pseudo B bd_addr peer_address_type;
     let is_id = (peer_address_type = hci_byte E BLE_ADDR_PUBLIC_ID \<or> peer_address_type = hci_byte E BLE_ADDR_RANDOM_ID);
     let bd_addr_p = (if initiator_filter_policy \<noteq> 0 then None
                      else if ble_privacy_spt B \<and> is_id then (if found then Some pseudo else None)
                      else Some bd_addr);
     Some (if initiator_filter_policy = 0 \<or> (cmd_status \<noteq> ucast (hci_byte E HCI_SUCCESS) \<and> \<not> is_cmd_status)
           then [LogLinkLayerConnectionEvent bd_addr_p (hci_word E kUnknownConnectionHandle) DIRECTION_OUTGOING
                   LINK_TYPE_ACL opcode hci_event cmd_status (hci_word E STATUS_UNKNOWN)]
           else [])
   }"

definition log_ext_create_conn ::
  "hci_hdrs \<Rightarrow> btu_ext \<Rightarrow> u16 \<Rightarrow> bt_hdr \<Rightarrow> nat \<Rightarrow> u16 \<Rightarrow> u16 \<Rightarrow> bool \<Rightarrow> metric list option"
where
  "log_ext_create_conn E B opcode b p hci_event cmd_status is_cmd_status = do {
     initiator_filter_policy \<leftarrow> rd8 b p;
     peer_addr_type \<leftarrow> rd8 b (p + 2);
     bd_addr \<leftarrow> rd_bdaddr E b (p + 3);
     let (_, pseudo) = btm_identity_addr_to_random_pseudo B bd_addr peer_addr_type;
     let bd_addr_p = (if initiator_filter_policy \<noteq> 0 then None
                      else if ble_privacy_spt B then Some pseudo else Some bd_addr);
     Some (if initiator_filter_policy = 0 \<or> (cmd_status \<noteq> ucast (hci_byte E HCI_SUCCESS) \<and> \<not> is_cmd_status)
           then [LogLinkLayerConnectionEvent bd_addr_p (hci_word E kUnknownConnectionHandle) DIRECTION_OUTGOING
                   LINK_TYPE_ACL opcode hci_event cmd_status (hci_word E STATUS_UNKNOWN)]
           else [])
   }"

definition log_white_list ::
  "hci_hdrs \<Rightarrow> btu_ext \<Rightarrow> u16 \<Rightarrow> bt_hdr \<Rightarrow> nat \<Rightarrow> u16 \<Rightarrow> u16 \<Rightarrow> metric list option"
where
  "log_white_list E B opcode b p hci_event cmd_status = do {
     peer_addr_type \<leftarrow> rd8 b p;
     bd_addr \<leftarrow> rd_bdaddr E b (p + 1);
     let addr_is_rpa = (peer_addr_type = hci_byte E BLE_ADDR_RANDOM \<and> btm_ble_is_resolve_bda B bd_addr);
     let (_, pseudo) = btm_identity_addr_to_random_pseudo B bd_addr peer_addr_type;
     let bd_addr_p = (if peer_addr_type = hci_byte E BLE_ADDR_ANONYMOUS then None
                      else if ble_privacy_spt B \<and> \<not> addr_is_rpa then Some pseudo else Some bd_addr);
     Some [LogLinkLayerConnectionEvent bd_addr_p (hci_word E kUnknownConnectionHandle) DIRECTION_INCOMING
             LINK_TYPE_ACL opcode hci_event cmd_status (hci_word E STATUS_UNKNOWN)]
   }"

definition btu_hcif_log_command_metrics ::
  "hci_hdrs \<Rightarrow> btu_ext \<Rightarrow> u16 \<Rightarrow> bt_hdr \<Rightarrow> nat \<Rightarrow> u16 \<Rightarrow> bool \<Rightarrow> metric list option"
where
  "btu_hcif_log_command_metrics E B opcode b p status is_cmd_status =
     (let hci_event = log_event_code E is_cmd_status;
          cmd_status = log_status E is_cmd_status status;
          unknown_handle = hci_word E kUnknownConnectionHandle;
          unknown = hci_word E STATUS_UNKNOWN;
          link = (\<lambda>a h d t r. LogLinkLayerConnectionEvent a h d t opcode hci_event cmd_status r);
          pairing = (\<lambda>a h r v. LogClassicPairingEvent a h opcode hci_event cmd_status r v);
          is_op = (\<lambda>ops. opcode \<in> set (map (hci_br_opcode E) ops));
          is_ble = (\<lambda>op. opcode = hci_opcode E op)
      in if is_op [HCI_CREATE_CONNECTION, HCI_CREATE_CONNECTION_CANCEL] then do {
           a \<leftarrow> rd_bdaddr E b p;
           Some [link (Some a) unknown_handle DIRECTION_OUTGOING LINK_TYPE_ACL unknown]
         } else if is_op [HCI_DISCONNECT] then do {
           h \<leftarrow> rd16 E b p; r \<leftarrow> rd8 b (p + 2);
           Some [link None h DIRECTION_UNKNOWN LINK_TYPE_UNKNOWN (ucast r)]
         } else if is_op [HCI_SETUP_ESCO_CONNECTION, HCI_ENH_SETUP_ESCO_CONNECTION] then do {
           h \<leftarrow> rd16 E b p;
           Some [link None h DIRECTION_OUTGOING LINK_TYPE_UNKNOWN unknown]
         } else if is_op [HCI_ACCEPT_CONNECTION_REQUEST, HCI_ACCEPT_ESCO_CONNECTION, HCI_ENH_ACCEPT_ESCO_CONNECTION] then do {
           a \<leftarrow> rd_bdaddr E b p;
           Some [link (Some a) unknown_handle DIRECTION_INCOMING LINK_TYPE_UNKNOWN unknown]
         } else if is_op [HCI_REJECT_CONNECTION_REQUEST, HCI_REJECT_ESCO_CONNECTION] then do {
           a \<leftarrow> rd_bdaddr E b p; r \<leftarrow> rd8 b (p + 6);
           Some [link (Some a) unknown_handle DIRECTION_INCOMING LINK_TYPE_UNKNOWN (ucast r)]
         } else if is_ble HCI_BLE_CREATE_LL_CONN
         then log_create_ll_conn E B opcode b p hci_event cmd_status is_cmd_status
         else if is_ble HCI_LE_EXTENDED_CREATE_CONNECTION
         then log_ext_create_conn E B opcode b p hci_event cmd_status is_cmd_status
         else if is_ble HCI_BLE_CREATE_CONN_CANCEL
         then Some (if cmd_status \<noteq> ucast (hci_byte E HCI_SUCCESS) \<and> \<not> is_cmd_status
                    then [link None unknown_handle DIRECTION_OUTGOING LINK_TYPE_ACL unknown] else [])
         else if is_ble HCI_BLE_CLEAR_WHITE_LIST
         then Some [link None unknown_handle DIRECTION_INCOMING LINK_TYPE_ACL unknown]
         else if is_ble HCI_BLE_ADD_WHITE_LIST \<or> is_ble HCI_BLE_REMOVE_WHITE_LIST
         then log_white_list E B opcode b p hci_event cmd_status
         else if is_op [HCI_READ_LOCAL_OOB_DATA] then Some [pairing kEmpty unknown_handle unknown 0]
         else if is_op [HCI_WRITE_SIMPLE_PAIRING_MODE, HCI_WRITE_SECURE_CONNS_SUPPORT] then do {
           v \<leftarrow> rd8 b p;
           Some [pairing kEmpty unknown_handle unknown (uint v)]
         } else if is_op [HCI_AUTHENTICATION_REQUESTED] then do {
           h \<leftarrow> rd16 E b p;
           Some [pairing kEmpty h unknown 0]
         } else if is_op [HCI_SET_CONN_ENCRYPTION] then do {
           h \<leftarrow> rd16 E b p; v \<leftarrow> rd8 b (p + 2);
           Some [pairing kEmpty h unknown (uint v)]
         } else if is_op [HCI_DELETE_STORED_LINK_KEY] then do {
           a \<leftarrow> rd_bdaddr E b p; v \<leftarrow> rd8 b (p + 6);
           Some [pairing a unknown_handle unknown (uint v)]
         } else if is_op [HCI_RMT_NAME_REQUEST, HCI_RMT_NAME_REQUEST_CANCEL, HCI_LINK_KEY_REQUEST_REPLY,
             HCI_LINK_KEY_REQUEST_NEG_REPLY, HCI_IO_CAPABILITY_REQUEST_REPLY, HCI_USER_CONF_REQUEST_REPLY,
             HCI_USER_CONF_VALUE_NEG_REPLY, HCI_USER_PASSKEY_REQ_REPLY, HCI_USER_PASSKEY_REQ_NEG_REPLY,
             HCI_REM_OOB_DATA_REQ_REPLY, HCI_REM_OOB_DATA_REQ_NEG_REPLY] then do {
           a \<leftarrow> rd_bdaddr E b p;
           Some [pairing a unknown_handle unknown 0]
         } else if is_op [HCI_IO_CAP_REQ_NEG_REPLY] then do {
           a \<leftarrow> rd_bdaddr E b p; r \<leftarrow> rd8 b (p + 6);
           Some [pairing a unknown_handle (ucast r) 0]
         } else Some [])"

definition btu_hcif_log_command_complete_metrics :: "hci_hdrs \<Rightarrow> u16 \<Rightarrow> bt_hdr \<Rightarrow> nat \<Rightarrow> metric list option" where
  "btu_hcif_log_command_complete_metrics E opcode b p =
     (let ev = hci_word E EVT_COMMAND_COMPLETE;
          reason = hci_word E STATUS_UNKNOWN;
          unknown_handle = hci_word E kUnknownConnectionHandle;
          is_op = (\<lambda>ops. opcode \<in> set (map (hci_br_opcode E) ops))
      in if opcode \<in> {hci_opcode E HCI_BLE_CLEAR_WHITE_LIST, hci_opcode E HCI_BLE_ADD_WHITE_LIST,
                       hci_opcode E HCI_BLE_REMOVE_WHITE_LIST} then do {
           st \<leftarrow> rd8 b p;
           Some [LogLinkLayerConnectionEvent None unknown_handle DIRECTION_INCOMING LINK_TYPE_ACL opcode ev (ucast st) reason]
         } else if is_op [HCI_DELETE_STORED_LINK_KEY, HCI_READ_LOCAL_OOB_DATA, HCI_WRITE_SIMPLE_PAIRING_MODE,
             HCI_WRITE_SECURE_CONNS_SUPPORT] then do {
           st \<leftarrow> rd8 b p;
           Some [LogClassicPairingEvent kEmpty unknown_handle opcode ev (ucast st) reason 0]
         } else if is_op [HCI_READ_ENCR_KEY_SIZE] then do {
           st \<leftarrow> rd8 b p; h \<leftarrow> rd16 E b (p + 1); k \<leftarrow> rd8 b (p + 3);
           Some [LogClassicPairingEvent kEmpty h opcode ev (ucast st) reason (uint k)]
         } else if is_op [HCI_LINK_KEY_REQUEST_REPLY, HCI_LINK_KEY_REQUEST_NEG_REPLY, HCI_IO_CAPABILITY_REQUEST_REPLY,
             HCI_IO_CAP_REQ_NEG_REPLY, HCI_USER_CONF_REQUEST_REPLY, HCI_USER_CONF_VALUE_NEG_REPLY,
             HCI_USER_PASSKEY_REQ_REPLY, HCI_USER_PASSKEY_REQ_NEG_REPLY, HCI_REM_OOB_DATA_REQ_REPLY,
             HCI_REM_OOB_DATA_REQ_NEG_REPLY] then do {
           st \<leftarrow> rd8 b p; a \<leftarrow> rd_bdaddr E b (p + 1);
           Some [LogClassicPairingEvent a unknown_handle opcode ev (ucast st) reason 0]
         } else Some [])"

section \<open>Sending\<close>

text \<open>
  A pointer that a command keeps in its first four data bytes: \<open>LE Encrypt\<close> and vendor commands
  store the completion callback there, in front of the command itself.
\<close>

definition rd_pointer :: "bt_hdr \<Rightarrow> ptr option option" where
  "rd_pointer b = do {
     bs \<leftarrow> rd_bytes b 0 4;
     v \<leftarrow> get32 bs 0;
     Some (if v = 0 then None else Some (unat v))
   }"

definition btu_hcif_send_cmd ::
  "hci_hdrs \<Rightarrow> btu_ext \<Rightarrow> hci_ext \<Rightarrow> ptr option \<Rightarrow> btu_state \<Rightarrow> btu_state option"
where
  "btu_hcif_send_cmd E B X p_buf S =
     (case p_buf of
        None \<Rightarrow> Some S
      | Some p \<Rightarrow> do {
          b \<leftarrow> bufs (hci S) p;
          opcode \<leftarrow> rd16 E b (unat (bt_offset b));
          vsc_callback \<leftarrow>
            (if is_vendor E opcode \<or> opcode = hci_opcode E HCI_BLE_RAND \<or> opcode = hci_opcode E HCI_BLE_ENCRYPT
             then rd_pointer b else Some None);
          ms \<leftarrow> btu_hcif_log_command_metrics E B opcode b (unat (bt_offset b) + 3) (hci_word E STATUS_UNKNOWN) False;
          H \<leftarrow> transmit_command E X p (Some Btu_hcif_command_complete_evt) (Some Btu_hcif_command_status_evt)
                vsc_callback (hci S);
          Some (S\<lparr>hci := H, metrics := metrics S @ ms\<rparr>)
        })"

text \<open>The common tail of the command writers: the packet they built goes to \<open>btu_hcif_send_cmd\<close>.\<close>

definition send_new :: "hci_hdrs \<Rightarrow> btu_ext \<Rightarrow> hci_ext \<Rightarrow> bt_hdr option \<Rightarrow> btu_state \<Rightarrow> btu_state option" where
  "send_new E B X packet S = do {
     b \<leftarrow> packet;
     let (p, H) = new_buf b (hci S);
     btu_hcif_send_cmd E B X (Some p) (S\<lparr>hci := H\<rparr>)
   }"

text \<open>
  \<open>memcpy\<close> of the parameters when there are any; the wrapper of the callback is the context of
  the command.
\<close>

definition cmd_with_cb_packet :: "hci_hdrs \<Rightarrow> u16 \<Rightarrow> bytes option \<Rightarrow> u8 \<Rightarrow> bt_hdr option" where
  "cmd_with_cb_packet E opcode params params_len =
     hci_cmd E (hcic_const E HCIC_PREAMBLE_SIZE + unat params_len) 0
       ([UINT16_TO_STREAM E opcode, UINT8_TO_STREAM E params_len] @
        (case params of None \<Rightarrow> []
         | Some bs \<Rightarrow> [(\<lambda>s. if unat params_len \<le> length bs then poke (take (unat params_len) bs) s else None)]))"

definition cmd_with_cb_data_init :: "hci_cmd_cb \<Rightarrow> btu_state \<Rightarrow> ptr \<times> btu_state" where
  "cmd_with_cb_data_init cb S =
     (let w = next_ptr (hci S)
      in (w, S\<lparr>hci := (hci S)\<lparr>next_ptr := w + 1\<rparr>, wrappers := (wrappers S)(w \<mapsto> cb)\<rparr>))"

definition cmd_with_cb_data_cleanup :: "ptr \<Rightarrow> btu_state \<Rightarrow> btu_state option" where
  "cmd_with_cb_data_cleanup w S =
     (if wrappers S w = None then None else Some (S\<lparr>wrappers := (wrappers S)(w := None)\<rparr>))"

definition btu_hcif_send_cmd_with_cb ::
  "hci_hdrs \<Rightarrow> btu_ext \<Rightarrow> hci_ext \<Rightarrow> u16 \<Rightarrow> bytes option \<Rightarrow> u8 \<Rightarrow> hci_cmd_cb \<Rightarrow> btu_state \<Rightarrow> btu_state option"
where
  "btu_hcif_send_cmd_with_cb E B X opcode params params_len cb S = do {
     b \<leftarrow> cmd_with_cb_packet E opcode params params_len;
     let (p, H) = new_buf b (hci S);
     ms \<leftarrow> btu_hcif_log_command_metrics E B opcode b 3 (hci_word E STATUS_UNKNOWN) False;
     let (w, S1) = cmd_with_cb_data_init cb (S\<lparr>hci := H, metrics := metrics S @ ms\<rparr>);
     H' \<leftarrow> transmit_command E X p (Some Btu_hcif_command_complete_evt_with_cb)
             (Some Btu_hcif_command_status_evt_with_cb) (Some w) (hci S1);
     Some (S1\<lparr>hci := H'\<rparr>)
   }"

section \<open>Responses\<close>

definition post_main :: "btu_ext \<Rightarrow> main_task \<Rightarrow> btu_state \<Rightarrow> btu_state" where
  "post_main B t S = (if do_in_main_thread B S then S\<lparr>main_tasks := main_tasks S @ [t]\<rparr> else S)"

definition osi_free_event :: "ptr \<Rightarrow> btu_state \<Rightarrow> btu_state option" where
  "osi_free_event p S = map_option (\<lambda>H. S\<lparr>hci := H\<rparr>) (free_buf p (hci S))"

definition btu_hcif_command_complete_evt_with_cb :: "btu_ext \<Rightarrow> ptr \<Rightarrow> ptr option \<Rightarrow> btu_state \<Rightarrow> btu_state option" where
  "btu_hcif_command_complete_evt_with_cb B response ctx S =
     Some (post_main B (Command_complete_with_cb_on_task response ctx) S)"

definition btu_hcif_command_status_evt_with_cb :: "btu_ext \<Rightarrow> u8 \<Rightarrow> ptr \<Rightarrow> ptr option \<Rightarrow> btu_state \<Rightarrow> btu_state option" where
  "btu_hcif_command_status_evt_with_cb B status cmd ctx S =
     (if status = 0 then osi_free_event cmd S
      else Some (post_main B (Command_status_with_cb_on_task status cmd ctx) S))"

definition btu_hcif_command_complete_evt :: "btu_ext \<Rightarrow> ptr \<Rightarrow> ptr option \<Rightarrow> btu_state \<Rightarrow> btu_state option" where
  "btu_hcif_command_complete_evt B response ctx S =
     Some (post_main B (Command_complete_on_task response ctx) S)"

definition btu_hcif_command_status_evt :: "btu_ext \<Rightarrow> u8 \<Rightarrow> ptr \<Rightarrow> ptr option \<Rightarrow> btu_state \<Rightarrow> btu_state option" where
  "btu_hcif_command_status_evt B status cmd ctx S =
     Some (post_main B (Command_status_on_task status cmd ctx) S)"

text \<open>
  The tasks on the main thread. The return parameters start behind the five bytes of the event and
  command complete headers; \<open>param_len\<close> is a 16-bit difference. A command status error runs the
  callback with a pointer to the one status byte and the length \<open>sizeof(uint16_t)\<close>. What the
  callback does is the argument \<open>R\<close>; that it ran, and with what, is recorded.
\<close>

type_synonym cb_runner = "hci_cmd_cb \<Rightarrow> bytes \<Rightarrow> u16 \<Rightarrow> btu_state \<Rightarrow> btu_state option"

definition run_callback :: "cb_runner \<Rightarrow> hci_cmd_cb \<Rightarrow> bytes \<Rightarrow> u16 \<Rightarrow> btu_state \<Rightarrow> btu_state option" where
  "run_callback R cb bs n S =
     R cb bs n (S\<lparr>cb_runs := cb_runs S @ [\<lparr>run_cb = cb, run_bytes = bs, run_len = n\<rparr>]\<rparr>)"

definition return_params :: "bt_hdr \<Rightarrow> bytes" where
  "return_params b = map the (takeWhile (\<lambda>x. x \<noteq> None) (drop (unat (bt_offset b) + 5) (bt_data b)))"

definition btu_hcif_command_complete_evt_with_cb_on_task ::
  "hci_hdrs \<Rightarrow> cb_runner \<Rightarrow> ptr \<Rightarrow> ptr option \<Rightarrow> btu_state \<Rightarrow> btu_state option"
where
  "btu_hcif_command_complete_evt_with_cb_on_task E R event ctx S = do {
     b \<leftarrow> bufs (hci S) event;
     opcode \<leftarrow> rd16 E b (unat (bt_offset b) + 3);
     ms \<leftarrow> btu_hcif_log_command_complete_metrics E opcode b (unat (bt_offset b) + 5);
     w \<leftarrow> ctx;
     cb \<leftarrow> wrappers S w;
     S1 \<leftarrow> run_callback R cb (return_params b) (bt_len b - 5) (S\<lparr>metrics := metrics S @ ms\<rparr>);
     S2 \<leftarrow> cmd_with_cb_data_cleanup w S1;
     osi_free_event event S2
   }"

definition btu_hcif_command_status_evt_with_cb_on_task ::
  "hci_hdrs \<Rightarrow> btu_ext \<Rightarrow> cb_runner \<Rightarrow> u8 \<Rightarrow> ptr \<Rightarrow> ptr option \<Rightarrow> btu_state \<Rightarrow> btu_state option"
where
  "btu_hcif_command_status_evt_with_cb_on_task E B R status event ctx S = do {
     b \<leftarrow> bufs (hci S) event;
     opcode \<leftarrow> rd16 E b (unat (bt_offset b));
     if status = 0 then Some (S\<lparr>hci := (hci S)\<lparr>process := Aborted\<rparr>\<rparr>)
     else do {
       ms \<leftarrow> btu_hcif_log_command_metrics E B opcode b (unat (bt_offset b) + 3) (ucast status) True;
       w \<leftarrow> ctx;
       cb \<leftarrow> wrappers S w;
       S1 \<leftarrow> run_callback R cb [status] 2 (S\<lparr>metrics := metrics S @ ms\<rparr>);
       S2 \<leftarrow> cmd_with_cb_data_cleanup w S1;
       osi_free_event event S2
     }
   }"

section \<open>From the HCI layer to the callbacks\<close>

text \<open>
  The HCI layer calls a completion or status callback; the calls that enter this file do what it
  says, those of other clients and the other hand-overs do not concern it.
\<close>

fun deliver_handed :: "btu_ext \<Rightarrow> handed \<Rightarrow> btu_state \<Rightarrow> btu_state option" where
  "deliver_handed B (Complete_call Btu_hcif_command_complete_evt p ctx) = btu_hcif_command_complete_evt B p ctx"
| "deliver_handed B (Complete_call Btu_hcif_command_complete_evt_with_cb p ctx) = btu_hcif_command_complete_evt_with_cb B p ctx"
| "deliver_handed B (Status_call Btu_hcif_command_status_evt st p ctx) = btu_hcif_command_status_evt B st p ctx"
| "deliver_handed B (Status_call Btu_hcif_command_status_evt_with_cb st p ctx) = btu_hcif_command_status_evt_with_cb B st p ctx"
| "deliver_handed B _ = Some"

end
