(* ===== verification/Hci_Ble_Cmds.thy ===== *)
theory Hci_Ble_Cmds
  imports Btu_Hcif
begin

text \<open>
  The LE command writers of \<open>hciblecmds.cc\<close>, in the order of the file. Each allocates a command
  buffer, sets its length and offset, writes opcode, parameter length and parameters through the
  stream macros, and sends the packet through \<open>btu_hcif_send_cmd\<close> or \<open>btu_hcif_send_cmd_with_cb\<close>.
\<close>

section \<open>Helpers\<close>

text \<open>The optional part of the advertising commands: a clamped length and that many bytes.\<close>

definition adv_payload :: "hci_hdrs \<Rightarrow> nat \<Rightarrow> u8 \<Rightarrow> bytes option \<Rightarrow> (stream \<Rightarrow> stream option) list" where
  "adv_payload E cap data_len p_data =
     (case p_data of
        None \<Rightarrow> []
      | Some d \<Rightarrow>
          (if data_len > 0 then
             (let n = (if unat data_len > cap then of_nat cap else data_len)
              in [UINT8_TO_STREAM E n, ARRAY_TO_STREAM E d (unat n)])
           else []))"

text \<open>Parameters that are built in a local array of the given size; every byte must be written.\<close>

definition local_params :: "nat \<Rightarrow> (stream \<Rightarrow> stream option) list \<Rightarrow> bytes option" where
  "local_params n ws = do {
     (d, _) \<leftarrow> run_stream ws (replicate n None, 0);
     if initialised d then Some (map the d) else None
   }"

definition bitset_count :: "u8 \<Rightarrow> nat" where
  "bitset_count w = length (filter (bit w) [0..<8])"

section \<open>The commands\<close>

definition btsnd_hcic_ble_set_local_used_feat ::
  "hci_hdrs \<Rightarrow> btu_ext \<Rightarrow> hci_ext \<Rightarrow> bytes \<Rightarrow> btu_state \<Rightarrow> btu_state option"
where
  "btsnd_hcic_ble_set_local_used_feat E B X feat_set =
     send_new E B X (hci_cmd E (hcic_const E HCIC_PREAMBLE_SIZE + hcic_const E HCIC_PARAM_SIZE_SET_USED_FEAT_CMD) 0
      [UINT16_TO_STREAM E (hci_opcode E HCI_BLE_WRITE_LOCAL_SPT_FEAT),
       ARRAY_TO_STREAM E feat_set (hcic_const E HCIC_PARAM_SIZE_SET_USED_FEAT_CMD)])"

definition btsnd_hcic_ble_set_random_addr ::
  "hci_hdrs \<Rightarrow> btu_ext \<Rightarrow> hci_ext \<Rightarrow> raw_address \<Rightarrow> btu_state \<Rightarrow> btu_state option"
where
  "btsnd_hcic_ble_set_random_addr E B X random_bda =
     send_new E B X (hci_cmd E (hcic_const E HCIC_PREAMBLE_SIZE + hcic_const E HCIC_PARAM_SIZE_WRITE_RANDOM_ADDR_CMD) 0
      [UINT16_TO_STREAM E (hci_opcode E HCI_BLE_WRITE_RANDOM_ADDR),
       UINT8_TO_STREAM E (of_nat (hcic_const E HCIC_PARAM_SIZE_WRITE_RANDOM_ADDR_CMD)),
       BDADDR_TO_STREAM E random_bda])"

definition btsnd_hcic_ble_write_adv_params ::
  "hci_hdrs \<Rightarrow> btu_ext \<Rightarrow> hci_ext \<Rightarrow> u16 \<Rightarrow> u16 \<Rightarrow> u8 \<Rightarrow> u8 \<Rightarrow> u8 \<Rightarrow> raw_address \<Rightarrow> u8 \<Rightarrow> u8 \<Rightarrow> btu_state \<Rightarrow> btu_state option"
where
  "btsnd_hcic_ble_write_adv_params E B X adv_int_min adv_int_max adv_type addr_type_own addr_type_dir
      direct_bda channel_map adv_filter_policy =
     send_new E B X (hci_cmd E (hcic_const E HCIC_PREAMBLE_SIZE + hcic_const E HCIC_PARAM_SIZE_BLE_WRITE_ADV_PARAMS) 0
      [UINT16_TO_STREAM E (hci_opcode E HCI_BLE_WRITE_ADV_PARAMS),
       UINT8_TO_STREAM E (of_nat (hcic_const E HCIC_PARAM_SIZE_BLE_WRITE_ADV_PARAMS)),
       UINT16_TO_STREAM E adv_int_min,
       UINT16_TO_STREAM E adv_int_max,
       UINT8_TO_STREAM E adv_type,
       UINT8_TO_STREAM E addr_type_own,
       UINT8_TO_STREAM E addr_type_dir,
       BDADDR_TO_STREAM E direct_bda,
       UINT8_TO_STREAM E channel_map,
       UINT8_TO_STREAM E adv_filter_policy])"

definition btsnd_hcic_ble_read_adv_chnl_tx_power ::
  "hci_hdrs \<Rightarrow> btu_ext \<Rightarrow> hci_ext \<Rightarrow> btu_state \<Rightarrow> btu_state option"
where
  "btsnd_hcic_ble_read_adv_chnl_tx_power E B X =
     send_new E B X (hci_cmd E (hcic_const E HCIC_PREAMBLE_SIZE + hcic_const E HCIC_PARAM_SIZE_READ_CMD) 0
      [UINT16_TO_STREAM E (hci_opcode E HCI_BLE_READ_ADV_CHNL_TX_POWER),
       UINT8_TO_STREAM E (of_nat (hcic_const E HCIC_PARAM_SIZE_READ_CMD))])"

definition btsnd_hcic_ble_set_adv_data ::
  "hci_hdrs \<Rightarrow> btu_ext \<Rightarrow> hci_ext \<Rightarrow> u8 \<Rightarrow> bytes option \<Rightarrow> btu_state \<Rightarrow> btu_state option"
where
  "btsnd_hcic_ble_set_adv_data E B X data_len p_data =
     send_new E B X (hci_cmd E (hcic_const E HCIC_PREAMBLE_SIZE + hcic_const E HCIC_PARAM_SIZE_BLE_WRITE_ADV_DATA + 1) 0
      ([UINT16_TO_STREAM E (hci_opcode E HCI_BLE_WRITE_ADV_DATA),
        UINT8_TO_STREAM E (of_nat (hcic_const E HCIC_PARAM_SIZE_BLE_WRITE_ADV_DATA + 1)),
        memset_stream 0 (hcic_const E HCIC_PARAM_SIZE_BLE_WRITE_ADV_DATA)] @
       adv_payload E (hcic_const E HCIC_PARAM_SIZE_BLE_WRITE_ADV_DATA) data_len p_data))"

definition btsnd_hcic_ble_set_scan_rsp_data ::
  "hci_hdrs \<Rightarrow> btu_ext \<Rightarrow> hci_ext \<Rightarrow> u8 \<Rightarrow> bytes option \<Rightarrow> btu_state \<Rightarrow> btu_state option"
where
  "btsnd_hcic_ble_set_scan_rsp_data E B X data_len p_scan_rsp =
     send_new E B X (hci_cmd E (hcic_const E HCIC_PREAMBLE_SIZE + hcic_const E HCIC_PARAM_SIZE_BLE_WRITE_SCAN_RSP + 1) 0
      ([UINT16_TO_STREAM E (hci_opcode E HCI_BLE_WRITE_SCAN_RSP_DATA),
        UINT8_TO_STREAM E (of_nat (hcic_const E HCIC_PARAM_SIZE_BLE_WRITE_SCAN_RSP + 1)),
        memset_stream 0 (hcic_const E HCIC_PARAM_SIZE_BLE_WRITE_SCAN_RSP)] @
       adv_payload E (hcic_const E HCIC_PARAM_SIZE_BLE_WRITE_SCAN_RSP) data_len p_scan_rsp))"

definition btsnd_hcic_ble_set_adv_enable ::
  "hci_hdrs \<Rightarrow> btu_ext \<Rightarrow> hci_ext \<Rightarrow> u8 \<Rightarrow> btu_state \<Rightarrow> btu_state option"
where
  "btsnd_hcic_ble_set_adv_enable E B X adv_enable =
     send_new E B X (hci_cmd E (hcic_const E HCIC_PREAMBLE_SIZE + hcic_const E HCIC_PARAM_SIZE_WRITE_ADV_ENABLE) 0
      [UINT16_TO_STREAM E (hci_opcode E HCI_BLE_WRITE_ADV_ENABLE),
       UINT8_TO_STREAM E (of_nat (hcic_const E HCIC_PARAM_SIZE_WRITE_ADV_ENABLE)),
       UINT8_TO_STREAM E adv_enable])"

definition btsnd_hcic_ble_set_scan_params ::
  "hci_hdrs \<Rightarrow> btu_ext \<Rightarrow> hci_ext \<Rightarrow> u8 \<Rightarrow> u16 \<Rightarrow> u16 \<Rightarrow> u8 \<Rightarrow> u8 \<Rightarrow> btu_state \<Rightarrow> btu_state option"
where
  "btsnd_hcic_ble_set_scan_params E B X scan_type scan_int scan_win addr_type_own scan_filter_policy =
     send_new E B X (hci_cmd E (hcic_const E HCIC_PREAMBLE_SIZE + hcic_const E HCIC_PARAM_SIZE_BLE_WRITE_SCAN_PARAM) 0
      [UINT16_TO_STREAM E (hci_opcode E HCI_BLE_WRITE_SCAN_PARAMS),
       UINT8_TO_STREAM E (of_nat (hcic_const E HCIC_PARAM_SIZE_BLE_WRITE_SCAN_PARAM)),
       UINT8_TO_STREAM E scan_type,
       UINT16_TO_STREAM E scan_int,
       UINT16_TO_STREAM E scan_win,
       UINT8_TO_STREAM E addr_type_own,
       UINT8_TO_STREAM E scan_filter_policy])"

definition btsnd_hcic_ble_set_scan_enable ::
  "hci_hdrs \<Rightarrow> btu_ext \<Rightarrow> hci_ext \<Rightarrow> u8 \<Rightarrow> u8 \<Rightarrow> btu_state \<Rightarrow> btu_state option"
where
  "btsnd_hcic_ble_set_scan_enable E B X scan_enable duplicate =
     send_new E B X (hci_cmd E (hcic_const E HCIC_PREAMBLE_SIZE + hcic_const E HCIC_PARAM_SIZE_BLE_WRITE_SCAN_ENABLE) 0
      [UINT16_TO_STREAM E (hci_opcode E HCI_BLE_WRITE_SCAN_ENABLE),
       UINT8_TO_STREAM E (of_nat (hcic_const E HCIC_PARAM_SIZE_BLE_WRITE_SCAN_ENABLE)),
       UINT8_TO_STREAM E scan_enable,
       UINT8_TO_STREAM E duplicate])"

definition btsnd_hcic_ble_create_ll_conn ::
  "hci_hdrs \<Rightarrow> btu_ext \<Rightarrow> hci_ext \<Rightarrow> u16 \<Rightarrow> u16 \<Rightarrow> u8 \<Rightarrow> u8 \<Rightarrow> raw_address \<Rightarrow> u8 \<Rightarrow> u16 \<Rightarrow> u16 \<Rightarrow> u16 \<Rightarrow> u16 \<Rightarrow> u16 \<Rightarrow>
    u16 \<Rightarrow> btu_state \<Rightarrow> btu_state option"
where
  "btsnd_hcic_ble_create_ll_conn E B X scan_int scan_win init_filter_policy addr_type_peer bda_peer
      addr_type_own conn_int_min conn_int_max conn_latency conn_timeout min_ce_len max_ce_len =
     send_new E B X (hci_cmd E (hcic_const E HCIC_PREAMBLE_SIZE + hcic_const E HCIC_PARAM_SIZE_BLE_CREATE_LL_CONN) 0
      [UINT16_TO_STREAM E (hci_opcode E HCI_BLE_CREATE_LL_CONN),
       UINT8_TO_STREAM E (of_nat (hcic_const E HCIC_PARAM_SIZE_BLE_CREATE_LL_CONN)),
       UINT16_TO_STREAM E scan_int,
       UINT16_TO_STREAM E scan_win,
       UINT8_TO_STREAM E init_filter_policy,
       UINT8_TO_STREAM E addr_type_peer,
       BDADDR_TO_STREAM E bda_peer,
       UINT8_TO_STREAM E addr_type_own,
       UINT16_TO_STREAM E conn_int_min,
       UINT16_TO_STREAM E conn_int_max,
       UINT16_TO_STREAM E conn_latency,
       UINT16_TO_STREAM E conn_timeout,
       UINT16_TO_STREAM E min_ce_len,
       UINT16_TO_STREAM E max_ce_len])"

definition btsnd_hcic_ble_create_conn_cancel ::
  "hci_hdrs \<Rightarrow> btu_ext \<Rightarrow> hci_ext \<Rightarrow> btu_state \<Rightarrow> btu_state option"
where
  "btsnd_hcic_ble_create_conn_cancel E B X =
     send_new E B X (hci_cmd E (hcic_const E HCIC_PREAMBLE_SIZE + hcic_const E HCIC_PARAM_SIZE_BLE_CREATE_CONN_CANCEL) 0
      [UINT16_TO_STREAM E (hci_opcode E HCI_BLE_CREATE_CONN_CANCEL),
       UINT8_TO_STREAM E (of_nat (hcic_const E HCIC_PARAM_SIZE_BLE_CREATE_CONN_CANCEL))])"

definition btsnd_hcic_ble_clear_white_list ::
  "hci_hdrs \<Rightarrow> btu_ext \<Rightarrow> hci_ext \<Rightarrow> hci_cmd_cb \<Rightarrow> btu_state \<Rightarrow> btu_state option"
where
  "btsnd_hcic_ble_clear_white_list E B X cb =
     btu_hcif_send_cmd_with_cb E B X (hci_opcode E HCI_BLE_CLEAR_WHITE_LIST) None 0 cb"

definition btsnd_hcic_ble_add_white_list ::
  "hci_hdrs \<Rightarrow> btu_ext \<Rightarrow> hci_ext \<Rightarrow> u8 \<Rightarrow> raw_address \<Rightarrow> hci_cmd_cb \<Rightarrow> btu_state \<Rightarrow> btu_state option"
where
  "btsnd_hcic_ble_add_white_list E B X addr_type bda cb S = do {
     param \<leftarrow> local_params (hcic_const E HCIC_PARAM_SIZE_ADD_WHITE_LIST) [UINT8_TO_STREAM E addr_type, BDADDR_TO_STREAM E bda];
     btu_hcif_send_cmd_with_cb E B X (hci_opcode E HCI_BLE_ADD_WHITE_LIST) (Some param)
       (of_nat (hcic_const E HCIC_PARAM_SIZE_ADD_WHITE_LIST)) cb S
   }"

definition btsnd_hcic_ble_remove_from_white_list ::
  "hci_hdrs \<Rightarrow> btu_ext \<Rightarrow> hci_ext \<Rightarrow> u8 \<Rightarrow> raw_address \<Rightarrow> hci_cmd_cb \<Rightarrow> btu_state \<Rightarrow> btu_state option"
where
  "btsnd_hcic_ble_remove_from_white_list E B X addr_type bda cb S = do {
     param \<leftarrow> local_params (hcic_const E HCIC_PARAM_SIZE_REMOVE_WHITE_LIST) [UINT8_TO_STREAM E addr_type, BDADDR_TO_STREAM E bda];
     btu_hcif_send_cmd_with_cb E B X (hci_opcode E HCI_BLE_REMOVE_WHITE_LIST) (Some param)
       (of_nat (hcic_const E HCIC_PARAM_SIZE_REMOVE_WHITE_LIST)) cb S
   }"

definition btsnd_hcic_ble_upd_ll_conn_params ::
  "hci_hdrs \<Rightarrow> btu_ext \<Rightarrow> hci_ext \<Rightarrow> u16 \<Rightarrow> u16 \<Rightarrow> u16 \<Rightarrow> u16 \<Rightarrow> u16 \<Rightarrow> u16 \<Rightarrow> u16 \<Rightarrow> btu_state \<Rightarrow> btu_state option"
where
  "btsnd_hcic_ble_upd_ll_conn_params E B X handle conn_int_min conn_int_max conn_latency conn_timeout
      min_ce_len max_ce_len =
     send_new E B X (hci_cmd E (hcic_const E HCIC_PREAMBLE_SIZE + hcic_const E HCIC_PARAM_SIZE_BLE_UPD_LL_CONN_PARAMS) 0
      [UINT16_TO_STREAM E (hci_opcode E HCI_BLE_UPD_LL_CONN_PARAMS),
       UINT8_TO_STREAM E (of_nat (hcic_const E HCIC_PARAM_SIZE_BLE_UPD_LL_CONN_PARAMS)),
       UINT16_TO_STREAM E handle,
       UINT16_TO_STREAM E conn_int_min,
       UINT16_TO_STREAM E conn_int_max,
       UINT16_TO_STREAM E conn_latency,
       UINT16_TO_STREAM E conn_timeout,
       UINT16_TO_STREAM E min_ce_len,
       UINT16_TO_STREAM E max_ce_len])"

definition btsnd_hcic_ble_set_host_chnl_class ::
  "hci_hdrs \<Rightarrow> btu_ext \<Rightarrow> hci_ext \<Rightarrow> bytes \<Rightarrow> btu_state \<Rightarrow> btu_state option"
where
  "btsnd_hcic_ble_set_host_chnl_class E B X chnl_map =
     send_new E B X (hci_cmd E (hcic_const E HCIC_PREAMBLE_SIZE + hcic_const E HCIC_PARAM_SIZE_SET_HOST_CHNL_CLASS) 0
      [UINT16_TO_STREAM E (hci_opcode E HCI_BLE_SET_HOST_CHNL_CLASS),
       UINT8_TO_STREAM E (of_nat (hcic_const E HCIC_PARAM_SIZE_SET_HOST_CHNL_CLASS)),
       ARRAY_TO_STREAM E chnl_map (hcic_const E HCIC_BLE_CHNL_MAP_SIZE)])"

definition btsnd_hcic_ble_read_chnl_map ::
  "hci_hdrs \<Rightarrow> btu_ext \<Rightarrow> hci_ext \<Rightarrow> u16 \<Rightarrow> btu_state \<Rightarrow> btu_state option"
where
  "btsnd_hcic_ble_read_chnl_map E B X handle =
     send_new E B X (hci_cmd E (hcic_const E HCIC_PREAMBLE_SIZE + hcic_const E HCIC_PARAM_SIZE_READ_CHNL_MAP) 0
      [UINT16_TO_STREAM E (hci_opcode E HCI_BLE_READ_CHNL_MAP),
       UINT8_TO_STREAM E (of_nat (hcic_const E HCIC_PARAM_SIZE_READ_CHNL_MAP)),
       UINT16_TO_STREAM E handle])"

definition btsnd_hcic_ble_read_remote_feat ::
  "hci_hdrs \<Rightarrow> btu_ext \<Rightarrow> hci_ext \<Rightarrow> u16 \<Rightarrow> btu_state \<Rightarrow> btu_state option"
where
  "btsnd_hcic_ble_read_remote_feat E B X handle =
     send_new E B X (hci_cmd E (hcic_const E HCIC_PREAMBLE_SIZE + hcic_const E HCIC_PARAM_SIZE_BLE_READ_REMOTE_FEAT) 0
      [UINT16_TO_STREAM E (hci_opcode E HCI_BLE_READ_REMOTE_FEAT),
       UINT8_TO_STREAM E (of_nat (hcic_const E HCIC_PARAM_SIZE_BLE_READ_REMOTE_FEAT)),
       UINT16_TO_STREAM E handle])"

definition btsnd_hcic_ble_encrypt ::
  "hci_hdrs \<Rightarrow> btu_ext \<Rightarrow> hci_ext \<Rightarrow> bytes \<Rightarrow> u8 \<Rightarrow> bytes \<Rightarrow> u8 \<Rightarrow> u32 \<Rightarrow> btu_state \<Rightarrow> btu_state option"
where
  "btsnd_hcic_ble_encrypt E B X key key_len plain_text pt_len p_cmd_cplt_cback =
     (let key_size = hcic_const E HCIC_BLE_ENCRYT_KEY_SIZE;
          kl = (if unat key_len > key_size then key_size else unat key_len);
          pl = (if unat pt_len > key_size then key_size else unat pt_len)
      in send_new E B X (hci_cmd E (hcic_const E HCIC_PREAMBLE_SIZE + hcic_const E HCIC_PARAM_SIZE_BLE_ENCRYPT) 4
        [emit (put32 p_cmd_cplt_cback),
         UINT16_TO_STREAM E (hci_opcode E HCI_BLE_ENCRYPT),
         UINT8_TO_STREAM E (of_nat (hcic_const E HCIC_PARAM_SIZE_BLE_ENCRYPT)),
         memset_stream 0 (hcic_const E HCIC_PARAM_SIZE_BLE_ENCRYPT),
         ARRAY_TO_STREAM E key kl,
         advance (key_size - kl),
         ARRAY_TO_STREAM E plain_text pl]))"

text \<open>
  \<open>open\<close> and \<open>read\<close> of \<open>/dev/urandom\<close>: no descriptor, an error, or the bytes that were read. The
  buffer starts as zeros; the callback only runs when all eight bytes came.
\<close>

definition btsnd_hcic_ble_rand_from_host :: "hci_hdrs \<Rightarrow> bytes option option \<Rightarrow> nat \<Rightarrow> btu_state \<Rightarrow> btu_state option" where
  "btsnd_hcic_ble_rand_from_host E urandom cb S =
     (let n = hcic_const E BT_OCTET8_LEN
      in case urandom of
           Some (Some got) \<Rightarrow>
             (if length got = n
              then Some (S\<lparr>octet8_runs := octet8_runs S @ [(cb, got @ replicate (n - length got) 0)]\<rparr>) else Some S)
         | _ \<Rightarrow> Some S)"

text \<open>The completion of LE Rand. The error message reads the status byte when there is one.\<close>

definition ble_rand_complete ::
  "hci_hdrs \<Rightarrow> bytes option option \<Rightarrow> nat \<Rightarrow> bytes \<Rightarrow> u16 \<Rightarrow> btu_state \<Rightarrow> btu_state option"
where
  "ble_rand_complete E urandom cb param param_len S =
     (let n = hcic_const E BT_OCTET8_LEN
      in if unat param_len < 1 + n then
           (if param_len \<noteq> 0 \<and> param = [] then None else btsnd_hcic_ble_rand_from_host E urandom cb S)
         else if param = [] then None
         else if param ! 0 \<noteq> 0 then btsnd_hcic_ble_rand_from_host E urandom cb S
         else if length param < 1 + n then None
         else Some (S\<lparr>octet8_runs := octet8_runs S @ [(cb, take n (drop 1 param))]\<rparr>))"

definition btsnd_hcic_ble_rand ::
  "hci_hdrs \<Rightarrow> btu_ext \<Rightarrow> hci_ext \<Rightarrow> bool \<Rightarrow> bytes option option \<Rightarrow> nat \<Rightarrow> btu_state \<Rightarrow> btu_state option"
where
  "btsnd_hcic_ble_rand E B X supports_ble urandom cb S =
     (if \<not> supports_ble then btsnd_hcic_ble_rand_from_host E urandom cb S
      else btu_hcif_send_cmd_with_cb E B X (hci_opcode E HCI_BLE_RAND) None 0 (Ble_rand_cb cb) S)"

text \<open>What the callbacks of this file do when the main thread runs them.\<close>

primrec run_hci_cmd_cb :: "hci_hdrs \<Rightarrow> bytes option option \<Rightarrow> cb_runner" where
  "run_hci_cmd_cb E urandom (Ble_rand_cb cb) = ble_rand_complete E urandom cb"
| "run_hci_cmd_cb E urandom (Client_cb k) = (\<lambda>_ _ S. Some S)"

definition btsnd_hcic_ble_start_enc ::
  "hci_hdrs \<Rightarrow> btu_ext \<Rightarrow> hci_ext \<Rightarrow> u16 \<Rightarrow> bytes \<Rightarrow> u16 \<Rightarrow> bytes \<Rightarrow> btu_state \<Rightarrow> btu_state option"
where
  "btsnd_hcic_ble_start_enc E B X handle rand ediv ltk =
     send_new E B X (hci_cmd E (hcic_const E HCIC_PREAMBLE_SIZE + hcic_const E HCIC_PARAM_SIZE_BLE_START_ENC) 0
      [UINT16_TO_STREAM E (hci_opcode E HCI_BLE_START_ENC),
       UINT8_TO_STREAM E (of_nat (hcic_const E HCIC_PARAM_SIZE_BLE_START_ENC)),
       UINT16_TO_STREAM E handle,
       ARRAY_TO_STREAM E rand (hcic_const E HCIC_BLE_RAND_DI_SIZE),
       UINT16_TO_STREAM E ediv,
       ARRAY_TO_STREAM E ltk (hcic_const E HCIC_BLE_ENCRYT_KEY_SIZE)])"

definition btsnd_hcic_ble_ltk_req_reply ::
  "hci_hdrs \<Rightarrow> btu_ext \<Rightarrow> hci_ext \<Rightarrow> u16 \<Rightarrow> bytes \<Rightarrow> btu_state \<Rightarrow> btu_state option"
where
  "btsnd_hcic_ble_ltk_req_reply E B X handle ltk =
     send_new E B X (hci_cmd E (hcic_const E HCIC_PREAMBLE_SIZE + hcic_const E HCIC_PARAM_SIZE_LTK_REQ_REPLY) 0
      [UINT16_TO_STREAM E (hci_opcode E HCI_BLE_LTK_REQ_REPLY),
       UINT8_TO_STREAM E (of_nat (hcic_const E HCIC_PARAM_SIZE_LTK_REQ_REPLY)),
       UINT16_TO_STREAM E handle,
       ARRAY_TO_STREAM E ltk (hcic_const E HCIC_BLE_ENCRYT_KEY_SIZE)])"

definition btsnd_hcic_ble_ltk_req_neg_reply ::
  "hci_hdrs \<Rightarrow> btu_ext \<Rightarrow> hci_ext \<Rightarrow> u16 \<Rightarrow> btu_state \<Rightarrow> btu_state option"
where
  "btsnd_hcic_ble_ltk_req_neg_reply E B X handle =
     send_new E B X (hci_cmd E (hcic_const E HCIC_PREAMBLE_SIZE + hcic_const E HCIC_PARAM_SIZE_LTK_REQ_NEG_REPLY) 0
      [UINT16_TO_STREAM E (hci_opcode E HCI_BLE_LTK_REQ_NEG_REPLY),
       UINT8_TO_STREAM E (of_nat (hcic_const E HCIC_PARAM_SIZE_LTK_REQ_NEG_REPLY)),
       UINT16_TO_STREAM E handle])"

definition btsnd_hcic_ble_receiver_test ::
  "hci_hdrs \<Rightarrow> btu_ext \<Rightarrow> hci_ext \<Rightarrow> u8 \<Rightarrow> btu_state \<Rightarrow> btu_state option"
where
  "btsnd_hcic_ble_receiver_test E B X rx_freq =
     send_new E B X (hci_cmd E (hcic_const E HCIC_PREAMBLE_SIZE + hcic_const E HCIC_PARAM_SIZE_WRITE_PARAM1) 0
      [UINT16_TO_STREAM E (hci_opcode E HCI_BLE_RECEIVER_TEST),
       UINT8_TO_STREAM E (of_nat (hcic_const E HCIC_PARAM_SIZE_WRITE_PARAM1)),
       UINT8_TO_STREAM E rx_freq])"

definition btsnd_hcic_ble_transmitter_test ::
  "hci_hdrs \<Rightarrow> btu_ext \<Rightarrow> hci_ext \<Rightarrow> u8 \<Rightarrow> u8 \<Rightarrow> u8 \<Rightarrow> btu_state \<Rightarrow> btu_state option"
where
  "btsnd_hcic_ble_transmitter_test E B X tx_freq test_data_len payload =
     send_new E B X (hci_cmd E (hcic_const E HCIC_PREAMBLE_SIZE + hcic_const E HCIC_PARAM_SIZE_WRITE_PARAM3) 0
      [UINT16_TO_STREAM E (hci_opcode E HCI_BLE_TRANSMITTER_TEST),
       UINT8_TO_STREAM E (of_nat (hcic_const E HCIC_PARAM_SIZE_WRITE_PARAM3)),
       UINT8_TO_STREAM E tx_freq,
       UINT8_TO_STREAM E test_data_len,
       UINT8_TO_STREAM E payload])"

definition btsnd_hcic_ble_test_end ::
  "hci_hdrs \<Rightarrow> btu_ext \<Rightarrow> hci_ext \<Rightarrow> btu_state \<Rightarrow> btu_state option"
where
  "btsnd_hcic_ble_test_end E B X =
     send_new E B X (hci_cmd E (hcic_const E HCIC_PREAMBLE_SIZE + hcic_const E HCIC_PARAM_SIZE_READ_CMD) 0
      [UINT16_TO_STREAM E (hci_opcode E HCI_BLE_TEST_END),
       UINT8_TO_STREAM E (of_nat (hcic_const E HCIC_PARAM_SIZE_READ_CMD))])"

definition btsnd_hcic_ble_read_host_supported ::
  "hci_hdrs \<Rightarrow> btu_ext \<Rightarrow> hci_ext \<Rightarrow> btu_state \<Rightarrow> btu_state option"
where
  "btsnd_hcic_ble_read_host_supported E B X =
     send_new E B X (hci_cmd E (hcic_const E HCIC_PREAMBLE_SIZE + hcic_const E HCIC_PARAM_SIZE_READ_CMD) 0
      [UINT16_TO_STREAM E (hci_opcode E HCI_READ_LE_HOST_SUPPORT),
       UINT8_TO_STREAM E (of_nat (hcic_const E HCIC_PARAM_SIZE_READ_CMD))])"

definition btsnd_hcic_ble_rc_param_req_reply ::
  "hci_hdrs \<Rightarrow> btu_ext \<Rightarrow> hci_ext \<Rightarrow> u16 \<Rightarrow> u16 \<Rightarrow> u16 \<Rightarrow> u16 \<Rightarrow> u16 \<Rightarrow> u16 \<Rightarrow> u16 \<Rightarrow> btu_state \<Rightarrow> btu_state option"
where
  "btsnd_hcic_ble_rc_param_req_reply E B X handle conn_int_min conn_int_max conn_latency conn_timeout
      min_ce_len max_ce_len =
     send_new E B X (hci_cmd E (hcic_const E HCIC_PREAMBLE_SIZE + hcic_const E HCIC_PARAM_SIZE_BLE_RC_PARAM_REQ_REPLY) 0
      [UINT16_TO_STREAM E (hci_opcode E HCI_BLE_RC_PARAM_REQ_REPLY),
       UINT8_TO_STREAM E (of_nat (hcic_const E HCIC_PARAM_SIZE_BLE_RC_PARAM_REQ_REPLY)),
       UINT16_TO_STREAM E handle,
       UINT16_TO_STREAM E conn_int_min,
       UINT16_TO_STREAM E conn_int_max,
       UINT16_TO_STREAM E conn_latency,
       UINT16_TO_STREAM E conn_timeout,
       UINT16_TO_STREAM E min_ce_len,
       UINT16_TO_STREAM E max_ce_len])"

definition btsnd_hcic_ble_rc_param_req_neg_reply ::
  "hci_hdrs \<Rightarrow> btu_ext \<Rightarrow> hci_ext \<Rightarrow> u16 \<Rightarrow> u8 \<Rightarrow> btu_state \<Rightarrow> btu_state option"
where
  "btsnd_hcic_ble_rc_param_req_neg_reply E B X handle reason =
     send_new E B X (hci_cmd E (hcic_const E HCIC_PREAMBLE_SIZE + hcic_const E HCIC_PARAM_SIZE_BLE_RC_PARAM_REQ_NEG_REPLY) 0
      [UINT16_TO_STREAM E (hci_opcode E HCI_BLE_RC_PARAM_REQ_NEG_REPLY),
       UINT8_TO_STREAM E (of_nat (hcic_const E HCIC_PARAM_SIZE_BLE_RC_PARAM_REQ_NEG_REPLY)),
       UINT16_TO_STREAM E handle,
       UINT8_TO_STREAM E reason])"

definition btsnd_hcic_ble_add_device_resolving_list ::
  "hci_hdrs \<Rightarrow> btu_ext \<Rightarrow> hci_ext \<Rightarrow> u8 \<Rightarrow> raw_address \<Rightarrow> bytes \<Rightarrow> bytes \<Rightarrow> btu_state \<Rightarrow> btu_state option"
where
  "btsnd_hcic_ble_add_device_resolving_list E B X addr_type_peer bda_peer irk_peer irk_local =
     send_new E B X (hci_cmd E (hcic_const E HCIC_PREAMBLE_SIZE + hcic_const E HCIC_PARAM_SIZE_BLE_ADD_DEV_RESOLVING_LIST) 0
      [UINT16_TO_STREAM E (hci_opcode E HCI_BLE_ADD_DEV_RESOLVING_LIST),
       UINT8_TO_STREAM E (of_nat (hcic_const E HCIC_PARAM_SIZE_BLE_ADD_DEV_RESOLVING_LIST)),
       UINT8_TO_STREAM E addr_type_peer,
       BDADDR_TO_STREAM E bda_peer,
       ARRAY_TO_STREAM E irk_peer (hcic_const E HCIC_BLE_ENCRYT_KEY_SIZE),
       ARRAY_TO_STREAM E irk_local (hcic_const E HCIC_BLE_ENCRYT_KEY_SIZE)])"

definition btsnd_hcic_ble_rm_device_resolving_list ::
  "hci_hdrs \<Rightarrow> btu_ext \<Rightarrow> hci_ext \<Rightarrow> u8 \<Rightarrow> raw_address \<Rightarrow> btu_state \<Rightarrow> btu_state option"
where
  "btsnd_hcic_ble_rm_device_resolving_list E B X addr_type_peer bda_peer =
     send_new E B X (hci_cmd E (hcic_const E HCIC_PREAMBLE_SIZE + hcic_const E HCIC_PARAM_SIZE_BLE_RM_DEV_RESOLVING_LIST) 0
      [UINT16_TO_STREAM E (hci_opcode E HCI_BLE_RM_DEV_RESOLVING_LIST),
       UINT8_TO_STREAM E (of_nat (hcic_const E HCIC_PARAM_SIZE_BLE_RM_DEV_RESOLVING_LIST)),
       UINT8_TO_STREAM E addr_type_peer,
       BDADDR_TO_STREAM E bda_peer])"

definition btsnd_hcic_ble_set_privacy_mode ::
  "hci_hdrs \<Rightarrow> btu_ext \<Rightarrow> hci_ext \<Rightarrow> u8 \<Rightarrow> raw_address \<Rightarrow> u8 \<Rightarrow> btu_state \<Rightarrow> btu_state option"
where
  "btsnd_hcic_ble_set_privacy_mode E B X addr_type_peer bda_peer privacy_type =
     send_new E B X (hci_cmd E (hcic_const E HCIC_PREAMBLE_SIZE + hcic_const E HCIC_PARAM_SIZE_BLE_SET_PRIVACY_MODE) 0
      [UINT16_TO_STREAM E (hci_opcode E HCI_BLE_SET_PRIVACY_MODE),
       UINT8_TO_STREAM E (of_nat (hcic_const E HCIC_PARAM_SIZE_BLE_SET_PRIVACY_MODE)),
       UINT8_TO_STREAM E addr_type_peer,
       BDADDR_TO_STREAM E bda_peer,
       UINT8_TO_STREAM E privacy_type])"

definition btsnd_hcic_ble_clear_resolving_list ::
  "hci_hdrs \<Rightarrow> btu_ext \<Rightarrow> hci_ext \<Rightarrow> btu_state \<Rightarrow> btu_state option"
where
  "btsnd_hcic_ble_clear_resolving_list E B X =
     send_new E B X (hci_cmd E (hcic_const E HCIC_PREAMBLE_SIZE + hcic_const E HCIC_PARAM_SIZE_BLE_CLEAR_RESOLVING_LIST) 0
      [UINT16_TO_STREAM E (hci_opcode E HCI_BLE_CLEAR_RESOLVING_LIST),
       UINT8_TO_STREAM E (of_nat (hcic_const E HCIC_PARAM_SIZE_BLE_CLEAR_RESOLVING_LIST))])"

definition btsnd_hcic_ble_read_resolvable_addr_peer ::
  "hci_hdrs \<Rightarrow> btu_ext \<Rightarrow> hci_ext \<Rightarrow> u8 \<Rightarrow> raw_address \<Rightarrow> btu_state \<Rightarrow> btu_state option"
where
  "btsnd_hcic_ble_read_resolvable_addr_peer E B X addr_type_peer bda_peer =
     send_new E B X (hci_cmd E (hcic_const E HCIC_PREAMBLE_SIZE + hcic_const E HCIC_PARAM_SIZE_BLE_READ_RESOLVABLE_ADDR_PEER) 0
      [UINT16_TO_STREAM E (hci_opcode E HCI_BLE_READ_RESOLVABLE_ADDR_PEER),
       UINT8_TO_STREAM E (of_nat (hcic_const E HCIC_PARAM_SIZE_BLE_READ_RESOLVABLE_ADDR_PEER)),
       UINT8_TO_STREAM E addr_type_peer,
       BDADDR_TO_STREAM E bda_peer])"

definition btsnd_hcic_ble_read_resolvable_addr_local ::
  "hci_hdrs \<Rightarrow> btu_ext \<Rightarrow> hci_ext \<Rightarrow> u8 \<Rightarrow> raw_address \<Rightarrow> btu_state \<Rightarrow> btu_state option"
where
  "btsnd_hcic_ble_read_resolvable_addr_local E B X addr_type_peer bda_peer =
     send_new E B X (hci_cmd E (hcic_const E HCIC_PREAMBLE_SIZE + hcic_const E HCIC_PARAM_SIZE_BLE_READ_RESOLVABLE_ADDR_LOCAL) 0
      [UINT16_TO_STREAM E (hci_opcode E HCI_BLE_READ_RESOLVABLE_ADDR_LOCAL),
       UINT8_TO_STREAM E (of_nat (hcic_const E HCIC_PARAM_SIZE_BLE_READ_RESOLVABLE_ADDR_LOCAL)),
       UINT8_TO_STREAM E addr_type_peer,
       BDADDR_TO_STREAM E bda_peer])"

definition btsnd_hcic_ble_set_addr_resolution_enable ::
  "hci_hdrs \<Rightarrow> btu_ext \<Rightarrow> hci_ext \<Rightarrow> u8 \<Rightarrow> btu_state \<Rightarrow> btu_state option"
where
  "btsnd_hcic_ble_set_addr_resolution_enable E B X addr_resolution_enable =
     send_new E B X (hci_cmd E (hcic_const E HCIC_PREAMBLE_SIZE + hcic_const E HCIC_PARAM_SIZE_BLE_SET_ADDR_RESOLUTION_ENABLE) 0
      [UINT16_TO_STREAM E (hci_opcode E HCI_BLE_SET_ADDR_RESOLUTION_ENABLE),
       UINT8_TO_STREAM E (of_nat (hcic_const E HCIC_PARAM_SIZE_BLE_SET_ADDR_RESOLUTION_ENABLE)),
       UINT8_TO_STREAM E addr_resolution_enable])"

definition btsnd_hcic_ble_set_rand_priv_addr_timeout ::
  "hci_hdrs \<Rightarrow> btu_ext \<Rightarrow> hci_ext \<Rightarrow> u16 \<Rightarrow> btu_state \<Rightarrow> btu_state option"
where
  "btsnd_hcic_ble_set_rand_priv_addr_timeout E B X rpa_timout =
     send_new E B X (hci_cmd E (hcic_const E HCIC_PREAMBLE_SIZE + hcic_const E HCIC_PARAM_SIZE_BLE_SET_RAND_PRIV_ADDR_TIMOUT) 0
      [UINT16_TO_STREAM E (hci_opcode E HCI_BLE_SET_RAND_PRIV_ADDR_TIMOUT),
       UINT8_TO_STREAM E (of_nat (hcic_const E HCIC_PARAM_SIZE_BLE_SET_RAND_PRIV_ADDR_TIMOUT)),
       UINT16_TO_STREAM E rpa_timout])"

definition btsnd_hcic_ble_set_data_length ::
  "hci_hdrs \<Rightarrow> btu_ext \<Rightarrow> hci_ext \<Rightarrow> u16 \<Rightarrow> u16 \<Rightarrow> u16 \<Rightarrow> btu_state \<Rightarrow> btu_state option"
where
  "btsnd_hcic_ble_set_data_length E B X conn_handle tx_octets tx_time =
     send_new E B X (hci_cmd E (hcic_const E HCIC_PREAMBLE_SIZE + hcic_const E HCIC_PARAM_SIZE_BLE_SET_DATA_LENGTH) 0
      [UINT16_TO_STREAM E (hci_opcode E HCI_BLE_SET_DATA_LENGTH),
       UINT8_TO_STREAM E (of_nat (hcic_const E HCIC_PARAM_SIZE_BLE_SET_DATA_LENGTH)),
       UINT16_TO_STREAM E conn_handle,
       UINT16_TO_STREAM E tx_octets,
       UINT16_TO_STREAM E tx_time])"

definition btsnd_hcic_ble_enh_rx_test ::
  "hci_hdrs \<Rightarrow> btu_ext \<Rightarrow> hci_ext \<Rightarrow> u8 \<Rightarrow> u8 \<Rightarrow> u8 \<Rightarrow> btu_state \<Rightarrow> btu_state option"
where
  "btsnd_hcic_ble_enh_rx_test E B X rx_chan phy mod_index =
     send_new E B X (hci_cmd E (hcic_const E HCIC_PREAMBLE_SIZE + hcic_const E HCIC_PARAM_SIZE_BLE_ENH_RX_TEST) 0
      [UINT16_TO_STREAM E (hci_opcode E HCI_BLE_ENH_RECEIVER_TEST),
       UINT8_TO_STREAM E (of_nat (hcic_const E HCIC_PARAM_SIZE_BLE_ENH_RX_TEST)),
       UINT8_TO_STREAM E rx_chan,
       UINT8_TO_STREAM E phy,
       UINT8_TO_STREAM E mod_index])"

definition btsnd_hcic_ble_enh_tx_test ::
  "hci_hdrs \<Rightarrow> btu_ext \<Rightarrow> hci_ext \<Rightarrow> u8 \<Rightarrow> u8 \<Rightarrow> u8 \<Rightarrow> u8 \<Rightarrow> btu_state \<Rightarrow> btu_state option"
where
  "btsnd_hcic_ble_enh_tx_test E B X tx_chan data_len payload phy =
     send_new E B X (hci_cmd E (hcic_const E HCIC_PREAMBLE_SIZE + hcic_const E HCIC_PARAM_SIZE_BLE_ENH_TX_TEST) 0
      [UINT16_TO_STREAM E (hci_opcode E HCI_BLE_ENH_TRANSMITTER_TEST),
       UINT8_TO_STREAM E (of_nat (hcic_const E HCIC_PARAM_SIZE_BLE_ENH_TX_TEST)),
       UINT8_TO_STREAM E tx_chan,
       UINT8_TO_STREAM E data_len,
       UINT8_TO_STREAM E payload,
       UINT8_TO_STREAM E phy])"

record scanning_phy_cfg =
  phy_scan_type :: u8
  phy_scan_int :: u16
  phy_scan_win :: u16

definition btsnd_hcic_ble_set_extended_scan_params ::
  "hci_hdrs \<Rightarrow> btu_ext \<Rightarrow> hci_ext \<Rightarrow> u8 \<Rightarrow> u8 \<Rightarrow> u8 \<Rightarrow> scanning_phy_cfg list \<Rightarrow> btu_state \<Rightarrow> btu_state option"
where
  "btsnd_hcic_ble_set_extended_scan_params E B X own_address_type scanning_filter_policy scanning_phys phy_cfg =
     (let phy_cnt = bitset_count scanning_phys;
          param_len = of_nat (3 + 5 * phy_cnt) :: u16
      in send_new E B X (if length phy_cfg < phy_cnt then None
        else hci_cmd E (hcic_const E HCIC_PREAMBLE_SIZE + unat param_len) 0
          ([UINT16_TO_STREAM E (hci_opcode E HCI_LE_SET_EXTENDED_SCAN_PARAMETERS),
            UINT8_TO_STREAM E (ucast param_len),
            UINT8_TO_STREAM E own_address_type,
            UINT8_TO_STREAM E scanning_filter_policy,
            UINT8_TO_STREAM E scanning_phys] @
           concat (map (\<lambda>c. [UINT8_TO_STREAM E (phy_scan_type c),
             UINT16_TO_STREAM E (phy_scan_int c),
             UINT16_TO_STREAM E (phy_scan_win c)]) (take phy_cnt phy_cfg)))))"

definition btsnd_hcic_ble_set_extended_scan_enable ::
  "hci_hdrs \<Rightarrow> btu_ext \<Rightarrow> hci_ext \<Rightarrow> u8 \<Rightarrow> u8 \<Rightarrow> u16 \<Rightarrow> u16 \<Rightarrow> btu_state \<Rightarrow> btu_state option"
where
  "btsnd_hcic_ble_set_extended_scan_enable E B X enable filter_duplicates duration period =
     send_new E B X (hci_cmd E (hcic_const E HCIC_PREAMBLE_SIZE + 6) 0
      [UINT16_TO_STREAM E (hci_opcode E HCI_LE_SET_EXTENDED_SCAN_ENABLE),
       UINT8_TO_STREAM E 6,
       UINT8_TO_STREAM E enable,
       UINT8_TO_STREAM E filter_duplicates,
       UINT16_TO_STREAM E duration,
       UINT16_TO_STREAM E period])"

record ext_conn_phy_cfg =
  ext_scan_int :: u16
  ext_scan_win :: u16
  ext_conn_int_min :: u16
  ext_conn_int_max :: u16
  ext_conn_latency :: u16
  ext_sup_timeout :: u16
  ext_min_ce_len :: u16
  ext_max_ce_len :: u16

definition btsnd_hcic_ble_ext_create_conn ::
  "hci_hdrs \<Rightarrow> btu_ext \<Rightarrow> hci_ext \<Rightarrow> u8 \<Rightarrow> u8 \<Rightarrow> u8 \<Rightarrow> raw_address \<Rightarrow> u8 \<Rightarrow> ext_conn_phy_cfg list \<Rightarrow> btu_state \<Rightarrow>
    btu_state option"
where
  "btsnd_hcic_ble_ext_create_conn E B X init_filter_policy addr_type_own addr_type_peer bda_peer
      initiating_phys phy_cfg =
     (let phy_cnt = bitset_count initiating_phys;
          param_len = of_nat (10 + 16 * phy_cnt) :: u8
      in send_new E B X (if length phy_cfg < phy_cnt then None
        else hci_cmd E (hcic_const E HCIC_PREAMBLE_SIZE + unat param_len) 0
          ([UINT16_TO_STREAM E (hci_opcode E HCI_LE_EXTENDED_CREATE_CONNECTION),
            UINT8_TO_STREAM E param_len,
            UINT8_TO_STREAM E init_filter_policy,
            UINT8_TO_STREAM E addr_type_own,
            UINT8_TO_STREAM E addr_type_peer,
            BDADDR_TO_STREAM E bda_peer,
            UINT8_TO_STREAM E initiating_phys] @
           concat (map (\<lambda>c. [UINT16_TO_STREAM E (ext_scan_int c),
             UINT16_TO_STREAM E (ext_scan_win c),
             UINT16_TO_STREAM E (ext_conn_int_min c),
             UINT16_TO_STREAM E (ext_conn_int_max c),
             UINT16_TO_STREAM E (ext_conn_latency c),
             UINT16_TO_STREAM E (ext_sup_timeout c),
             UINT16_TO_STREAM E (ext_min_ce_len c),
             UINT16_TO_STREAM E (ext_max_ce_len c)]) (take phy_cnt phy_cfg)))))"

end
