(* ===== verification/Hci_Ble_Spec.thy ===== *)
theory Hci_Ble_Spec
  imports Hci_Ble_Cmds
begin

text \<open>
  What an LE command is on the wire, after the Core Specification: the fields of each command in
  order, and a decoder that accepts exactly the packets whose declared length matches. Every writer
  of \<open>hciblecmds.cc\<close> is related to the opcode and the fields it stands for, and the packet that
  reaches the HCI layer decodes to them.
\<close>

section \<open>Fields\<close>

datatype field = U8 u8 | U16 u16 | ADDR raw_address | OCT bytes

datatype ftype = T8 | T16 | TADDR | TOCT nat

primrec enc_field :: "field \<Rightarrow> bytes" where
  "enc_field (U8 x) = [x]"
| "enc_field (U16 x) = put16 x"
| "enc_field (ADDR a) = rev a"
| "enc_field (OCT bs) = bs"

primrec typ_field :: "field \<Rightarrow> ftype" where
  "typ_field (U8 x) = T8"
| "typ_field (U16 x) = T16"
| "typ_field (ADDR a) = TADDR"
| "typ_field (OCT bs) = TOCT (length bs)"

primrec ok_field :: "field \<Rightarrow> bool" where
  "ok_field (U8 x) \<longleftrightarrow> True"
| "ok_field (U16 x) \<longleftrightarrow> True"
| "ok_field (ADDR a) \<longleftrightarrow> length a = 6"
| "ok_field (OCT bs) \<longleftrightarrow> True"

primrec dec_field :: "ftype \<Rightarrow> bytes \<Rightarrow> (field \<times> bytes) option" where
  "dec_field T8 bs = map_option (\<lambda>x. (U8 x, drop 1 bs)) (get8 bs 0)"
| "dec_field T16 bs = map_option (\<lambda>x. (U16 x, drop 2 bs)) (get16 bs 0)"
| "dec_field TADDR bs = (if 6 \<le> length bs then Some (ADDR (rev (take 6 bs)), drop 6 bs) else None)"
| "dec_field (TOCT n) bs = (if n \<le> length bs then Some (OCT (take n bs), drop n bs) else None)"

fun dec_list :: "('t \<Rightarrow> bytes \<Rightarrow> ('f \<times> bytes) option) \<Rightarrow> 't list \<Rightarrow> bytes \<Rightarrow> ('f list \<times> bytes) option" where
  "dec_list dec [] bs = Some ([], bs)"
| "dec_list dec (t # ts) bs = do {
     (f, rest) \<leftarrow> dec t bs;
     (fs, rest') \<leftarrow> dec_list dec ts rest;
     Some (f # fs, rest')
   }"

text \<open>The interface of a field codec: what was encoded decodes, and the rest of the bytes is left.\<close>

locale field_codec =
  fixes enc :: "'f \<Rightarrow> bytes" and dec :: "'t \<Rightarrow> bytes \<Rightarrow> ('f \<times> bytes) option" and kind :: "'f \<Rightarrow> 't" and ok :: "'f \<Rightarrow> bool"
  assumes dec_enc: "ok f \<Longrightarrow> dec (kind f) (enc f @ rest) = Some (f, rest)"
begin

lemma dec_list_enc:
  "\<forall>f\<in>set fs. ok f \<Longrightarrow> dec_list dec (map kind fs) (concat (map enc fs) @ rest) = Some (fs, rest)"
  by (induction fs) (simp_all add: dec_enc)

lemma enc_unique:
  assumes "\<forall>f\<in>set fs. ok f" "\<forall>g\<in>set gs. ok g" "map kind fs = map kind gs" "concat (map enc fs) = concat (map enc gs)"
  shows "fs = gs"
  using dec_list_enc [OF assms(1), of "[]"] dec_list_enc [OF assms(2), of "[]"] assms(3,4) by simp

end

interpretation hci_field: field_codec enc_field dec_field typ_field ok_field
proof
  fix f rest assume "ok_field f"
  then show "dec_field (typ_field f) (enc_field f @ rest) = Some (f, rest)"
    using get8_at [of "[]"] get16_put16 [of "[]"] by (cases f) simp_all
qed

section \<open>Commands\<close>

text \<open>
  The parameters of each command. The two commands for several PHYs repeat a group of fields for
  every bit that is set in the PHY byte, the last field of the fixed part.
\<close>

primrec core_fields :: "hci_op \<Rightarrow> ftype list \<times> ftype list" where
  "core_fields HCI_BLE_WRITE_LOCAL_SPT_FEAT = ([TOCT 8], [])"
| "core_fields HCI_BLE_WRITE_RANDOM_ADDR = ([TADDR], [])"
| "core_fields HCI_BLE_WRITE_ADV_PARAMS = ([T16, T16, T8, T8, T8, TADDR, T8, T8], [])"
| "core_fields HCI_BLE_READ_ADV_CHNL_TX_POWER = ([], [])"
| "core_fields HCI_BLE_WRITE_ADV_DATA = ([T8, TOCT 31], [])"
| "core_fields HCI_BLE_WRITE_SCAN_RSP_DATA = ([T8, TOCT 31], [])"
| "core_fields HCI_BLE_WRITE_ADV_ENABLE = ([T8], [])"
| "core_fields HCI_BLE_WRITE_SCAN_PARAMS = ([T8, T16, T16, T8, T8], [])"
| "core_fields HCI_BLE_WRITE_SCAN_ENABLE = ([T8, T8], [])"
| "core_fields HCI_BLE_CREATE_LL_CONN = ([T16, T16, T8, T8, TADDR, T8, T16, T16, T16, T16, T16, T16], [])"
| "core_fields HCI_BLE_CREATE_CONN_CANCEL = ([], [])"
| "core_fields HCI_BLE_CLEAR_WHITE_LIST = ([], [])"
| "core_fields HCI_BLE_ADD_WHITE_LIST = ([T8, TADDR], [])"
| "core_fields HCI_BLE_REMOVE_WHITE_LIST = ([T8, TADDR], [])"
| "core_fields HCI_BLE_UPD_LL_CONN_PARAMS = ([T16, T16, T16, T16, T16, T16, T16], [])"
| "core_fields HCI_BLE_SET_HOST_CHNL_CLASS = ([TOCT 5], [])"
| "core_fields HCI_BLE_READ_CHNL_MAP = ([T16], [])"
| "core_fields HCI_BLE_READ_REMOTE_FEAT = ([T16], [])"
| "core_fields HCI_BLE_ENCRYPT = ([TOCT 16, TOCT 16], [])"
| "core_fields HCI_BLE_RAND = ([], [])"
| "core_fields HCI_BLE_START_ENC = ([T16, TOCT 8, T16, TOCT 16], [])"
| "core_fields HCI_BLE_LTK_REQ_REPLY = ([T16, TOCT 16], [])"
| "core_fields HCI_BLE_LTK_REQ_NEG_REPLY = ([T16], [])"
| "core_fields HCI_BLE_RECEIVER_TEST = ([T8], [])"
| "core_fields HCI_BLE_TRANSMITTER_TEST = ([T8, T8, T8], [])"
| "core_fields HCI_BLE_TEST_END = ([], [])"
| "core_fields HCI_READ_LE_HOST_SUPPORT = ([], [])"
| "core_fields HCI_BLE_RC_PARAM_REQ_REPLY = ([T16, T16, T16, T16, T16, T16, T16], [])"
| "core_fields HCI_BLE_RC_PARAM_REQ_NEG_REPLY = ([T16, T8], [])"
| "core_fields HCI_BLE_ADD_DEV_RESOLVING_LIST = ([T8, TADDR, TOCT 16, TOCT 16], [])"
| "core_fields HCI_BLE_RM_DEV_RESOLVING_LIST = ([T8, TADDR], [])"
| "core_fields HCI_BLE_SET_PRIVACY_MODE = ([T8, TADDR, T8], [])"
| "core_fields HCI_BLE_CLEAR_RESOLVING_LIST = ([], [])"
| "core_fields HCI_BLE_READ_RESOLVABLE_ADDR_PEER = ([T8, TADDR], [])"
| "core_fields HCI_BLE_READ_RESOLVABLE_ADDR_LOCAL = ([T8, TADDR], [])"
| "core_fields HCI_BLE_SET_ADDR_RESOLUTION_ENABLE = ([T8], [])"
| "core_fields HCI_BLE_SET_RAND_PRIV_ADDR_TIMOUT = ([T16], [])"
| "core_fields HCI_BLE_SET_DATA_LENGTH = ([T16, T16, T16], [])"
| "core_fields HCI_BLE_ENH_RECEIVER_TEST = ([T8, T8, T8], [])"
| "core_fields HCI_BLE_ENH_TRANSMITTER_TEST = ([T8, T8, T8, T8], [])"
| "core_fields HCI_LE_SET_EXTENDED_SCAN_PARAMETERS = ([T8, T8, T8], [T8, T16, T16])"
| "core_fields HCI_LE_SET_EXTENDED_SCAN_ENABLE = ([T8, T8, T16, T16], [])"
| "core_fields HCI_LE_EXTENDED_CREATE_CONNECTION =
     ([T8, T8, T8, TADDR, T8], [T16, T16, T16, T16, T16, T16, T16, T16])"

definition phys_of :: "field list \<Rightarrow> nat" where
  "phys_of fs = (case fs of [] \<Rightarrow> 0 | _ \<Rightarrow> (case last fs of U8 w \<Rightarrow> bitset_count w | _ \<Rightarrow> 0))"

definition decode_params :: "hci_op \<Rightarrow> bytes \<Rightarrow> field list option" where
  "decode_params op bs = (case core_fields op of (pre, grp) \<Rightarrow> do {
     (fs, rest) \<leftarrow> dec_list dec_field pre bs;
     (gs, rest') \<leftarrow> dec_list dec_field (if grp = [] then [] else concat (replicate (phys_of fs) grp)) rest;
     if rest' = [] then Some (fs @ gs) else None
   })"

text \<open>A whole command: opcode, a length byte that says how many bytes follow, and the parameters.\<close>

definition decode_cmd :: "hci_op \<Rightarrow> bytes \<Rightarrow> field list option" where
  "decode_cmd op bs =
     (if 3 \<le> length bs \<and> take 2 bs = put16 (core_opcode op) \<and> unat (bs ! 2) = length bs - 3
      then decode_params op (drop 3 bs) else None)"

definition enc_cmd :: "hci_op \<Rightarrow> field list \<Rightarrow> bytes" where
  "enc_cmd op fs = put16 (core_opcode op) @ of_nat (length (concat (map enc_field fs))) # concat (map enc_field fs)"

text \<open>The fields fit the command.\<close>

definition fits :: "hci_op \<Rightarrow> field list \<Rightarrow> bool" where
  "fits op fs \<longleftrightarrow> (\<forall>f\<in>set fs. ok_field f) \<and> length (concat (map enc_field fs)) \<le> 255 \<and>
     (case core_fields op of (pre, grp) \<Rightarrow>
        (\<exists>as bs. fs = as @ bs \<and> map typ_field as = pre \<and>
           map typ_field bs = (if grp = [] then [] else concat (replicate (phys_of as) grp))))"

lemma decode_enc_cmd:
  assumes "fits op fs"
  shows "decode_cmd op (enc_cmd op fs) = Some fs"
proof -
  obtain pre grp where g: "core_fields op = (pre, grp)" by (cases "core_fields op")
  obtain as bs where fs: "fs = as @ bs" "map typ_field as = pre"
    "map typ_field bs = (if grp = [] then [] else concat (replicate (phys_of as) grp))"
    "\<forall>f\<in>set as. ok_field f" "\<forall>f\<in>set bs. ok_field f" "length (concat (map enc_field fs)) \<le> 255"
    using assms by (auto simp: fits_def g)
  have a: "dec_list dec_field pre (concat (map enc_field fs)) = Some (as, concat (map enc_field bs))"
    using hci_field.dec_list_enc [OF fs(4)] by (simp add: fs(1,2))
  have b: "dec_list dec_field (if grp = [] then [] else concat (replicate (phys_of as) grp)) (concat (map enc_field bs)) = Some (bs, [])"
    using hci_field.dec_list_enc [OF fs(5), of "[]"] fs(3) by simp
  have "decode_params op (concat (map enc_field fs)) = Some fs"
    using a b by (simp add: decode_params_def g fs(1))
  moreover have "unat (of_nat (length (concat (map enc_field fs))) :: u8) = length (concat (map enc_field fs))"
    using fs(6) by (simp add: unat_of_nat take_bit_nat_eq_self)
  ultimately show ?thesis by (simp add: decode_cmd_def enc_cmd_def put16_def nth_append)
qed

section \<open>Sending a packet\<close>

lemma transmit_bufs:
  assumes "accepting X" "transmit_command E X p cc sc ctx S = Some T" "bufs S p = Some b"
  shows "bufs T p = Some (b\<lparr>bt_event := Some (hci_word E MSG_STACK_TO_HC_HCI_CMD)\<rparr>)"
  using assms by (auto simp: transmit_command_def set_cmd_event_def enqueue_command_def new_wait_def accepting_def Let_def
      fault_simps hci_simps split: if_splits)

text \<open>
  The packet \<open>b\<close> reached the HCI layer: it is in the store under the next free pointer, marked as a
  command, and last in the line of commands; the invariant holds.
\<close>

definition sent :: "hci_hdrs \<Rightarrow> bt_hdr \<Rightarrow> btu_state \<Rightarrow> btu_state \<Rightarrow> bool" where
  "sent E b S T \<longleftrightarrow> hinv E (hci T) \<and>
     bufs (hci T) (next_ptr (hci S)) = Some (b\<lparr>bt_event := Some (hci_word E MSG_STACK_TO_HC_HCI_CMD)\<rparr>) \<and>
     released (hci T) @ line_pkts (hci T) = released (hci S) @ line_pkts (hci S) @ [next_ptr (hci S)]"

lemma transmit_sent:
  assumes E: "hdrs_ok E" and X: "accepting X" and inv: "hinv E H" and p: "p \<notin> cmds H" "bufs H p = Some b" and b: "head_readable b"
  shows "ensures (\<lambda>T. hinv E T \<and> bufs T p = Some (b\<lparr>bt_event := Some (hci_word E MSG_STACK_TO_HC_HCI_CMD)\<rparr>) \<and>
      released T @ line_pkts T = released H @ line_pkts H @ [p]) (transmit_command E X p cc sc ctx H)"
proof -
  have s: "sendable H p" using p b by (simp add: sendable_def)
  show ?thesis
  proof (rule ensures_mono [OF transmit_command_ok [OF inv s]])
    fix T assume T: "transmit_command E X p cc sc ctx H = Some T" "hinv E T"
    show "hinv E T \<and> bufs T p = Some (b\<lparr>bt_event := Some (hci_word E MSG_STACK_TO_HC_HCI_CMD)\<rparr>) \<and>
      released T @ line_pkts T = released H @ line_pkts H @ [p]"
      using exec_order [OF E X inv, of "Call_transmit p cc sc ctx" T] transmit_bufs [OF X T(1) p(2)] T s by simp
  qed
qed

lemma owns_next:
  assumes own: "owns E S K" and n: "next_ptr S \<le> n"
  shows "owns E (S\<lparr>next_ptr := n\<rparr>) K"
proof -
  have c: "cmd_ptr (S\<lparr>next_ptr := n\<rparr>) = cmd_ptr S" by (rule cmd_ptr_cong) simp
  have "\<forall>v\<in>dom (waits S). v < n" "\<forall>q\<in>dom (bufs S). q < n"
    using owns_bound [OF own] n by (blast intro: less_le_trans)+
  then show ?thesis using own unfolding owns_def c by simp
qed

lemma new_buf_frame:
  assumes "hinv E H" "H' = H\<lparr>bufs := (bufs H)(next_ptr H \<mapsto> b), next_ptr := n\<rparr>" "next_ptr H < n"
  shows "hinv E H'" "next_ptr H \<notin> cmds H'" "bufs H' (next_ptr H) = Some b"
    "released H' = released H" "line_pkts H' = line_pkts H"
proof -
  have "hinv E (H\<lparr>bufs := (bufs H)(next_ptr H \<mapsto> b), next_ptr := next_ptr H + 1\<rparr>)" (is "hinv E ?H1")
    by (rule hinv_new_buf(1) [OF assms(1)])
  moreover have "owns E H' K" if "owns E ?H1 K" for K
    using owns_next [OF that, of n] assms(3) by (simp add: assms(2))
  ultimately show "hinv E H'" by (simp add: hinv_def timer_ok_def credit_ok_def line_defs assms(2))
  have c: "cmds H' = cmds H" by (simp add: assms(2) cmds_def line_defs cmd_ptr_def)
  show "next_ptr H \<notin> cmds H'" using hinv_new_buf(2) [OF assms(1)] c by simp
qed (simp_all add: assms(2) released_def line_pkts_def cmd_line_def cmd_ptr_def)

lemma send_new_sent:
  assumes E: "hdrs_ok E" and X: "accepting X" and inv: "hinv E (hci S)" and b: "head_readable b"
    and op: "rd16 E b (unat (bt_offset b)) = Some opc"
    and vsc: "is_vendor E opc \<or> opc = hci_opcode E HCI_BLE_RAND \<or> opc = hci_opcode E HCI_BLE_ENCRYPT \<Longrightarrow> \<exists>v. rd_pointer b = Some v"
    and log: "\<exists>ms. btu_hcif_log_command_metrics E B opc b (unat (bt_offset b) + 3) (hci_word E STATUS_UNKNOWN) False = Some ms"
  shows "ensures (sent E b S) (send_new E B X (Some b) S)"
proof -
  define H where "H = (hci S)\<lparr>bufs := (bufs (hci S))(next_ptr (hci S) \<mapsto> b), next_ptr := Suc (next_ptr (hci S))\<rparr>"
  note nb = new_buf_frame [OF inv H_def lessI]
  obtain ms where ms: "btu_hcif_log_command_metrics E B opc b (unat (bt_offset b) + 3) (hci_word E STATUS_UNKNOWN) False = Some ms"
    using log by blast
  obtain v where v: "(if is_vendor E opc \<or> opc = hci_opcode E HCI_BLE_RAND \<or> opc = hci_opcode E HCI_BLE_ENCRYPT
             then rd_pointer b else Some None) = Some v"
    using vsc by (cases "is_vendor E opc \<or> opc = hci_opcode E HCI_BLE_RAND \<or> opc = hci_opcode E HCI_BLE_ENCRYPT") auto
  have "ensures (\<lambda>T. hinv E T \<and> bufs T (next_ptr (hci S)) = Some (b\<lparr>bt_event := Some (hci_word E MSG_STACK_TO_HC_HCI_CMD)\<rparr>) \<and>
      released T @ line_pkts T = released H @ line_pkts H @ [next_ptr (hci S)])
    (transmit_command E X (next_ptr (hci S)) (Some Btu_hcif_command_complete_evt) (Some Btu_hcif_command_status_evt) v H)"
    by (rule transmit_sent [OF E X nb(1-3) b])
  then show ?thesis
    using ms v op nb by (auto simp: send_new_def btu_hcif_send_cmd_def new_buf_def H_def [symmetric] sent_def ensures_def)
qed

section \<open>Plain commands\<close>

definition readable :: "bt_hdr \<Rightarrow> nat \<Rightarrow> bool" where
  "readable b n \<longleftrightarrow> (\<forall>i<n. rd8 b i \<noteq> None)"

lemma rd_bytes_readable: "readable b n \<Longrightarrow> pos + k \<le> n \<Longrightarrow> \<exists>bs. rd_bytes b pos k = Some bs"
proof (induction k arbitrary: pos)
  case (Suc k)
  have "pos < n" using Suc.prems by simp
  then obtain x where "rd8 b pos = Some x" using Suc.prems(1) by (auto simp: readable_def)
  moreover obtain bs where "rd_bytes b (pos + 1) k = Some bs" using Suc.IH [of "pos + 1"] Suc.prems by auto
  ultimately show ?case by simp
qed simp

lemma rd_bdaddr_readable: "readable b n \<Longrightarrow> pos + 6 \<le> n \<Longrightarrow> \<exists>a. rd_bdaddr E b pos = Some a"
  using rd_bytes_readable [of b n pos 6] by (auto simp: rd_bdaddr_def)

lemma rd8_readable: "readable b n \<Longrightarrow> pos < n \<Longrightarrow> \<exists>x. rd8 b pos = Some x"
  by (auto simp: readable_def)

text \<open>How far the metrics read into the parameters of an LE command.\<close>

definition log_need :: "hci_op \<Rightarrow> nat" where
  "log_need op = (if op = HCI_BLE_CREATE_LL_CONN then 12 else if op = HCI_LE_EXTENDED_CREATE_CONNECTION then 9
     else if op = HCI_BLE_ADD_WHITE_LIST \<or> op = HCI_BLE_REMOVE_WHITE_LIST then 7 else 0)"

lemma br_not_le:
  "core_opcode op \<noteq> core_br_opcode bop"
  by (cases op; cases bop) simp_all

lemma core_opcode_inject: "core_opcode op = core_opcode op' \<longleftrightarrow> op = op'"
  by (cases op; cases op') simp_all

lemma log_le_ok:
  assumes E: "hdrs_ok E" and r: "readable b (pos + log_need op)"
  shows "\<exists>ms. btu_hcif_log_command_metrics E B (core_opcode op) b pos st f = Some ms"
proof -
  have n: "(core_opcode op \<in> set (map (hci_br_opcode E) ops)) = False" for ops
    using br_not_le [of op] by (auto simp: hdrs_okD [OF E])
  note rd = rd8_readable [OF r] rd_bdaddr_readable [OF r, of _ E]
  have ll: "\<exists>ms. log_create_ll_conn E B c b pos ev cs f = Some ms" if "op = HCI_BLE_CREATE_LL_CONN" for c ev cs
    using rd(1) [of "pos + 4"] rd(1) [of "pos + 5"] rd(2) [of "pos + 6"] that
    by (auto simp: log_create_ll_conn_def log_need_def Let_def split: prod.split)
  have ext: "\<exists>ms. log_ext_create_conn E B c b pos ev cs f = Some ms" if "op = HCI_LE_EXTENDED_CREATE_CONNECTION" for c ev cs
    using rd(1) [of pos] rd(1) [of "pos + 2"] rd(2) [of "pos + 3"] that
    by (auto simp: log_ext_create_conn_def log_need_def Let_def split: prod.split)
  have wl: "\<exists>ms. log_white_list E B c b pos ev cs = Some ms" if "op = HCI_BLE_ADD_WHITE_LIST \<or> op = HCI_BLE_REMOVE_WHITE_LIST" for c ev cs
    using rd(1) [of pos] rd(2) [of "pos + 1"] that
    by (auto simp: log_white_list_def log_need_def Let_def split: prod.split)
  have le: "core_opcode op = hci_opcode E op' \<longleftrightarrow> op = op'" for op' by (simp add: hdrs_okD [OF E] core_opcode_inject)
  show ?thesis
    unfolding btu_hcif_log_command_metrics_def Let_def n if_False le
    using ll ext wl by (simp split: if_split)
qed

text \<open>The commands of this file are neither vendor commands nor do they keep a callback pointer.\<close>

lemma le_not_vendor: "hdrs_ok E \<Longrightarrow> \<not> is_vendor E (core_opcode op)"
  by (cases op) (simp_all add: is_vendor_def hdrs_okD)

lemma hci_cmd_eq:
  assumes E: "hdrs_ok E" and e: "emits ws bs" and len: "length bs = len" "len \<le> 262"
  shows "\<exists>k. hci_cmd E len 0 ws =
    Some \<lparr>bt_event = None, bt_len = of_nat len, bt_offset = 0, bt_data = map Some bs @ replicate k None\<rparr>"
proof -
  let ?n = "hcic_const E HCI_CMD_BUF_SIZE - 8"
  have "run_stream ws (replicate ?n None, 0) = Some (map Some bs @ replicate (?n - length bs) None, length bs)"
    using emits_run [OF e, of ?n "[]"] len hdrs_okD(13) [OF E] by simp
  then show ?thesis by (auto simp: hci_cmd_def hdrs_okD [OF E])
qed

text \<open>
  A writer that emits exactly the encoding of a command, with the matching length in its header,
  puts that packet in line.
\<close>

definition sends :: "hci_hdrs \<Rightarrow> hci_op \<Rightarrow> field list \<Rightarrow> btu_state \<Rightarrow> btu_state \<Rightarrow> bool" where
  "sends E op fs S T \<longleftrightarrow> fits op fs \<and> (\<exists>b. sent E b S T \<and> wire b = map Some (enc_cmd op fs))"

lemma readable_data: "bt_data b = map Some bs @ xs \<Longrightarrow> readable b (length bs)"
  by (simp add: readable_def rd8_def nth_append)

lemma enc_cmd_length [simp]: "length (enc_cmd op fs) = 3 + length (concat (map enc_field fs))"
  by (simp add: enc_cmd_def)

lemma unat_u16: "n < 65536 \<Longrightarrow> unat (of_nat n :: u16) = n"
  by (simp add: unat_of_nat take_bit_nat_eq_self)

lemma enc_packet:
  assumes E: "hdrs_ok E" and fit: "fits op fs"
    and b: "b = \<lparr>bt_event = None, bt_len = of_nat (length (enc_cmd op fs)), bt_offset = 0, bt_data = map Some (enc_cmd op fs) @ xs\<rparr>"
  shows "wire b = map Some (enc_cmd op fs)" "rd16 E b 0 = Some (core_opcode op)" "head_readable b" "readable b (length (enc_cmd op fs))"
proof -
  let ?n = "length (enc_cmd op fs)"
  have n: "?n \<le> 258" using fit unfolding enc_cmd_length by (simp add: fits_def)
  have u: "unat (of_nat ?n :: u16) = ?n" using n by (intro unat_u16) linarith
  show "wire b = map Some (enc_cmd op fs)" unfolding wire_def b by (simp only: bt_hdr.simps u) simp
  show "rd16 E b 0 = Some (core_opcode op)"
    by (simp add: b rd16_def rd8_def enc_cmd_def put16_def hdrs_okD [OF E] join16)
  show r: "readable b ?n" by (rule readable_data [where xs = xs]) (simp add: b)
  have "0 + (if bt_len b > 3 then 4 else 3) \<le> ?n"
  proof (cases "?n = 3")
    case True
    then show ?thesis unfolding b by (simp only: bt_hdr.simps True) simp
  next
    case False
    then have "4 \<le> ?n" unfolding enc_cmd_length by linarith
    then show ?thesis by (simp only: split: if_split) linarith
  qed
  from rd_bytes_readable [OF r this] show "head_readable b" by (auto simp: head_readable_def b)
qed

lemma plain_command:
  assumes E: "hdrs_ok E" and X: "accepting X" and inv: "hinv E (hci S)"
    and cs: "cs = enc_cmd op fs" and fit: "fits op fs" and len: "len = length cs"
    and op: "op \<noteq> HCI_BLE_RAND" "op \<noteq> HCI_BLE_ENCRYPT" and need: "log_need op \<le> length (concat (map enc_field fs))"
    and e: "emits ws cs"
  shows "ensures (sends E op fs S) (send_new E B X (hci_cmd E len 0 ws) S)"
proof -
  have "len \<le> 262" using fit unfolding len cs enc_cmd_length by (simp add: fits_def)
  then obtain k where k: "hci_cmd E len 0 ws =
    Some \<lparr>bt_event = None, bt_len = of_nat (length (enc_cmd op fs)), bt_offset = 0, bt_data = map Some (enc_cmd op fs) @ replicate k None\<rparr>"
      (is "_ = Some ?b") using hci_cmd_eq [OF E e len [symmetric]] cs len by auto
  note p = enc_packet [OF E fit refl, of "replicate k None"]
  have r: "readable ?b (3 + log_need op)" using p(4) need unfolding readable_def enc_cmd_length by auto
  have nv: "\<not> is_vendor E (core_opcode op)" "core_opcode op \<noteq> hci_opcode E HCI_BLE_RAND" "core_opcode op \<noteq> hci_opcode E HCI_BLE_ENCRYPT"
    using le_not_vendor [OF E] op by (simp_all only: hdrs_okD(1) [OF E] core_opcode_inject not_False_eq_True)
  have "ensures (sent E ?b S) (send_new E B X (Some ?b) S)"
    using log_le_ok [OF E r] p(2)
    by (intro send_new_sent [OF E X inv p(3), where opc = "core_opcode op"]) (use nv in \<open>simp_all only: bt_hdr.simps unat_0 add_0 simp_thms\<close>)
  then show ?thesis unfolding k sends_def by (rule ensures_mono) (use p(1) fit in blast)
qed

lemma fits_fixed:
  assumes "core_fields op = (map typ_field fs, [])" "\<forall>f\<in>set fs. ok_field f" "length (concat (map enc_field fs)) \<le> 255"
  shows "fits op fs"
  using assms by (auto simp: fits_def intro!: exI [of _ fs])

text \<open>
  The writer of a field, and the form every writer of the file has: opcode, length and the writers
  of its fields.
\<close>

primrec field_writer :: "hci_hdrs \<Rightarrow> field \<Rightarrow> stream \<Rightarrow> stream option" where
  "field_writer E (U8 x) = UINT8_TO_STREAM E x"
| "field_writer E (U16 x) = UINT16_TO_STREAM E x"
| "field_writer E (ADDR a) = BDADDR_TO_STREAM E a"
| "field_writer E (OCT bs) = ARRAY_TO_STREAM E bs (length bs)"

definition params_size :: "field list \<Rightarrow> nat" where
  "params_size fs = length (concat (map enc_field fs))"

lemma params_size_simps [simp]:
  "params_size [] = 0" "params_size (U8 x # fs) = 1 + params_size fs" "params_size (U16 y # fs) = 2 + params_size fs"
  "params_size (ADDR a # fs) = length a + params_size fs" "params_size (OCT bs # fs) = length bs + params_size fs"
  "params_size (fs @ gs) = params_size fs + params_size gs"
  by (simp_all add: params_size_def)

lemma emits_fields: "hdrs_ok E \<Longrightarrow> emits (map (field_writer E) fs) (concat (map enc_field fs))"
proof (induction fs)
  case (Cons f fs)
  then show ?case by (cases f) (simp_all add: emits_writers)
qed (simp add: emits_Nil)

lemma field_command:
  assumes E: "hdrs_ok E" and X: "accepting X" and inv: "hinv E (hci S)" and fit: "fits op fs"
    and op: "op \<noteq> HCI_BLE_RAND" "op \<noteq> HCI_BLE_ENCRYPT" and need: "log_need op \<le> params_size fs"
    and len: "len = 3 + params_size fs" "n = of_nat (params_size fs)" and ws: "ws = map (field_writer E) fs"
  shows "ensures (sends E op fs S)
    (send_new E B X (hci_cmd E len 0 (UINT16_TO_STREAM E (hci_opcode E op) # UINT8_TO_STREAM E n # ws)) S)"
proof (rule plain_command [OF E X inv _ fit _ op])
  show "emits (UINT16_TO_STREAM E (hci_opcode E op) # UINT8_TO_STREAM E n # ws) (enc_cmd op fs)"
    unfolding enc_cmd_def len(2) params_size_def ws hdrs_okD(1) [OF E]
    by (intro emits_writers [OF E] emits_fields [OF E])
qed (use len need in \<open>simp_all add: params_size_def\<close>)

lemma fixed_command:
  assumes "hdrs_ok E" "accepting X" "hinv E (hci S)"
    and "core_fields op = (map typ_field fs, [])" "\<forall>f\<in>set fs. ok_field f" "params_size fs \<le> 255"
    and "op \<noteq> HCI_BLE_RAND" "op \<noteq> HCI_BLE_ENCRYPT" "log_need op \<le> params_size fs"
    and "len = 3 + params_size fs" "n = of_nat (params_size fs)" "ws = map (field_writer E) fs"
  shows "ensures (sends E op fs S)
    (send_new E B X (hci_cmd E len 0 (UINT16_TO_STREAM E (hci_opcode E op) # UINT8_TO_STREAM E n # ws)) S)"
  using assms fits_fixed [OF assms(4,5)] by (intro field_command) (simp_all add: params_size_def)

section \<open>Commands with a callback\<close>

lemma poke_emit: "map_option fst (poke bs s) = map_option fst (emit bs s)"
  by (cases s) (simp add: emit_def)

lemma run_stream_snoc:
  "map_option fst (w s') = map_option fst (w' s') \<Longrightarrow> run_stream ws s = Some s' \<Longrightarrow>
   map_option fst (run_stream (ws @ [w]) s) = map_option fst (run_stream (ws @ [w']) s)"
proof (induction ws arbitrary: s)
  case Nil
  then show ?case by (cases "w s'"; cases "w' s'") auto
next
  case (Cons v ws)
  then show ?case by (cases "v s") auto
qed

lemma run_stream_append: "run_stream (ws @ vs) s = Option.bind (run_stream ws s) (run_stream vs)"
proof (induction ws arbitrary: s)
  case (Cons v ws)
  then show ?case by (cases "v s") simp_all
qed simp

lemma fst_option: "map_option fst r = Some d \<Longrightarrow> \<exists>q. r = Some (d, q)"
  by (cases r) auto

text \<open>The parameters are copied without moving the cursor, which is not used afterwards.\<close>

lemma with_cb_packet_eq:
  assumes E: "hdrs_ok E" and fit: "fits op fs" and n: "n = of_nat (params_size fs)"
    and ps: "case params of None \<Rightarrow> fs = [] | Some bs \<Rightarrow> bs = concat (map enc_field fs)"
  shows "\<exists>k. cmd_with_cb_packet E (core_opcode op) params n = Some \<lparr>bt_event = None,
    bt_len = of_nat (length (enc_cmd op fs)), bt_offset = 0, bt_data = map Some (enc_cmd op fs) @ replicate k None\<rparr>"
proof -
  let ?room = "hcic_const E HCI_CMD_BUF_SIZE - 8"
  let ?hd = "[UINT16_TO_STREAM E (core_opcode op), UINT8_TO_STREAM E n]"
  let ?bs = "concat (map enc_field fs)"
  let ?w = "\<lambda>s. if unat n \<le> length ?bs then poke (take (unat n) ?bs) s else None"
  have small: "length ?bs \<le> 255" using fit by (simp add: fits_def)
  have un: "unat n = length ?bs" using small n by (simp add: params_size_def unat_of_nat take_bit_nat_eq_self)
  have big: "3 + length ?bs \<le> ?room" using small hdrs_okD(13) [OF E] by linarith
  have hd: "emits ?hd (put16 (core_opcode op) @ [n])" using emits_writers(1,2) [OF E] emits_Nil by simp
  have n': "of_nat (length ?bs) = n" by (simp add: n params_size_def)
  have enc: "put16 (core_opcode op) @ n # ?bs = enc_cmd op fs" unfolding enc_cmd_def n' by simp
  have "emits (?hd @ [emit ?bs]) (enc_cmd op fs)"
    unfolding enc [symmetric] using emits_append [OF hd emits_Cons [OF refl emits_Nil, of ?bs]] by simp
  from emits_run [OF this, of ?room "[]"] big
  have all: "run_stream (?hd @ [emit ?bs]) (replicate ?room None, 0) =
      Some (map Some (enc_cmd op fs) @ replicate (?room - length (enc_cmd op fs)) None, length (enc_cmd op fs))"
    by (simp add: params_size_def)
  have front: "run_stream ?hd (replicate ?room None, 0) = Some (map Some (put16 (core_opcode op) @ [n]) @ replicate (?room - 3) None, 3)"
    using emits_run [OF hd, of ?room "[]"] big by simp
  have last: "\<exists>q. run_stream (?hd @ [?w]) (replicate ?room None, 0) =
      Some (map Some (enc_cmd op fs) @ replicate (?room - length (enc_cmd op fs)) None, q)"
  proof (rule fst_option)
    have "map_option fst (?w s) = map_option fst (emit ?bs s)" for s by (simp add: un poke_emit)
    from run_stream_snoc [where w = ?w and w' = "emit ?bs", OF this front]
    show "map_option fst (run_stream (?hd @ [?w]) (replicate ?room None, 0)) =
      Some (map Some (enc_cmd op fs) @ replicate (?room - length (enc_cmd op fs)) None)"
      unfolding all by simp
  qed
  have len: "hcic_const E HCIC_PREAMBLE_SIZE + unat n = length (enc_cmd op fs)"
    using un by (simp add: hdrs_okD [OF E])
  show ?thesis
  proof (cases params)
    case None
    have "put16 (core_opcode op) @ [n] = enc_cmd op fs" using enc ps None by simp
    then have "\<exists>q. run_stream ?hd (replicate ?room None, 0) =
      Some (map Some (enc_cmd op fs) @ replicate (?room - length (enc_cmd op fs)) None, q)"
      using front ps None by simp
    then show ?thesis using None unfolding cmd_with_cb_packet_def len by (auto simp: hci_cmd_def hdrs_okD [OF E])
  next
    case (Some bs)
    then have "bs = ?bs" using ps by simp
    then show ?thesis using last Some unfolding cmd_with_cb_packet_def len by (auto simp: hci_cmd_def hdrs_okD [OF E])
  qed
qed

lemma with_cb_command:
  assumes E: "hdrs_ok E" and X: "accepting X" and inv: "hinv E (hci S)" and fit: "fits op fs"
    and need: "log_need op \<le> params_size fs" and n: "n = of_nat (params_size fs)"
    and ps: "case params of None \<Rightarrow> fs = [] | Some bs \<Rightarrow> bs = concat (map enc_field fs)"
  shows "ensures (sends E op fs S) (btu_hcif_send_cmd_with_cb E B X (hci_opcode E op) params n cb S)"
proof -
  obtain k where k: "cmd_with_cb_packet E (core_opcode op) params n = Some \<lparr>bt_event = None,
    bt_len = of_nat (length (enc_cmd op fs)), bt_offset = 0, bt_data = map Some (enc_cmd op fs) @ replicate k None\<rparr>"
      (is "_ = Some ?b") using with_cb_packet_eq [OF E fit n ps] by blast
  note p = enc_packet [OF E fit refl, of "replicate k None"]
  have "readable ?b (3 + log_need op)" using p(4) need unfolding readable_def enc_cmd_length params_size_def by auto
  then obtain ms where ms: "btu_hcif_log_command_metrics E B (core_opcode op) ?b 3 (hci_word E STATUS_UNKNOWN) False = Some ms"
    using log_le_ok [OF E] by blast
  define H where "H = (hci S)\<lparr>bufs := (bufs (hci S))(next_ptr (hci S) \<mapsto> ?b), next_ptr := Suc (Suc (next_ptr (hci S)))\<rparr>"
  have lt: "next_ptr (hci S) < Suc (Suc (next_ptr (hci S)))" by simp
  note nb = new_buf_frame [OF inv H_def lt]
  have "ensures (\<lambda>T. hinv E T \<and> bufs T (next_ptr (hci S)) = Some (?b\<lparr>bt_event := Some (hci_word E MSG_STACK_TO_HC_HCI_CMD)\<rparr>) \<and>
      released T @ line_pkts T = released H @ line_pkts H @ [next_ptr (hci S)])
    (transmit_command E X (next_ptr (hci S)) (Some Btu_hcif_command_complete_evt_with_cb)
       (Some Btu_hcif_command_status_evt_with_cb) (Some (Suc (next_ptr (hci S)))) H)"
    by (rule transmit_sent [OF E X nb(1-3) p(3)])
  then have "ensures (sent E ?b S) (btu_hcif_send_cmd_with_cb E B X (hci_opcode E op) params n cb S)"
    unfolding btu_hcif_send_cmd_with_cb_def hdrs_okD(1) [OF E] k
    using ms nb by (auto simp: cmd_with_cb_data_init_def new_buf_def H_def [symmetric] sent_def ensures_def simp del: enc_cmd_length)
  then show ?thesis unfolding sends_def by (rule ensures_mono) (use p(1) fit in blast)
qed

lemma local_params_emits:
  assumes "emits ws bs" "length bs = n"
  shows "local_params n ws = Some bs"
  using emits_run [OF assms(1), of n "[]"] assms(2) by (simp add: local_params_def initialised_def o_def)

lemma white_list_params:
  assumes "hdrs_ok E" "length bda = 6"
  shows "local_params (hcic_const E HCIC_PARAM_SIZE_ADD_WHITE_LIST) [UINT8_TO_STREAM E t, BDADDR_TO_STREAM E bda] = Some (t # rev bda)"
    "local_params (hcic_const E HCIC_PARAM_SIZE_REMOVE_WHITE_LIST) [UINT8_TO_STREAM E t, BDADDR_TO_STREAM E bda] = Some (t # rev bda)"
  using local_params_emits [OF emits_writers(1) [OF assms(1) emits_writers(3) [OF assms(1) emits_Nil]], where n = 7] assms
  by (simp_all add: hdrs_okD)

section \<open>Commands with a group of fields per PHY\<close>

lemma bitset_count_le: "bitset_count w \<le> 8"
  using length_filter_le [of "bit w" "[0..<8]"] by (simp add: bitset_count_def)

definition scan_group :: "scanning_phy_cfg \<Rightarrow> field list" where
  "scan_group c = [U8 (phy_scan_type c), U16 (phy_scan_int c), U16 (phy_scan_win c)]"

definition conn_group :: "ext_conn_phy_cfg \<Rightarrow> field list" where
  "conn_group c = [U16 (ext_scan_int c), U16 (ext_scan_win c), U16 (ext_conn_int_min c), U16 (ext_conn_int_max c),
     U16 (ext_conn_latency c), U16 (ext_sup_timeout c), U16 (ext_min_ce_len c), U16 (ext_max_ce_len c)]"

text \<open>The repeated part: every group has the same types and size.\<close>

lemma groups:
  assumes "\<And>c. map typ_field (g c) = ts" "\<And>c. params_size (g c) = k" "\<And>c. \<forall>f\<in>set (g c). ok_field f"
  shows "map typ_field (concat (map g cs)) = concat (replicate (length cs) ts)"
    "params_size (concat (map g cs)) = k * length cs" "\<forall>f\<in>set (concat (map g cs)). ok_field f"
proof -
  show "map typ_field (concat (map g cs)) = concat (replicate (length cs) ts)" by (induction cs) (simp_all add: assms(1))
  show "params_size (concat (map g cs)) = k * length cs" by (induction cs) (simp_all add: assms(2))
  show "\<forall>f\<in>set (concat (map g cs)). ok_field f" using assms(3) by auto
qed

lemma group_command:
  assumes E: "hdrs_ok E" and X: "accepting X" and inv: "hinv E (hci S)"
    and f: "core_fields op = (map typ_field pre, ts)" "ts \<noteq> []" "\<forall>f\<in>set pre. ok_field f" "phys_of pre = length cs"
    and g: "\<And>c. map typ_field (g c) = ts" "\<And>c. params_size (g c) = k" "\<And>c. \<forall>f\<in>set (g c). ok_field f"
    and op: "op \<noteq> HCI_BLE_RAND" "op \<noteq> HCI_BLE_ENCRYPT" and need: "log_need op \<le> params_size pre"
    and len: "m = params_size pre + k * length cs" "m \<le> 255" "len = 3 + m" "n = of_nat m"
    and ws: "ws = map (field_writer E) (pre @ concat (map g cs))"
  shows "ensures (sends E op (pre @ concat (map g cs)) S)
    (send_new E B X (hci_cmd E len 0 (UINT16_TO_STREAM E (hci_opcode E op) # UINT8_TO_STREAM E n # ws)) S)"
proof (rule field_command [OF E X inv _ op _ _ _ ws])
  note gs = groups [of g ts k cs, OF g]
  have size: "params_size (pre @ concat (map g cs)) = m" using gs(2) len(1) by simp
  show "fits op (pre @ concat (map g cs))"
    using f gs(1,3) size len(2) unfolding params_size_def
    unfolding fits_def f(1) prod.case by (intro conjI exI [of _ pre] exI [of _ "concat (map g cs)"]) auto
qed (use groups(2) [of g ts k cs, OF g] need len in \<open>simp_all\<close>)

section \<open>LE Encrypt\<close>

text \<open>
  Its packet keeps the completion callback in front of the command. Key and plaintext are cut to
  sixteen bytes and padded with zeros.
\<close>

definition pad16 :: "u8 \<Rightarrow> bytes \<Rightarrow> bytes" where
  "pad16 n bs = take (min (unat n) 16) bs @ replicate (16 - min (unat n) 16) 0"

lemma pad16_length: "min (unat n) 16 \<le> length bs \<Longrightarrow> length (pad16 n bs) = 16"
  by (simp add: pad16_def)

lemma poke_over: "length xs = pos \<Longrightarrow> length ys = length bs \<Longrightarrow> poke bs (xs @ ys @ zs, pos) = Some (xs @ map Some bs @ zs, pos)"
  by simp

lemma emit_over:
  "length xs = pos \<Longrightarrow> length ys = length bs \<Longrightarrow> emit bs (xs @ ys @ zs, pos) = Some (xs @ map Some bs @ zs, pos + length bs)"
  by (simp add: emit_def)

lemma encrypt_packet:
  assumes E: "hdrs_ok E" and k: "min (unat kl) 16 \<le> length key" and p: "min (unat pl) 16 \<le> length pt"
  shows "\<exists>r. hci_cmd E (hcic_const E HCIC_PREAMBLE_SIZE + hcic_const E HCIC_PARAM_SIZE_BLE_ENCRYPT) 4
      [emit (put32 cb), UINT16_TO_STREAM E (hci_opcode E HCI_BLE_ENCRYPT),
       UINT8_TO_STREAM E (of_nat (hcic_const E HCIC_PARAM_SIZE_BLE_ENCRYPT)),
       memset_stream 0 (hcic_const E HCIC_PARAM_SIZE_BLE_ENCRYPT),
       ARRAY_TO_STREAM E key (min (unat kl) 16), advance (16 - min (unat kl) 16),
       ARRAY_TO_STREAM E pt (min (unat pl) 16)] =
    Some \<lparr>bt_event = None, bt_len = 35, bt_offset = 4,
      bt_data = map Some (put32 cb @ enc_cmd HCI_BLE_ENCRYPT [OCT (pad16 kl key), OCT (pad16 pl pt)]) @ replicate r None\<rparr>"
proof -
  define m where "m = min (unat kl) 16"
  define q where "q = min (unat pl) 16"
  have mq: "m \<le> 16" "q \<le> 16" "m \<le> length key" "q \<le> length pt" using k p by (simp_all add: m_def q_def)
  obtain r where r: "hcic_const E HCI_CMD_BUF_SIZE - 8 = 39 + r"
  proof
    show "hcic_const E HCI_CMD_BUF_SIZE - 8 = 39 + (hcic_const E HCI_CMD_BUF_SIZE - 47)" using hdrs_okD(13) [OF E] by simp
  qed
  define hd where "hd = put32 cb @ put16 (core_opcode HCI_BLE_ENCRYPT) @ [32]"
  have hdl: "length hd = 7" by (simp add: hd_def)
  have "emits [emit (put32 cb), UINT16_TO_STREAM E (core_opcode HCI_BLE_ENCRYPT), UINT8_TO_STREAM E 32] hd" (is "emits ?ws hd")
    unfolding hd_def using emits_Cons [OF refl emits_writers(2) [OF E emits_writers(1) [OF E emits_Nil]]] by (simp add: hdrs_okD [OF E])
  then have front: "run_stream ?ws (replicate (39 + r) None, 0) = Some (map Some hd @ replicate (32 + r) None, 7)"
    using emits_run [of ?ws hd "39 + r" "[]"] by (simp add: hdl del: run_stream.simps)
  let ?z = "\<lambda>n. map Some (replicate n (0 :: u8))"
  have z: "?z 32 = ?z m @ ?z (16 - m) @ ?z q @ ?z (16 - q)"
    using mq by (simp flip: replicate_add map_append)
  have rep: "replicate (32 + r) None = replicate 32 None @ replicate r (None :: u8 option)" by (rule replicate_add)
  have s1: "memset_stream 0 32 (map Some hd @ replicate (32 + r) None, 7) = Some (map Some hd @ ?z 32 @ replicate r None, 7)"
    unfolding memset_stream_def rep by (rule poke_over) (simp_all add: hdl)
  have s2: "ARRAY_TO_STREAM E key m (map Some hd @ ?z 32 @ replicate r None, 7) =
      Some (map Some (hd @ take m key) @ ?z (16 - m) @ ?z q @ ?z (16 - q) @ replicate r None, 7 + m)"
    using emit_over [of "map Some hd" 7 "?z m" "take m key" "?z (16 - m) @ ?z q @ ?z (16 - q) @ replicate r None"] mq
    unfolding z ARRAY_TO_STREAM_def by (simp add: hdrs_okD [OF E] hdl)
  have s3: "advance (16 - m) (map Some (hd @ take m key) @ ?z (16 - m) @ ?z q @ ?z (16 - q) @ replicate r None, 7 + m) =
      Some (map Some (hd @ pad16 kl key) @ ?z q @ ?z (16 - q) @ replicate r None, 23)"
    using mq hdl by (simp add: pad16_def m_def [symmetric])
  have s4: "ARRAY_TO_STREAM E pt q (map Some (hd @ pad16 kl key) @ ?z q @ ?z (16 - q) @ replicate r None, 23) =
      Some (map Some (hd @ pad16 kl key @ pad16 pl pt) @ replicate r None, 23 + q)"
    using emit_over [of "map Some (hd @ pad16 kl key)" 23 "?z q" "take q pt" "?z (16 - q) @ replicate r None"] mq pad16_length [OF k]
    by (simp add: ARRAY_TO_STREAM_def hdrs_okD [OF E] hdl) (simp add: pad16_def q_def [symmetric])
  have e: "hd @ pad16 kl key @ pad16 pl pt = put32 cb @ enc_cmd HCI_BLE_ENCRYPT [OCT (pad16 kl key), OCT (pad16 pl pt)]"
    using pad16_length [OF k] pad16_length [OF p] by (simp add: enc_cmd_def hd_def)
  have "run_stream (?ws @ [memset_stream 0 32, ARRAY_TO_STREAM E key m, advance (16 - m), ARRAY_TO_STREAM E pt q])
      (replicate (39 + r) None, 0) = Some (map Some (hd @ pad16 kl key @ pad16 pl pt) @ replicate r None, 23 + q)"
    unfolding run_stream_append front by (simp only: run_stream.simps Option.bind.bind_lunit s1 s2 s3 s4)
  then show ?thesis
    unfolding m_def [symmetric] q_def [symmetric] e [symmetric]
    by (auto simp: hci_cmd_def hdrs_okD [OF E] r simp del: run_stream.simps)
qed

lemma rd_pointer_data:
  assumes "bt_data b = map Some (put32 v @ bs) @ xs"
  shows "rd_pointer b = Some (if v = 0 then None else Some (unat v))"
proof -
  have "rd_bytes b 0 (Suc (Suc (Suc (Suc 0)))) = Some (put32 v)"
    by (simp add: rd8_def assms put32_def)
  moreover have "Suc (Suc (Suc (Suc 0))) = 4" by simp
  ultimately have "rd_bytes b 0 4 = Some (put32 v)" by (simp only:)
  then show ?thesis using get32_put32 [of "[]" v "[]"] by (simp add: rd_pointer_def)
qed

lemma encrypt_sent:
  assumes E: "hdrs_ok E" and X: "accepting X" and inv: "hinv E (hci S)"
    and k: "min (unat kl) 16 \<le> length key" and p: "min (unat pl) 16 \<le> length pt"
  shows "ensures (sends E HCI_BLE_ENCRYPT [OCT (pad16 kl key), OCT (pad16 pl pt)] S)
    (btsnd_hcic_ble_encrypt E B X key kl pt pl cb S)"
proof -
  let ?cmd = "enc_cmd HCI_BLE_ENCRYPT [OCT (pad16 kl key), OCT (pad16 pl pt)]"
  have len: "length ?cmd = 35" using pad16_length [OF k] pad16_length [OF p] by simp
  obtain r where r: "hci_cmd E (hcic_const E HCIC_PREAMBLE_SIZE + hcic_const E HCIC_PARAM_SIZE_BLE_ENCRYPT) 4
      [emit (put32 cb), UINT16_TO_STREAM E (hci_opcode E HCI_BLE_ENCRYPT),
       UINT8_TO_STREAM E (of_nat (hcic_const E HCIC_PARAM_SIZE_BLE_ENCRYPT)),
       memset_stream 0 (hcic_const E HCIC_PARAM_SIZE_BLE_ENCRYPT),
       ARRAY_TO_STREAM E key (min (unat kl) 16), advance (16 - min (unat kl) 16),
       ARRAY_TO_STREAM E pt (min (unat pl) 16)] =
    Some \<lparr>bt_event = None, bt_len = 35, bt_offset = 4, bt_data = map Some (put32 cb @ ?cmd) @ replicate r None\<rparr>"
    (is "_ = Some ?b") using encrypt_packet [OF E k p] by blast
  have rd: "readable ?b 39" using readable_data [of ?b "put32 cb @ ?cmd" "replicate r None"] len by simp
  have w: "wire ?b = map Some ?cmd" using len by (simp add: wire_def)
  have fit: "fits HCI_BLE_ENCRYPT [OCT (pad16 kl key), OCT (pad16 pl pt)]"
    using pad16_length [OF k] pad16_length [OF p] by (intro fits_fixed) simp_all
  have op: "rd16 E ?b 4 = Some (core_opcode HCI_BLE_ENCRYPT)"
    by (simp add: rd16_def rd8_def enc_cmd_def put16_def put32_def hdrs_okD [OF E] join16)
  have h: "head_readable ?b" using rd_bytes_readable [OF rd, of 4 4] by (auto simp: head_readable_def)
  have "readable ?b (7 + log_need HCI_BLE_ENCRYPT)" using rd by (auto simp: readable_def log_need_def)
  from log_le_ok [OF E this, where B = B]
  have "ensures (sent E ?b S) (send_new E B X (Some ?b) S)"
    by (intro send_new_sent [OF E X inv h]) (use op rd_pointer_data [of ?b cb ?cmd] in simp_all)
  then have "ensures (sends E HCI_BLE_ENCRYPT [OCT (pad16 kl key), OCT (pad16 pl pt)] S) (send_new E B X (Some ?b) S)"
    unfolding sends_def by (rule ensures_mono) (use w fit in blast)
  moreover have ks: "hcic_const E HCIC_BLE_ENCRYT_KEY_SIZE = 16" by (simp add: hdrs_okD(12) [OF E])
  moreover have mn: "(if unat n > 16 then 16 else unat n) = min (unat n) 16" for n :: u8 by simp
  ultimately show ?thesis
    unfolding btsnd_hcic_ble_encrypt_def Let_def ks mn r by simp
qed

section \<open>The table of commands\<close>

text \<open>The forty writers whose packets are whole, each with the opcode and the fields it stands for. Three
  writers of \<open>hciblecmds.cc\<close> are not among them: \<open>btsnd_hcic_ble_set_adv_data\<close> and
  \<open>btsnd_hcic_ble_set_scan_rsp_data\<close> may leave the last byte of their packet unwritten, and
  \<open>btsnd_hcic_ble_set_local_used_feat\<close> writes no length byte; lemmas of their own say what these send. On a
  host without LE \<open>btsnd_hcic_ble_rand\<close> sends nothing, so it stands here with a controller that has it.\<close>

inductive ble_command ::
  "hci_hdrs \<Rightarrow> btu_ext \<Rightarrow> hci_ext \<Rightarrow> (btu_state \<Rightarrow> btu_state option) \<Rightarrow> hci_op \<Rightarrow> field list \<Rightarrow> bool"
  for E B X
where
  set_random_addr: "length random_bda = 6 \<Longrightarrow> ble_command E B X (btsnd_hcic_ble_set_random_addr E B X random_bda)
      HCI_BLE_WRITE_RANDOM_ADDR [ADDR random_bda]"
| write_adv_params: "length direct_bda = 6 \<Longrightarrow> ble_command E B X (btsnd_hcic_ble_write_adv_params E B X adv_int_min adv_int_max adv_type addr_type_own addr_type_dir direct_bda channel_map adv_filter_policy)
      HCI_BLE_WRITE_ADV_PARAMS [U16 adv_int_min, U16 adv_int_max, U8 adv_type, U8 addr_type_own, U8 addr_type_dir, ADDR direct_bda, U8 channel_map, U8 adv_filter_policy]"
| read_adv_chnl_tx_power: "ble_command E B X (btsnd_hcic_ble_read_adv_chnl_tx_power E B X)
      HCI_BLE_READ_ADV_CHNL_TX_POWER []"
| set_adv_enable: "ble_command E B X (btsnd_hcic_ble_set_adv_enable E B X adv_enable)
      HCI_BLE_WRITE_ADV_ENABLE [U8 adv_enable]"
| set_scan_params: "ble_command E B X (btsnd_hcic_ble_set_scan_params E B X scan_type scan_int scan_win addr_type_own scan_filter_policy)
      HCI_BLE_WRITE_SCAN_PARAMS [U8 scan_type, U16 scan_int, U16 scan_win, U8 addr_type_own, U8 scan_filter_policy]"
| set_scan_enable: "ble_command E B X (btsnd_hcic_ble_set_scan_enable E B X scan_enable duplicate)
      HCI_BLE_WRITE_SCAN_ENABLE [U8 scan_enable, U8 duplicate]"
| create_ll_conn: "length bda_peer = 6 \<Longrightarrow> ble_command E B X (btsnd_hcic_ble_create_ll_conn E B X scan_int scan_win init_filter_policy addr_type_peer bda_peer addr_type_own conn_int_min conn_int_max conn_latency conn_timeout min_ce_len max_ce_len)
      HCI_BLE_CREATE_LL_CONN [U16 scan_int, U16 scan_win, U8 init_filter_policy, U8 addr_type_peer, ADDR bda_peer, U8 addr_type_own, U16 conn_int_min, U16 conn_int_max, U16 conn_latency, U16 conn_timeout, U16 min_ce_len, U16 max_ce_len]"
| create_conn_cancel: "ble_command E B X (btsnd_hcic_ble_create_conn_cancel E B X)
      HCI_BLE_CREATE_CONN_CANCEL []"
| upd_ll_conn_params: "ble_command E B X (btsnd_hcic_ble_upd_ll_conn_params E B X handle conn_int_min conn_int_max conn_latency conn_timeout min_ce_len max_ce_len)
      HCI_BLE_UPD_LL_CONN_PARAMS [U16 handle, U16 conn_int_min, U16 conn_int_max, U16 conn_latency, U16 conn_timeout, U16 min_ce_len, U16 max_ce_len]"
| set_host_chnl_class: "length chnl_map = 5 \<Longrightarrow> ble_command E B X (btsnd_hcic_ble_set_host_chnl_class E B X chnl_map)
      HCI_BLE_SET_HOST_CHNL_CLASS [OCT chnl_map]"
| read_chnl_map: "ble_command E B X (btsnd_hcic_ble_read_chnl_map E B X handle)
      HCI_BLE_READ_CHNL_MAP [U16 handle]"
| read_remote_feat: "ble_command E B X (btsnd_hcic_ble_read_remote_feat E B X handle)
      HCI_BLE_READ_REMOTE_FEAT [U16 handle]"
| start_enc: "length rand = 8 \<Longrightarrow> length ltk = 16 \<Longrightarrow> ble_command E B X (btsnd_hcic_ble_start_enc E B X handle rand ediv ltk)
      HCI_BLE_START_ENC [U16 handle, OCT rand, U16 ediv, OCT ltk]"
| ltk_req_reply: "length ltk = 16 \<Longrightarrow> ble_command E B X (btsnd_hcic_ble_ltk_req_reply E B X handle ltk)
      HCI_BLE_LTK_REQ_REPLY [U16 handle, OCT ltk]"
| ltk_req_neg_reply: "ble_command E B X (btsnd_hcic_ble_ltk_req_neg_reply E B X handle)
      HCI_BLE_LTK_REQ_NEG_REPLY [U16 handle]"
| receiver_test: "ble_command E B X (btsnd_hcic_ble_receiver_test E B X rx_freq)
      HCI_BLE_RECEIVER_TEST [U8 rx_freq]"
| transmitter_test: "ble_command E B X (btsnd_hcic_ble_transmitter_test E B X tx_freq test_data_len payload)
      HCI_BLE_TRANSMITTER_TEST [U8 tx_freq, U8 test_data_len, U8 payload]"
| test_end: "ble_command E B X (btsnd_hcic_ble_test_end E B X)
      HCI_BLE_TEST_END []"
| read_host_supported: "ble_command E B X (btsnd_hcic_ble_read_host_supported E B X)
      HCI_READ_LE_HOST_SUPPORT []"
| rc_param_req_reply: "ble_command E B X (btsnd_hcic_ble_rc_param_req_reply E B X handle conn_int_min conn_int_max conn_latency conn_timeout min_ce_len max_ce_len)
      HCI_BLE_RC_PARAM_REQ_REPLY [U16 handle, U16 conn_int_min, U16 conn_int_max, U16 conn_latency, U16 conn_timeout, U16 min_ce_len, U16 max_ce_len]"
| rc_param_req_neg_reply: "ble_command E B X (btsnd_hcic_ble_rc_param_req_neg_reply E B X handle reason)
      HCI_BLE_RC_PARAM_REQ_NEG_REPLY [U16 handle, U8 reason]"
| add_device_resolving_list: "length bda_peer = 6 \<Longrightarrow> length irk_peer = 16 \<Longrightarrow> length irk_local = 16 \<Longrightarrow> ble_command E B X (btsnd_hcic_ble_add_device_resolving_list E B X addr_type_peer bda_peer irk_peer irk_local)
      HCI_BLE_ADD_DEV_RESOLVING_LIST [U8 addr_type_peer, ADDR bda_peer, OCT irk_peer, OCT irk_local]"
| rm_device_resolving_list: "length bda_peer = 6 \<Longrightarrow> ble_command E B X (btsnd_hcic_ble_rm_device_resolving_list E B X addr_type_peer bda_peer)
      HCI_BLE_RM_DEV_RESOLVING_LIST [U8 addr_type_peer, ADDR bda_peer]"
| set_privacy_mode: "length bda_peer = 6 \<Longrightarrow> ble_command E B X (btsnd_hcic_ble_set_privacy_mode E B X addr_type_peer bda_peer privacy_type)
      HCI_BLE_SET_PRIVACY_MODE [U8 addr_type_peer, ADDR bda_peer, U8 privacy_type]"
| clear_resolving_list: "ble_command E B X (btsnd_hcic_ble_clear_resolving_list E B X)
      HCI_BLE_CLEAR_RESOLVING_LIST []"
| read_resolvable_addr_peer: "length bda_peer = 6 \<Longrightarrow> ble_command E B X (btsnd_hcic_ble_read_resolvable_addr_peer E B X addr_type_peer bda_peer)
      HCI_BLE_READ_RESOLVABLE_ADDR_PEER [U8 addr_type_peer, ADDR bda_peer]"
| read_resolvable_addr_local: "length bda_peer = 6 \<Longrightarrow> ble_command E B X (btsnd_hcic_ble_read_resolvable_addr_local E B X addr_type_peer bda_peer)
      HCI_BLE_READ_RESOLVABLE_ADDR_LOCAL [U8 addr_type_peer, ADDR bda_peer]"
| set_addr_resolution_enable: "ble_command E B X (btsnd_hcic_ble_set_addr_resolution_enable E B X addr_resolution_enable)
      HCI_BLE_SET_ADDR_RESOLUTION_ENABLE [U8 addr_resolution_enable]"
| set_rand_priv_addr_timeout: "ble_command E B X (btsnd_hcic_ble_set_rand_priv_addr_timeout E B X rpa_timout)
      HCI_BLE_SET_RAND_PRIV_ADDR_TIMOUT [U16 rpa_timout]"
| set_data_length: "ble_command E B X (btsnd_hcic_ble_set_data_length E B X conn_handle tx_octets tx_time)
      HCI_BLE_SET_DATA_LENGTH [U16 conn_handle, U16 tx_octets, U16 tx_time]"
| enh_rx_test: "ble_command E B X (btsnd_hcic_ble_enh_rx_test E B X rx_chan phy mod_index)
      HCI_BLE_ENH_RECEIVER_TEST [U8 rx_chan, U8 phy, U8 mod_index]"
| enh_tx_test: "ble_command E B X (btsnd_hcic_ble_enh_tx_test E B X tx_chan data_len payload phy)
      HCI_BLE_ENH_TRANSMITTER_TEST [U8 tx_chan, U8 data_len, U8 payload, U8 phy]"
| set_extended_scan_enable: "ble_command E B X (btsnd_hcic_ble_set_extended_scan_enable E B X enable filter_duplicates duration period)
      HCI_LE_SET_EXTENDED_SCAN_ENABLE [U8 enable, U8 filter_duplicates, U16 duration, U16 period]"
| clear_white_list: "ble_command E B X (btsnd_hcic_ble_clear_white_list E B X cb) HCI_BLE_CLEAR_WHITE_LIST []"
| add_white_list: "length bda = 6 \<Longrightarrow> ble_command E B X (btsnd_hcic_ble_add_white_list E B X addr_type bda cb)
      HCI_BLE_ADD_WHITE_LIST [U8 addr_type, ADDR bda]"
| remove_from_white_list: "length bda = 6 \<Longrightarrow> ble_command E B X (btsnd_hcic_ble_remove_from_white_list E B X addr_type bda cb)
      HCI_BLE_REMOVE_WHITE_LIST [U8 addr_type, ADDR bda]"
| rand_from_controller: "ble_command E B X (btsnd_hcic_ble_rand E B X True urandom k) HCI_BLE_RAND []"
| encrypt: "min (unat key_len) 16 \<le> length key \<Longrightarrow> min (unat pt_len) 16 \<le> length plain_text \<Longrightarrow>
    ble_command E B X (btsnd_hcic_ble_encrypt E B X key key_len plain_text pt_len p_cmd_cplt_cback)
      HCI_BLE_ENCRYPT [OCT (pad16 key_len key), OCT (pad16 pt_len plain_text)]"
| set_extended_scan_params: "bitset_count scanning_phys \<le> length phy_cfg \<Longrightarrow>
    ble_command E B X (btsnd_hcic_ble_set_extended_scan_params E B X own_address_type scanning_filter_policy scanning_phys phy_cfg)
      HCI_LE_SET_EXTENDED_SCAN_PARAMETERS ([U8 own_address_type, U8 scanning_filter_policy, U8 scanning_phys] @
        concat (map scan_group (take (bitset_count scanning_phys) phy_cfg)))"
| ext_create_conn: "bitset_count initiating_phys \<le> length conn_cfg \<Longrightarrow> length bda_peer = 6 \<Longrightarrow>
    ble_command E B X (btsnd_hcic_ble_ext_create_conn E B X init_filter_policy addr_type_own addr_type_peer bda_peer
        initiating_phys conn_cfg)
      HCI_LE_EXTENDED_CREATE_CONNECTION ([U8 init_filter_policy, U8 addr_type_own, U8 addr_type_peer, ADDR bda_peer, U8 initiating_phys] @
        concat (map conn_group (take (bitset_count initiating_phys) conn_cfg)))"

lemmas plain_defs =
  btsnd_hcic_ble_set_random_addr_def
  btsnd_hcic_ble_write_adv_params_def
  btsnd_hcic_ble_read_adv_chnl_tx_power_def
  btsnd_hcic_ble_set_adv_enable_def
  btsnd_hcic_ble_set_scan_params_def
  btsnd_hcic_ble_set_scan_enable_def
  btsnd_hcic_ble_create_ll_conn_def
  btsnd_hcic_ble_create_conn_cancel_def
  btsnd_hcic_ble_upd_ll_conn_params_def
  btsnd_hcic_ble_set_host_chnl_class_def
  btsnd_hcic_ble_read_chnl_map_def
  btsnd_hcic_ble_read_remote_feat_def
  btsnd_hcic_ble_start_enc_def
  btsnd_hcic_ble_ltk_req_reply_def
  btsnd_hcic_ble_ltk_req_neg_reply_def
  btsnd_hcic_ble_receiver_test_def
  btsnd_hcic_ble_transmitter_test_def
  btsnd_hcic_ble_test_end_def
  btsnd_hcic_ble_read_host_supported_def
  btsnd_hcic_ble_rc_param_req_reply_def
  btsnd_hcic_ble_rc_param_req_neg_reply_def
  btsnd_hcic_ble_add_device_resolving_list_def
  btsnd_hcic_ble_rm_device_resolving_list_def
  btsnd_hcic_ble_set_privacy_mode_def
  btsnd_hcic_ble_clear_resolving_list_def
  btsnd_hcic_ble_read_resolvable_addr_peer_def
  btsnd_hcic_ble_read_resolvable_addr_local_def
  btsnd_hcic_ble_set_addr_resolution_enable_def
  btsnd_hcic_ble_set_rand_priv_addr_timeout_def
  btsnd_hcic_ble_set_data_length_def
  btsnd_hcic_ble_enh_rx_test_def
  btsnd_hcic_ble_enh_tx_test_def
  btsnd_hcic_ble_set_extended_scan_enable_def

text \<open>The commands with a group per PHY: the length still fits the bytes it is stored in.\<close>

lemma ucast_of_nat16: "ucast (of_nat m :: u16) = (of_nat m :: u8)"
  by (rule bit_word_eqI) (simp add: bit_simps)

lemma unat_u8: "n < 256 \<Longrightarrow> unat (of_nat n :: u8) = n"
  by (simp add: unat_of_nat take_bit_nat_eq_self)

lemma ext_scan_sent:
  assumes E: "hdrs_ok E" and X: "accepting X" and inv: "hinv E (hci S)" and n: "bitset_count phys \<le> length cfg"
  shows "ensures (sends E HCI_LE_SET_EXTENDED_SCAN_PARAMETERS ([U8 own, U8 policy, U8 phys] @
        concat (map scan_group (take (bitset_count phys) cfg))) S)
    (btsnd_hcic_ble_set_extended_scan_params E B X own policy phys cfg S)"
proof -
  let ?m = "3 + 5 * bitset_count phys"
  have m: "?m \<le> 43" using bitset_count_le [of phys] by simp
  have u: "unat (of_nat ?m :: u16) = ?m" using m by (intro unat_u16) linarith
  have w: "concat (map (\<lambda>c. [UINT8_TO_STREAM E (phy_scan_type c), UINT16_TO_STREAM E (phy_scan_int c),
      UINT16_TO_STREAM E (phy_scan_win c)]) cs) = map (field_writer E) (concat (map scan_group cs))" for cs
    by (induction cs) (simp_all add: scan_group_def)
  show ?thesis
    unfolding btsnd_hcic_ble_set_extended_scan_params_def Let_def u ucast_of_nat16 w if_not_P [OF n [unfolded linorder_not_less [symmetric]]] append_Cons append_Nil
    by (rule group_command [OF E X inv, where k = 5 and pre = "[U8 own, U8 policy, U8 phys]" and ts = "[T8, T16, T16]" and m = ?m and g = scan_group,
          simplified append_Cons append_Nil])
      (use n m in \<open>simp_all add: hdrs_okD [OF E] phys_of_def scan_group_def log_need_def\<close>)
qed

lemma ext_create_conn_sent:
  assumes E: "hdrs_ok E" and X: "accepting X" and inv: "hinv E (hci S)" and n: "bitset_count phys \<le> length cfg" and a: "length bda = 6"
  shows "ensures (sends E HCI_LE_EXTENDED_CREATE_CONNECTION ([U8 policy, U8 own, U8 peer, ADDR bda, U8 phys] @
        concat (map conn_group (take (bitset_count phys) cfg))) S)
    (btsnd_hcic_ble_ext_create_conn E B X policy own peer bda phys cfg S)"
proof -
  let ?m = "10 + 16 * bitset_count phys"
  have m: "?m \<le> 138" using bitset_count_le [of phys] by simp
  have u: "unat (of_nat ?m :: u8) = ?m" using m by (intro unat_u8) linarith
  have w: "concat (map (\<lambda>c. [UINT16_TO_STREAM E (ext_scan_int c), UINT16_TO_STREAM E (ext_scan_win c),
      UINT16_TO_STREAM E (ext_conn_int_min c), UINT16_TO_STREAM E (ext_conn_int_max c), UINT16_TO_STREAM E (ext_conn_latency c),
      UINT16_TO_STREAM E (ext_sup_timeout c), UINT16_TO_STREAM E (ext_min_ce_len c), UINT16_TO_STREAM E (ext_max_ce_len c)]) cs)
      = map (field_writer E) (concat (map conn_group cs))" for cs
    by (induction cs) (simp_all add: conn_group_def)
  show ?thesis
    unfolding btsnd_hcic_ble_ext_create_conn_def Let_def u w if_not_P [OF n [unfolded linorder_not_less [symmetric]]] append_Cons append_Nil
    by (rule group_command [OF E X inv, where k = 16 and pre = "[U8 policy, U8 own, U8 peer, ADDR bda, U8 phys]"
          and ts = "[T16, T16, T16, T16, T16, T16, T16, T16]" and m = ?m and g = conn_group,
          simplified append_Cons append_Nil])
      (use n m a in \<open>simp_all add: hdrs_okD [OF E] phys_of_def conn_group_def log_need_def\<close>)
qed

lemma ble_sent:
  assumes E: "hdrs_ok E" and X: "accepting X" and inv: "hinv E (hci S)" and c: "ble_command E B X f op fs"
  shows "ensures (sends E op fs S) (f S)"
  using c
proof (induction rule: ble_command.induct)
  case (ext_create_conn initiating_phys conn_cfg bda_peer init_filter_policy addr_type_own addr_type_peer)
  then show ?case by (rule ext_create_conn_sent [OF E X inv])
next
  case (set_extended_scan_params scanning_phys phy_cfg own_address_type scanning_filter_policy)
  then show ?case by (rule ext_scan_sent [OF E X inv])
next
  case (encrypt key_len key pt_len plain_text p_cmd_cplt_cback)
  then show ?case by (rule encrypt_sent [OF E X inv])
next
  case (clear_white_list cb)
  show ?case unfolding btsnd_hcic_ble_clear_white_list_def
    by (rule with_cb_command [OF E X inv]) (simp_all add: fits_def log_need_def)
next
  case (rand_from_controller urandom k)
  show ?case unfolding btsnd_hcic_ble_rand_def not_True_eq_False if_False
    by (rule with_cb_command [OF E X inv]) (simp_all add: fits_def log_need_def)
next
  case (add_white_list bda addr_type cb)
  then show ?case unfolding btsnd_hcic_ble_add_white_list_def white_list_params [OF E add_white_list(1)] bind.bind_lunit
    by (intro with_cb_command [OF E X inv] fits_fixed) (simp_all add: log_need_def hdrs_okD [OF E])
next
  case (remove_from_white_list bda addr_type cb)
  then show ?case unfolding btsnd_hcic_ble_remove_from_white_list_def white_list_params [OF E remove_from_white_list(1)] bind.bind_lunit
    by (intro with_cb_command [OF E X inv] fits_fixed) (simp_all add: log_need_def hdrs_okD [OF E])
qed (unfold plain_defs, (rule fixed_command [OF E X inv]; simp add: hdrs_okD [OF E] log_need_def)+)

section \<open>Commands that are not complete\<close>

text \<open>
  Sending works for any packet whose first bytes were written; these packets hold a byte that was
  not.
\<close>

definition sends_raw :: "hci_hdrs \<Rightarrow> u8 option list \<Rightarrow> btu_state \<Rightarrow> btu_state \<Rightarrow> bool" where
  "sends_raw E bs S T \<longleftrightarrow> (\<exists>b. sent E b S T \<and> wire b = bs)"

lemma raw_sent:
  assumes E: "hdrs_ok E" and X: "accepting X" and inv: "hinv E (hci S)"
    and b: "b = \<lparr>bt_event = None, bt_len = n, bt_offset = 0, bt_data = map Some (put16 (core_opcode op) @ x # y # bs) @ xs\<rparr>"
    and op: "op \<noteq> HCI_BLE_RAND" "op \<noteq> HCI_BLE_ENCRYPT" and need: "log_need op = 0"
  shows "ensures (sends_raw E (wire b) S) (send_new E B X (Some b) S)"
proof -
  have "length (put16 (core_opcode op) @ x # y # bs) = 4 + length bs" by simp
  moreover have "readable b (length (put16 (core_opcode op) @ x # y # bs))" by (rule readable_data [where xs = xs]) (simp add: b)
  ultimately have r: "readable b (4 + length bs)" by (simp only:)
  have "0 + (if bt_len b > 3 then 4 else 3) \<le> 4 + length bs" by simp
  from rd_bytes_readable [OF r this] have h: "head_readable b" by (auto simp: head_readable_def b)
  have rd: "rd16 E b (unat (bt_offset b)) = Some (core_opcode op)"
    by (simp add: b rd16_def rd8_def put16_def hdrs_okD [OF E] join16)
  have nv: "\<not> is_vendor E (core_opcode op)" "core_opcode op \<noteq> hci_opcode E HCI_BLE_RAND" "core_opcode op \<noteq> hci_opcode E HCI_BLE_ENCRYPT"
    using le_not_vendor [OF E] op by (simp_all only: hdrs_okD(1) [OF E] core_opcode_inject not_False_eq_True)
  have "readable b (3 + log_need op)" using r by (auto simp: readable_def need)
  from log_le_ok [OF E this, where B = B] have "\<exists>ms. btu_hcif_log_command_metrics E B (core_opcode op) b (unat (bt_offset b) + 3) (hci_word E STATUS_UNKNOWN) False = Some ms"
    by (simp add: b)
  then have "ensures (sent E b S) (send_new E B X (Some b) S)"
    by (intro send_new_sent [OF E X inv h rd]) (use nv in blast)+
  then show ?thesis unfolding sends_raw_def by (rule ensures_mono) blast
qed

lemma used_feat_sent:
  assumes E: "hdrs_ok E" and X: "accepting X" and inv: "hinv E (hci S)" and f: "length feat_set = 8"
  shows "ensures (sends_raw E (map Some (put16 0x2004 @ feat_set) @ [None]) S) (btsnd_hcic_ble_set_local_used_feat E B X feat_set S)"
proof -
  let ?n = "hcic_const E HCI_CMD_BUF_SIZE - 8"
  have big: "262 \<le> ?n" using hdrs_okD(13) [OF E] by linarith
  obtain x y bs where fs: "feat_set = x # y # bs" using f by (cases feat_set; cases "tl feat_set") auto
  let ?b = "\<lparr>bt_event = None, bt_len = 11, bt_offset = 0, bt_data = map Some (put16 (core_opcode HCI_BLE_WRITE_LOCAL_SPT_FEAT) @ x # y # bs) @ replicate (?n - 10) None\<rparr>"
  let ?ws = "[UINT16_TO_STREAM E (core_opcode HCI_BLE_WRITE_LOCAL_SPT_FEAT), ARRAY_TO_STREAM E feat_set 8]"
  have "emits ?ws (put16 (core_opcode HCI_BLE_WRITE_LOCAL_SPT_FEAT) @ feat_set)"
    using emits_writers(2) [OF E emits_writers(4) [OF E emits_Nil, where n = 8 and bs = feat_set]] f by simp
  then have run: "run_stream ?ws (replicate ?n None, 0) = Some (bt_data ?b, 10)"
    using emits_run [of ?ws _ ?n "[]"] big f by (simp add: fs del: run_stream.simps)
  have k: "min (Suc 0) (hcic_const E HCI_CMD_BUF_SIZE - 18) = Suc 0" using big by simp
  have w: "wire ?b = map Some (put16 0x2004 @ feat_set) @ [None]"
    using f k by (simp add: wire_def fs)
  have "ensures (sends_raw E (wire ?b) S) (send_new E B X (Some ?b) S)"
    by (rule raw_sent [OF E X inv refl]) (simp_all add: log_need_def)
  moreover have "btsnd_hcic_ble_set_local_used_feat E B X feat_set S = send_new E B X (Some ?b) S"
    unfolding btsnd_hcic_ble_set_local_used_feat_def using run by (simp add: hci_cmd_def hdrs_okD [OF E] del: run_stream.simps)
  ultimately show ?thesis unfolding w by simp
qed

text \<open>
  Advertising data and scan response data: the area is cleared before the length byte is written
  into its first byte, so the last parameter byte is only written by a full payload.
\<close>

definition adv_bytes :: "u8 \<Rightarrow> bytes option \<Rightarrow> bytes" where
  "adv_bytes n p = (case p of None \<Rightarrow> [] | Some d \<Rightarrow> if n = 0 then [] else if unat n > 31 then 31 # take 31 d else n # take (unat n) d)"

definition adv_params :: "u8 \<Rightarrow> bytes option \<Rightarrow> u8 option list" where
  "adv_params n p = (let a = adv_bytes n p in map Some (a @ replicate (31 - length a) 0) @ replicate (32 - max 31 (length a)) None)"

lemma adv_bytes_le: "length (adv_bytes n p) \<le> 32"
  by (auto simp: adv_bytes_def split: option.split)

lemma adv_payload_emits:
  assumes E: "hdrs_ok E" and d: "\<And>d. p = Some d \<Longrightarrow> unat n \<le> length d"
  shows "emits (adv_payload E 31 n p) (adv_bytes n p)"
proof -
  have "emits [UINT8_TO_STREAM E x, ARRAY_TO_STREAM E d m] (x # take m d)" if "m \<le> length d" for x m d
    using emits_writers(1) [OF E emits_Cons [OF _ emits_Nil, of "ARRAY_TO_STREAM E d m" "take m d"]] that
    by (simp add: ARRAY_TO_STREAM_def hdrs_okD [OF E] fun_eq_iff)
  from this [where x = 31 and m = 31] this [where x = n and m = "unat n"] show ?thesis
    using d by (auto simp: adv_payload_def adv_bytes_def Let_def word_neq_0_conv [symmetric] split: option.split intro: emits_Nil)
qed

lemma emits_run_over:
  "emits ws bs \<Longrightarrow> length xs = pos \<Longrightarrow> length ys = length bs \<Longrightarrow>
   run_stream ws (xs @ ys @ zs, pos) = Some (xs @ map Some bs @ zs, pos + length bs)"
proof (induction arbitrary: xs pos ys rule: emits.induct)
  case (emits_Cons w bs ws cs)
  have "w (xs @ take (length bs) ys @ drop (length bs) ys @ zs, pos) = Some (xs @ map Some bs @ drop (length bs) ys @ zs, pos + length bs)"
    using emit_over [of xs pos "take (length bs) ys" bs "drop (length bs) ys @ zs"] emits_Cons.prems emits_Cons.hyps(1) by simp
  moreover have "take (length bs) ys @ drop (length bs) ys @ zs = ys @ zs" unfolding append_assoc [symmetric] by simp
  ultimately have "w (xs @ ys @ zs, pos) = Some (xs @ map Some bs @ drop (length bs) ys @ zs, pos + length bs)" by (simp only:)
  then show ?case using emits_Cons.IH [of "xs @ map Some bs" "pos + length bs" "drop (length bs) ys"] emits_Cons.prems
    by (simp add: add.assoc)
qed simp

lemma adv_sent:
  assumes E: "hdrs_ok E" and X: "accepting X" and inv: "hinv E (hci S)" and d: "\<And>d. p = Some d \<Longrightarrow> unat n \<le> length d"
    and op: "op \<noteq> HCI_BLE_RAND" "op \<noteq> HCI_BLE_ENCRYPT" "log_need op = 0"
  shows "ensures (sends_raw E (map Some (put16 (core_opcode op) @ [32]) @ adv_params n p) S)
    (send_new E B X (hci_cmd E 35 0 ([UINT16_TO_STREAM E (core_opcode op), UINT8_TO_STREAM E 32, memset_stream 0 31] @ adv_payload E 31 n p)) S)"
proof -
  let ?n = "hcic_const E HCI_CMD_BUF_SIZE - 8"
  let ?a = "adv_bytes n p"
  obtain r where r: "?n = 35 + r"
  proof
    show "?n = 35 + (?n - 35)" using hdrs_okD(13) [OF E] by simp
  qed
  define hd where "hd = put16 (core_opcode op) @ [32]"
  have hdl: "length hd = 3" by (simp add: hd_def)
  let ?ws = "[UINT16_TO_STREAM E (core_opcode op), UINT8_TO_STREAM E 32]"
  have "emits ?ws hd" unfolding hd_def using emits_writers(2) [OF E emits_writers(1) [OF E emits_Nil]] by simp
  then have front: "run_stream ?ws (replicate ?n None, 0) = Some (map Some hd @ replicate (32 + r) None, 3)"
    using emits_run [of ?ws hd ?n "[]"] by (simp add: hdl r del: run_stream.simps)
  have rep: "replicate (32 + r) None = replicate 31 None @ replicate (Suc r) (None :: u8 option)" unfolding replicate_add [symmetric] by simp
  have s1: "memset_stream 0 31 (map Some hd @ replicate (32 + r) None, 3) = Some (map Some hd @ replicate 31 (Some 0) @ replicate (Suc r) None, 3)"
    unfolding memset_stream_def rep using poke_over [of "map Some hd" 3 "replicate 31 None" "replicate 31 0"] by (simp add: hdl)
  define rest where "rest = replicate (31 - length ?a) (Some (0 :: u8)) @ replicate (32 + r - max 31 (length ?a)) None"
  have split: "replicate 31 (Some (0 :: u8)) @ replicate (Suc r) None = take (length ?a) (replicate 31 (Some 0) @ replicate (Suc r) None) @ rest"
    (is "?l = take _ ?l @ _")
  proof -
    have "length ?a \<le> 31 \<or> length ?a = 32" using adv_bytes_le [of n p] by linarith
    then have "drop (length ?a) ?l = rest" unfolding rest_def by (auto simp: max_def)
    then show ?thesis using append_take_drop_id [of "length ?a" ?l] by simp
  qed
  have "run_stream (adv_payload E 31 n p) (map Some hd @ ?l, 3) = Some (map Some hd @ map Some ?a @ rest, 3 + length ?a)"
    by (subst split, rule emits_run_over [OF adv_payload_emits [OF E d]]) (use adv_bytes_le [of n p] hdl in simp_all)
  then have run: "run_stream ((?ws @ [memset_stream 0 31]) @ adv_payload E 31 n p) (replicate ?n None, 0) =
      Some (map Some hd @ map Some ?a @ rest, 3 + length ?a)"
    unfolding run_stream_append front by (simp add: s1)
  have m: "max 31 (length ?a) \<le> 32" using adv_bytes_le [of n p] by simp
  have "32 + r - max 31 (length ?a) = 32 - max 31 (length ?a) + r" using m by simp
  then have rr: "map Some ?a @ rest = adv_params n p @ replicate r None"
    unfolding rest_def adv_params_def Let_def by (simp only: replicate_add map_append map_replicate append_assoc)
  let ?full = "?a @ replicate (31 - length ?a) 0"
  let ?xs = "replicate (32 - max 31 (length ?a)) None @ replicate r None"
  have "length ?full \<noteq> 0" by simp
  then obtain x bs where p: "?full = x # bs" by (cases ?full) simp_all
  let ?b = "\<lparr>bt_event = None, bt_len = 35, bt_offset = 0, bt_data = map Some (put16 (core_opcode op) @ 32 # x # bs) @ ?xs\<rparr>"
  have data: "bt_data ?b = map Some hd @ adv_params n p @ replicate r None"
    unfolding p [symmetric] adv_params_def Let_def hd_def by simp
  have plen: "length (adv_params n p) = 32" using m by (simp add: adv_params_def Let_def max_def)
  have "ensures (sends_raw E (wire ?b) S) (send_new E B X (Some ?b) S)"
    by (rule raw_sent [OF E X inv refl op])
  moreover have "wire ?b = map Some hd @ adv_params n p"
    unfolding wire_def data using plen hdl by simp
  moreover have "hci_cmd E 35 0 ([UINT16_TO_STREAM E (core_opcode op), UINT8_TO_STREAM E 32, memset_stream 0 31] @ adv_payload E 31 n p) =
      Some \<lparr>bt_event = None, bt_len = 35, bt_offset = 0, bt_data = map Some hd @ adv_params n p @ replicate r None\<rparr>"
    using run by (simp add: hci_cmd_def hdrs_okD [OF E] rr del: run_stream.simps)
  moreover have "?b = \<lparr>bt_event = None, bt_len = 35, bt_offset = 0, bt_data = map Some hd @ adv_params n p @ replicate r None\<rparr>"
    using data by (simp only: bt_hdr.simps)
  ultimately show ?thesis by (simp only: hd_def)
qed

lemma adv_data_sent:
  assumes E: "hdrs_ok E" and X: "accepting X" and inv: "hinv E (hci S)" and d: "\<And>d. p = Some d \<Longrightarrow> unat n \<le> length d"
  shows "ensures (sends_raw E (map Some (put16 0x2008 @ [32]) @ adv_params n p) S) (btsnd_hcic_ble_set_adv_data E B X n p S)"
    "ensures (sends_raw E (map Some (put16 0x2009 @ [32]) @ adv_params n p) S) (btsnd_hcic_ble_set_scan_rsp_data E B X n p S)"
  using adv_sent [OF E X inv d, where op = HCI_BLE_WRITE_ADV_DATA and B = B]
    adv_sent [OF E X inv d, where op = HCI_BLE_WRITE_SCAN_RSP_DATA and B = B]
  by (simp_all add: btsnd_hcic_ble_set_adv_data_def btsnd_hcic_ble_set_scan_rsp_data_def hdrs_okD [OF E] log_need_def)

end
