(* ===== verification/Ble_Props.thy ===== *)
theory Ble_Props
  imports Hci_Ble_Spec Hci_Props
begin

text \<open>
  The properties of the LE command writers and of command callbacks: what reaches the controller
  decodes to the arguments, except for three writers that leave a byte unwritten; callbacks run once;
  random numbers come whole or not at all.
\<close>

section \<open>A concrete stack\<close>

definition demo_btu_ext :: btu_ext where
  "demo_btu_ext = \<lparr>ble_privacy_spt = True, btm_identity_addr_to_random_pseudo = \<lambda>a _. (False, a),
     btm_ble_is_resolve_bda = \<lambda>_. False, do_in_main_thread = \<lambda>_. True\<rparr>"

definition demo_btu :: btu_state where
  "demo_btu = \<lparr>hci = demo_started, metrics = [], wrappers = Map.empty, main_tasks = [], cb_runs = [], octet8_runs = []\<rparr>"

lemma demo_btu_inv: "hinv core_hdrs (hci demo_btu)"
  using started_inv [OF demo_started_ok] by (simp add: demo_btu_def)

section \<open>Commands\<close>

text \<open>C27: What an LE command writer sends decodes to its arguments. This holds for the forty writers of
  the table \<open>ble_command\<close>: all that send a command but the two that set the advertising and the scan
  response data, whose last byte may be unwritten (C28), and the one that sets the locally used features,
  whose packet has no length byte (C29). Each succeeds when the HCI layer accepts commands, and the packet it built is the last in the
  line of commands: all its bytes were written, and a decoder of the Core Specification that checks
  the opcode and the length byte reads back exactly the fields the writer was called with, groups per
  PHY and padded keys included.\<close>

theorem ble_command_decodes:
  assumes "hdrs_ok E" "accepting X" "hinv E (hci S)" "ble_command E B X f op fs"
  shows "\<exists>T b bs. f S = Some T \<and> hinv E (hci T) \<and> bufs (hci T) (next_ptr (hci S)) = Some b \<and>
    released (hci T) @ line_pkts (hci T) = released (hci S) @ line_pkts (hci S) @ [next_ptr (hci S)] \<and>
    wire b = map Some bs \<and> decode_cmd op bs = Some fs"
  using ble_sent [OF assms] decode_enc_cmd [of op fs] by (fastforce simp: ensures_def sends_def sent_def wire_def)

theorem ble_command_decodes_witness:
  "\<exists>T b bs. btsnd_hcic_ble_set_scan_params core_hdrs demo_btu_ext demo_ext 1 0x60 0x30 0 0 demo_btu = Some T \<and>
    bufs (hci T) 2 = Some b \<and> wire b = map Some bs \<and>
    decode_cmd HCI_BLE_WRITE_SCAN_PARAMS bs = Some [U8 1, U16 0x60, U16 0x30, U8 0, U8 0]"
proof -
  have "ble_command core_hdrs demo_btu_ext demo_ext (btsnd_hcic_ble_set_scan_params core_hdrs demo_btu_ext demo_ext 1 0x60 0x30 0 0)
      HCI_BLE_WRITE_SCAN_PARAMS [U8 1, U16 0x60, U16 0x30, U8 0, U8 0]"
    by (rule ble_command.set_scan_params)
  from ble_command_decodes [OF core_hdrs_ok demo_accepting demo_btu_inv this]
  show ?thesis by (auto simp: demo_btu_def demo_started_def)
qed

text \<open>C28: Setting the advertising or scan response data sends an unwritten byte unless the payload
  fills the command. The packet is the opcode, the length 32 and 32 parameter bytes, the first of them
  the length of the payload, and its last byte is initialised only when a payload of at least 31 bytes
  was passed.\<close>

theorem adv_data_last_byte:
  assumes "hdrs_ok E" "accepting X" "hinv E (hci S)" "\<And>d. p_data = Some d \<Longrightarrow> unat data_len \<le> length d"
    and "f = btsnd_hcic_ble_set_adv_data E B X data_len p_data \<and> op = HCI_BLE_WRITE_ADV_DATA \<or>
         f = btsnd_hcic_ble_set_scan_rsp_data E B X data_len p_data \<and> op = HCI_BLE_WRITE_SCAN_RSP_DATA"
  shows "\<exists>T b. f S = Some T \<and> bufs (hci T) (next_ptr (hci S)) = Some b \<and>
    wire b = map Some (put16 (core_opcode op) @ [32]) @ adv_params data_len p_data \<and> length (wire b) = 35 \<and>
    (initialised (wire b) \<longleftrightarrow> (\<exists>d. p_data = Some d) \<and> 31 \<le> unat data_len)"
proof -
  have len: "length (adv_params data_len p_data) = 32"
    using adv_bytes_le [of data_len p_data] by (simp add: adv_params_def Let_def max_def)
  have "length (adv_bytes data_len p_data) = 32 \<longleftrightarrow> (\<exists>d. p_data = Some d) \<and> 31 \<le> unat data_len"
    using assms(4) by (auto simp: adv_bytes_def unat_eq_0 split: option.split)
  moreover have "None \<in> set (adv_params data_len p_data) \<longleftrightarrow> length (adv_bytes data_len p_data) \<noteq> 32"
    using adv_bytes_le [of data_len p_data] by (auto simp: adv_params_def Let_def)
  ultimately have init: "initialised (map Some (put16 (core_opcode op) @ [32]) @ adv_params data_len p_data) \<longleftrightarrow>
      (\<exists>d. p_data = Some d) \<and> 31 \<le> unat data_len"
    by (simp add: initialised_def image_iff)
  have "ensures (sends_raw E (map Some (put16 (core_opcode op) @ [32]) @ adv_params data_len p_data) S) (f S)"
    using assms(5) adv_data_sent [OF assms(1-4), where B = B] by auto
  then obtain T b where "f S = Some T" "sent E b S T" "wire b = map Some (put16 (core_opcode op) @ [32]) @ adv_params data_len p_data"
    by (auto simp: ensures_def sends_raw_def)
  then show ?thesis using len init
    by (intro exI [of _ T] exI [of _ "b\<lparr>bt_event := Some (hci_word E MSG_STACK_TO_HC_HCI_CMD)\<rparr>"]) (simp add: sent_def wire_def)
qed

theorem adv_data_last_byte_witness:
  "\<exists>T b. btsnd_hcic_ble_set_adv_data core_hdrs demo_btu_ext demo_ext 3 (Some [2, 1, 6]) demo_btu = Some T \<and>
    bufs (hci T) 2 = Some b \<and> wire b = map Some ([0x08, 0x20, 32, 3, 2, 1, 6] @ replicate 27 0) @ [None]"
proof -
  have p: "adv_params 3 (Some [2, 1, 6]) = map Some ([3, 2, 1, 6] @ replicate 27 0) @ [None]"
    by (simp add: adv_params_def adv_bytes_def)
  have o: "put16 0x2008 = [0x08, 0x20]" by (simp add: put16_def)
  show ?thesis
    using adv_data_last_byte [OF core_hdrs_ok demo_accepting demo_btu_inv, of "Some [2, 1, 6]" 3
        "btsnd_hcic_ble_set_adv_data core_hdrs demo_btu_ext demo_ext 3 (Some [2, 1, 6])" demo_btu_ext HCI_BLE_WRITE_ADV_DATA]
    by (auto simp: p o demo_btu_def demo_started_def)
qed

text \<open>C29: The command that sets the locally used LE features has no length byte. Its eleven bytes are
the opcode, the eight feature bytes where the length belongs, and one byte that was never written;
  whatever that byte happens to hold, no decoder accepts the packet when the first feature byte is
  not the length by chance.\<close>

theorem used_feat_malformed:
  assumes "hdrs_ok E" "accepting X" "hinv E (hci S)" "length feat_set = 8" "feat_set ! 0 \<noteq> 8"
  shows "\<exists>T b. btsnd_hcic_ble_set_local_used_feat E B X feat_set S = Some T \<and>
    bufs (hci T) (next_ptr (hci S)) = Some b \<and> wire b = map Some (put16 0x2004 @ feat_set) @ [None] \<and>
    (\<forall>x. decode_cmd HCI_BLE_WRITE_LOCAL_SPT_FEAT (put16 0x2004 @ feat_set @ [x]) = None)"
proof -
  obtain y bs where f: "feat_set = y # bs" using assms(4) by (cases feat_set) auto
  then have "unat y \<noteq> 8" using assms(5) by (simp add: word_unat_eq_iff)
  then have "\<forall>x. decode_cmd HCI_BLE_WRITE_LOCAL_SPT_FEAT (put16 0x2004 @ feat_set @ [x]) = None"
    using assms(4) by (simp add: f decode_cmd_def nth_append)
  then show ?thesis using used_feat_sent [OF assms(1-4), where B = B] by (fastforce simp: ensures_def sends_raw_def sent_def wire_def)
qed

theorem used_feat_malformed_witness:
  "\<exists>T b. btsnd_hcic_ble_set_local_used_feat core_hdrs demo_btu_ext demo_ext [1, 0, 0, 0, 0, 0, 0, 0] demo_btu = Some T \<and>
    bufs (hci T) 2 = Some b \<and> \<not> initialised (wire b)"
  using used_feat_malformed [OF core_hdrs_ok demo_accepting demo_btu_inv, of "[1, 0, 0, 0, 0, 0, 0, 0]" demo_btu_ext]
  by (auto simp: demo_btu_def demo_started_def initialised_def)

section \<open>Random numbers and callbacks\<close>

text \<open>C30: Random numbers come whole or not at all. When the answer to LE Rand is processed, the
  caller's callback either does not run, or runs once with exactly eight bytes: those that follow a
  success status in an answer of at least nine bytes, or eight bytes read from the host's generator.
  A short answer, an error status and a short read never reach it as zeros.\<close>

theorem ble_rand_whole:
  assumes "hdrs_ok E" "ble_rand_complete E urandom cb param param_len S = Some T"
  shows "T = S \<or> (\<exists>bs. T = S\<lparr>octet8_runs := octet8_runs S @ [(cb, bs)]\<rparr> \<and> length bs = 8 \<and>
    (urandom = Some (Some bs) \<or> 9 \<le> unat param_len \<and> (\<exists>rest. param = 0 # bs @ rest)))"
proof -
  have host: "T = S \<or> (\<exists>bs. T = S\<lparr>octet8_runs := octet8_runs S @ [(cb, bs)]\<rparr> \<and> length bs = 8 \<and> urandom = Some (Some bs))"
    if "btsnd_hcic_ble_rand_from_host E urandom cb S = Some T"
    using that by (auto simp: btsnd_hcic_ble_rand_from_host_def Let_def hdrs_okD [OF assms(1)] split: option.splits if_splits)
  consider (host) "btsnd_hcic_ble_rand_from_host E urandom cb S = Some T"
    | (controller) "9 \<le> unat param_len" "param \<noteq> []" "param ! 0 = 0" "9 \<le> length param"
        "T = S\<lparr>octet8_runs := octet8_runs S @ [(cb, take 8 (drop 1 param))]\<rparr>"
    using assms(2) by (auto simp: ble_rand_complete_def Let_def hdrs_okD [OF assms(1)] split: if_splits)
  then show ?thesis
  proof cases
    case host
    then show ?thesis using \<open>btsnd_hcic_ble_rand_from_host E urandom cb S = Some T \<Longrightarrow> _\<close> by blast
  next
    case controller
    then have "param = 0 # take 8 (drop 1 param) @ drop 9 param"
      by (cases param) simp_all
    then show ?thesis using controller by (intro disjI2 exI [of _ "take 8 (drop 1 param)"]) auto
  qed
qed

theorem ble_rand_whole_witness:
  "ble_rand_complete core_hdrs None 7 [0, 1, 2, 3, 4, 5, 6, 7, 8] 9 demo_btu = Some (demo_btu\<lparr>octet8_runs := [(7, [1, 2, 3, 4, 5, 6, 7, 8])]\<rparr>) \<and>
   ble_rand_complete core_hdrs (Some (Some [1, 2, 3])) 7 [1] 1 demo_btu = Some demo_btu"
proof -
  have r: "ble_rand_complete core_hdrs None 7 [0, 1, 2, 3, 4, 5, 6, 7, 8] 9 demo_btu = Some (demo_btu\<lparr>octet8_runs := [(7, [1, 2, 3, 4, 5, 6, 7, 8])]\<rparr>)"
    by (simp add: ble_rand_complete_def core_hdrs_def demo_btu_def)
  have [simp]: "octet8_runs demo_btu = []" by (simp add: demo_btu_def)
  from ble_rand_whole [OF core_hdrs_ok r] show ?thesis
    by (simp add: r ble_rand_complete_def btsnd_hcic_ble_rand_from_host_def core_hdrs_def)
qed

text \<open>
  An entry of the HCI layer that was made by \<open>btu_hcif_send_cmd_with_cb\<close> for the callback \<open>cb\<close>, with
  its wrapper.
\<close>

definition cb_entry :: "btu_state \<Rightarrow> ptr \<Rightarrow> waiting_command \<Rightarrow> ptr \<Rightarrow> hci_cmd_cb \<Rightarrow> bool" where
  "cb_entry S v e w cb \<longleftrightarrow> waits (hci S) v = Some e \<and> wc_complete_callback e = Some Btu_hcif_command_complete_evt_with_cb \<and>
     wc_status_callback e = Some Btu_hcif_command_status_evt_with_cb \<and> wc_context e = Some w \<and> wrappers S w = Some cb"

lemma log_complete_le:
  assumes "hdrs_ok E" "\<exists>x. rd8 b p = Some x"
  shows "\<exists>ms. btu_hcif_log_command_complete_metrics E (core_opcode op) b p = Some ms"
proof -
  have n: "(core_opcode op \<in> set (map (hci_br_opcode E) ops)) = False" for ops
    using br_not_le [of op] by (auto simp: hdrs_okD [OF assms(1)])
  show ?thesis unfolding btu_hcif_log_command_complete_metrics_def Let_def n if_False using assms(2) by auto
qed

text \<open>A stack that has sent \<open>LE Clear White List\<close> with a callback, and the events that answer it.\<close>

definition demo_clear :: bt_hdr where
  "demo_clear = \<lparr>bt_event = None, bt_len = 3, bt_offset = 0, bt_data = map Some [0x10, 0x20, 0]\<rparr>"

definition demo_cleared :: bt_hdr where
  "demo_cleared = \<lparr>bt_event = Some 0x1000, bt_len = 6, bt_offset = 0, bt_data = map Some [0x0E, 4, 1, 0x10, 0x20, 0]\<rparr>"

definition demo_clear_status :: "u8 \<Rightarrow> bt_hdr" where
  "demo_clear_status st = \<lparr>bt_event = Some 0x1000, bt_len = 6, bt_offset = 0, bt_data = map Some [0x0F, 4, st, 1, 0x10, 0x20]\<rparr>"

definition demo_entry :: waiting_command where
  "demo_entry = \<lparr>wc_opcode = 0x2010, wc_complete_future = None, wc_complete_callback = Some Btu_hcif_command_complete_evt_with_cb,
     wc_status_callback = Some Btu_hcif_command_status_evt_with_cb, wc_context = Some 9, wc_command = 2, wc_timestamp = 0\<rparr>"

definition demo_asked :: "bt_hdr \<Rightarrow> btu_state" where
  "demo_asked ev = demo_btu\<lparr>wrappers := [9 \<mapsto> Client_cb 1], hci := hci_layer_init\<lparr>next_ptr := 5,
     bufs := [2 \<mapsto> demo_clear\<lparr>bt_event := Some 0x2000\<rparr>, 4 \<mapsto> ev], waits := [3 \<mapsto> demo_entry],
     command_credits := 0, commands_pending_response := Some [3], thread_tasks := [],
     command_response_timer := Some (Some 3), startup_timer := Some (Some 2900), startup_future := Some 1,
     outbox := [Dispatch_command 2]\<rparr>\<rparr>"

definition demo_ask :: "bt_hdr \<Rightarrow> hci_call list" where
  "demo_ask ev = [Call_new demo_clear, Call_transmit 2 (Some Btu_hcif_command_complete_evt_with_cb)
     (Some Btu_hcif_command_status_evt_with_cb) (Some 9), Call_run_task, Call_run_task, Call_new ev]"

lemma demo_clear_op: "(ucast (0x10 :: u8) OR push_bit 8 (ucast (0x20 :: u8)) :: u16) = 0x2010"
  by code_simp

lemma demo_asked_inv: "hinv core_hdrs (hci (demo_asked ev))"
proof -
  have run: "run_calls (hci_exec core_hdrs demo_ext) (demo_ask ev) demo_started = Some (hci (demo_asked ev))"
    by (simp add: demo_ask_def demo_asked_def demo_clear_def demo_entry_def demo_defs call_defs demo_clear_op Let_def)
  have ok: "allowed_run (hci_exec core_hdrs demo_ext) hci_allowed (demo_ask ev) demo_started"
    by (simp add: demo_ask_def demo_clear_def demo_defs call_defs allowed_defs demo_clear_op Let_def numeral_eq_Suc)
  have "ensures (running_inv core_hdrs) (run_calls (hci_exec core_hdrs demo_ext) (demo_ask ev) demo_started)"
    by (rule hci.run_safe [OF _ ok]) (simp add: running_inv_def started_inv [OF demo_started_ok])
  then show ?thesis by (simp add: run running_inv_def ensures_simps)
qed

lemma demo_asked_simps [simp]:
  "bufs (hci (demo_asked ev)) 4 = Some ev" "bufs (hci (demo_asked ev)) 2 = Some (demo_clear\<lparr>bt_event := Some 0x2000\<rparr>)"
  "waiting_for core_hdrs 0x2010 (hci (demo_asked ev)) = Some 3" "cb_entry (demo_asked ev) 3 demo_entry 9 (Client_cb 1)"
  "cb_runs (demo_asked ev) = []" "main_tasks (demo_asked ev) = []" "wc_command demo_entry = 2"
  by (simp_all add: demo_asked_def demo_entry_def waiting_for_def pending_def op_of_def cb_entry_def demo_btu_def)

lemma demo_main: "do_in_main_thread demo_btu_ext = (\<lambda>_. True)"
  by (simp add: demo_btu_ext_def)

lemma all_less_3: "(\<forall>i<3. P i) \<longleftrightarrow> P 0 \<and> P 1 \<and> P (2 :: nat)"
  using less_Suc_eq by (auto simp: numeral_3_eq_3 numeral_2_eq_2 less_Suc_eq)

lemma demo_event_ok:
  "event_reads ev \<le> length (bt_data ev) \<Longrightarrow> initialised (take (event_reads ev) (bt_data ev)) \<Longrightarrow> event_ok (hci (demo_asked ev)) 4"
  by (simp add: event_ok_def) (simp add: demo_asked_def demo_entry_def demo_defs cmds_def held_waits_def cmd_line_def pending_def cmd_ptr_def)

text \<open>C31: The answer to a command runs its callback once. When a command complete event with a status
  byte answers an LE command that was sent with a callback, the HCI layer calls back with the event and the wrapper, the
  call posts one task to the main thread, and that task runs the callback exactly once, with the bytes
  behind the two headers and their length, then frees the wrapper and the event, so that the same task
  can not run it again.\<close>

theorem answer_runs_callback:
  assumes hdr: "hdrs_ok E" and inv: "hinv E (hci S)" and ev: "event_ok (hci S) packet" and b: "bufs (hci S) packet = Some b" "bt_offset b = 0"
    and code: "rd8 b 0 = Some 0x0E" and op: "rd16 E b 3 = Some (core_opcode op)" and st: "rd8 b 5 = Some status"
    and v: "waiting_for E (core_opcode op) (hci S) = Some v" and e: "cb_entry S v e w (Client_cb k)" and main: "do_in_main_thread B = (\<lambda>_. True)"
  shows "\<exists>T U V. hci_event_received E X packet (hci S) = Some T \<and>
    outbox T = outbox (hci S) @ [Complete_call Btu_hcif_command_complete_evt_with_cb packet (Some w)] \<and>
    deliver_handed B (last (outbox T)) (S\<lparr>hci := T\<rparr>) = Some U \<and>
    main_tasks U = main_tasks S @ [Command_complete_with_cb_on_task packet (Some w)] \<and> cb_runs U = cb_runs S \<and>
    btu_hcif_command_complete_evt_with_cb_on_task E (run_hci_cmd_cb E urandom) packet (Some w) U = Some V \<and>
    cb_runs V = cb_runs S @ [\<lparr>run_cb = Client_cb k, run_bytes = return_params b, run_len = bt_len b - 5\<rparr>] \<and>
    wrappers V = (wrappers S)(w := None) \<and> bufs (hci V) packet = None \<and>
    btu_hcif_command_complete_evt_with_cb_on_task E (run_hci_cmd_cb E urandom) packet (Some w) V = None"
proof -
  have p: "packet \<notin> cmds (hci S)" using ev by (simp add: event_ok_def)
  have n: "event_reads b = 5" using code by (simp add: event_reads_def)
  have r: "\<And>i. i < 5 \<Longrightarrow> \<exists>x. rd8 b i = Some x" by (rule event_okE [OF ev]) (use b n in auto)
  have c: "packet \<noteq> wc_command e" using waiting_cmd [OF inv v] e p by (auto simp: cb_entry_def)
  from r [of 2] obtain cr where rd: "rd8 b 2 = Some cr" by auto
  obtain T where T: "hci_event_received E X packet (hci S) = Some T"
      "outbox T = outbox (hci S) @ [Complete_call Btu_hcif_command_complete_evt_with_cb packet (Some w)]" "bufs T packet = Some b"
    using complete_event_ok [OF inv b(1) p rd op, of X] b code v e c
    by (auto simp: hci_event_received_def filter_incoming_event_def hdrs_okD [OF hdr] answered_def cb_entry_def deliver_complete_def freed_complete_def)
  obtain ms where ms: "btu_hcif_log_command_complete_metrics E (core_opcode op) b 5 = Some ms"
    using log_complete_le [OF hdr] st by blast
  show ?thesis using T ms op b e main
    by (simp add: btu_hcif_command_complete_evt_with_cb_def post_main_def btu_hcif_command_complete_evt_with_cb_on_task_def
        run_callback_def cmd_with_cb_data_cleanup_def osi_free_event_def free_buf_def cb_entry_def)
qed

theorem answer_runs_callback_witness:
  "\<exists>T U V. hci_event_received core_hdrs demo_ext 4 (hci (demo_asked demo_cleared)) = Some T \<and>
     outbox T = [Dispatch_command 2, Complete_call Btu_hcif_command_complete_evt_with_cb 4 (Some 9)] \<and>
     deliver_handed demo_btu_ext (last (outbox T)) ((demo_asked demo_cleared)\<lparr>hci := T\<rparr>) = Some U \<and>
     btu_hcif_command_complete_evt_with_cb_on_task core_hdrs (run_hci_cmd_cb core_hdrs None) 4 (Some 9) U = Some V \<and>
     cb_runs V = [\<lparr>run_cb = Client_cb 1, run_bytes = [0], run_len = 1\<rparr>]"
proof -
  have b: "bt_offset demo_cleared = 0" "rd8 demo_cleared 0 = Some 0x0E" "rd16 core_hdrs demo_cleared 3 = Some (core_opcode HCI_BLE_CLEAR_WHITE_LIST)"
    "rd8 demo_cleared 5 = Some 0"
    "bt_len demo_cleared - 5 = 1" "return_params demo_cleared = [0]"
    by (simp_all add: demo_cleared_def rd8_def rd16_def core_hdrs_def demo_clear_op return_params_def)
  have v: "waiting_for core_hdrs (core_opcode HCI_BLE_CLEAR_WHITE_LIST) (hci (demo_asked demo_cleared)) = Some 3" by simp
  have ob: "outbox (hci (demo_asked demo_cleared)) = [Dispatch_command 2]" by (simp add: demo_asked_def)
  have ev: "event_ok (hci (demo_asked demo_cleared)) 4" by (rule demo_event_ok) (simp_all add: demo_cleared_def initialised_def event_reads_def rd8_def)
  show ?thesis
    using answer_runs_callback [OF core_hdrs_ok demo_asked_inv ev demo_asked_simps(1) b(1-4) v demo_asked_simps(4) demo_main, of demo_ext None]
    by (auto simp: ob b(5,6))
qed

text \<open>C32: A failed command status runs the callback too. When the controller refuses an LE command
  that was sent with a callback, the main thread runs the callback once, with the status as its only
  byte while it is told a length of two, and frees the wrapper and the command packet.\<close>

theorem status_error_runs_callback:
  assumes hdr: "hdrs_ok E" and inv: "hinv E (hci S)" and ev: "event_ok (hci S) packet" and b: "bufs (hci S) packet = Some b"
    and code: "rd8 b 0 = Some 0x0F" "rd8 b 2 = Some status" "status \<noteq> 0" and op: "rd16 E b 4 = Some (core_opcode op)"
    and v: "waiting_for E (core_opcode op) (hci S) = Some v" and e: "cb_entry S v e w (Client_cb k)" and main: "do_in_main_thread B = (\<lambda>_. True)"
    and cmd: "bufs (hci S) (wc_command e) = Some c" "rd16 E c (unat (bt_offset c)) = Some (core_opcode op)"
      "readable c (unat (bt_offset c) + 3 + log_need op)"
  shows "\<exists>T U V. hci_event_received E X packet (hci S) = Some T \<and>
    outbox T = outbox (hci S) @ [Status_call Btu_hcif_command_status_evt_with_cb status (wc_command e) (Some w)] \<and>
    deliver_handed B (last (outbox T)) (S\<lparr>hci := T\<rparr>) = Some U \<and>
    main_tasks U = main_tasks S @ [Command_status_with_cb_on_task status (wc_command e) (Some w)] \<and>
    btu_hcif_command_status_evt_with_cb_on_task E B (run_hci_cmd_cb E urandom) status (wc_command e) (Some w) U = Some V \<and>
    cb_runs V = cb_runs S @ [\<lparr>run_cb = Client_cb k, run_bytes = [status], run_len = 2\<rparr>] \<and>
    wrappers V = (wrappers S)(w := None) \<and> bufs (hci V) (wc_command e) = None"
proof -
  have p: "packet \<notin> cmds (hci S)" using ev by (simp add: event_ok_def)
  have n: "event_reads b = 6" using code by (simp add: event_reads_def)
  have r: "\<And>i. i < 6 \<Longrightarrow> \<exists>x. rd8 b i = Some x" by (rule event_okE [OF ev]) (use b n in auto)
  have pc: "packet \<noteq> wc_command e" using waiting_cmd [OF inv v] e p by (auto simp: cb_entry_def)
  from r [of 3] obtain cr where rd: "rd8 b 3 = Some cr" by auto
  obtain T where T: "hci_event_received E X packet (hci S) = Some T"
      "outbox T = outbox (hci S) @ [Status_call Btu_hcif_command_status_evt_with_cb status (wc_command e) (Some w)]" "bufs T (wc_command e) = Some c"
    using status_event_ok [OF inv b p code(2) rd op, of X] b code v e cmd pc
    by (auto simp: hci_event_received_def filter_incoming_event_def hdrs_okD [OF hdr] answered_def cb_entry_def deliver_status_def freed_status_def)
  obtain ms where ms: "btu_hcif_log_command_metrics E B (core_opcode op) c (unat (bt_offset c) + 3) (ucast status) True = Some ms"
    using log_le_ok [OF hdr cmd(3)] by blast
  show ?thesis using T ms cmd b e main code(3)
    by (simp add: btu_hcif_command_status_evt_with_cb_def post_main_def btu_hcif_command_status_evt_with_cb_on_task_def
        run_callback_def cmd_with_cb_data_cleanup_def osi_free_event_def free_buf_def cb_entry_def)
qed

theorem status_error_runs_callback_witness:
  "\<exists>T U V. hci_event_received core_hdrs demo_ext 4 (hci (demo_asked (demo_clear_status 1))) = Some T \<and>
     outbox T = [Dispatch_command 2, Status_call Btu_hcif_command_status_evt_with_cb 1 2 (Some 9)] \<and>
     deliver_handed demo_btu_ext (last (outbox T)) ((demo_asked (demo_clear_status 1))\<lparr>hci := T\<rparr>) = Some U \<and>
     btu_hcif_command_status_evt_with_cb_on_task core_hdrs demo_btu_ext (run_hci_cmd_cb core_hdrs None) 1 2 (Some 9) U = Some V \<and>
     cb_runs V = [\<lparr>run_cb = Client_cb 1, run_bytes = [1], run_len = 2\<rparr>]"
proof -
  let ?ev = "demo_clear_status 1" and ?c = "demo_clear\<lparr>bt_event := Some 0x2000\<rparr>"
  have b: "rd8 ?ev 0 = Some 0x0F" "rd8 ?ev 2 = Some 1" "(1 :: u8) \<noteq> 0" "rd16 core_hdrs ?ev 4 = Some (core_opcode HCI_BLE_CLEAR_WHITE_LIST)"
    by (simp_all add: demo_clear_status_def rd8_def rd16_def core_hdrs_def demo_clear_op)
  have c: "bufs (hci (demo_asked ?ev)) (wc_command demo_entry) = Some ?c" "rd16 core_hdrs ?c (unat (bt_offset ?c)) = Some (core_opcode HCI_BLE_CLEAR_WHITE_LIST)"
    "readable ?c (unat (bt_offset ?c) + 3 + log_need HCI_BLE_CLEAR_WHITE_LIST)"
    by (simp_all add: demo_clear_def rd8_def rd16_def core_hdrs_def demo_clear_op readable_def log_need_def all_less_3)
  have v: "waiting_for core_hdrs (core_opcode HCI_BLE_CLEAR_WHITE_LIST) (hci (demo_asked ?ev)) = Some 3" by simp
  have ob: "outbox (hci (demo_asked ?ev)) = [Dispatch_command 2]" by (simp add: demo_asked_def)
  have ev: "event_ok (hci (demo_asked ?ev)) 4" by (rule demo_event_ok) (simp_all add: demo_clear_status_def initialised_def event_reads_def rd8_def)
  show ?thesis
    using status_error_runs_callback [OF core_hdrs_ok demo_asked_inv ev demo_asked_simps(1) b v demo_asked_simps(4) demo_main c, of demo_ext None]
    by (auto simp: ob)
qed

text \<open>C33: A successful command status loses the callback. When the controller answers an LE command
  that was sent with a callback with a command status of success, the HCI layer forgets the entry and
  the callback's wrapper stays allocated, but no task is posted: nothing refers to the wrapper any more
  and the callback never runs.\<close>

theorem status_success_loses_callback:
  assumes hdr: "hdrs_ok E" and inv: "hinv E (hci S)" and ev: "event_ok (hci S) packet" and b: "bufs (hci S) packet = Some b"
    and code: "rd8 b 0 = Some 0x0F" "rd8 b 2 = Some 0" and op: "rd16 E b 4 = Some opcode"
    and v: "waiting_for E opcode (hci S) = Some v" and e: "cb_entry S v e w cb"
  shows "\<exists>T U. hci_event_received E X packet (hci S) = Some T \<and> waits T v = None \<and>
    deliver_handed B (last (outbox T)) (S\<lparr>hci := T\<rparr>) = Some U \<and> bufs (hci U) (wc_command e) = None \<and>
    wrappers U w = Some cb \<and> main_tasks U = main_tasks S \<and> cb_runs U = cb_runs S"
proof -
  have p: "packet \<notin> cmds (hci S)" using ev by (simp add: event_ok_def)
  have n: "event_reads b = 6" using code by (simp add: event_reads_def)
  have r: "\<And>i. i < 6 \<Longrightarrow> \<exists>x. rd8 b i = Some x" by (rule event_okE [OF ev]) (use b n in auto)
  have vh: "v \<in> set (held_waits (hci S))" using waiting_for_pending [OF v] by (simp add: held_waits_def)
  obtain c where c: "bufs (hci S) (wc_command e) = Some c"
    by (rule ownsE [OF hinvD(1) [OF inv] vh]) (use e in \<open>auto simp: cb_entry_def\<close>)
  have pc: "packet \<noteq> wc_command e" using waiting_cmd [OF inv v] e p by (auto simp: cb_entry_def)
  from r [of 3] obtain cr where rd: "rd8 b 3 = Some cr" by auto
  obtain T where T: "hci_event_received E X packet (hci S) = Some T" "waits T v = None"
      "outbox T = outbox (hci S) @ [Status_call Btu_hcif_command_status_evt_with_cb 0 (wc_command e) (Some w)]" "bufs T (wc_command e) = Some c"
    using status_event_ok [OF inv b p code(2) rd op, of X] b code v e c pc
    by (auto simp: hci_event_received_def filter_incoming_event_def hdrs_okD [OF hdr] answered_def cb_entry_def deliver_status_def freed_status_def)
  then show ?thesis using e
    by (simp add: btu_hcif_command_status_evt_with_cb_def osi_free_event_def free_buf_def cb_entry_def)
qed

theorem status_success_loses_callback_witness:
  "\<exists>T U. hci_event_received core_hdrs demo_ext 4 (hci (demo_asked (demo_clear_status 0))) = Some T \<and>
     deliver_handed demo_btu_ext (last (outbox T)) ((demo_asked (demo_clear_status 0))\<lparr>hci := T\<rparr>) = Some U \<and>
     wrappers U 9 = Some (Client_cb 1) \<and> main_tasks U = []"
proof -
  let ?ev = "demo_clear_status 0"
  have b: "rd8 ?ev 0 = Some 0x0F" "rd8 ?ev 2 = Some 0" "rd16 core_hdrs ?ev 4 = Some 0x2010"
    by (simp_all add: demo_clear_status_def rd8_def rd16_def core_hdrs_def demo_clear_op)
  have ev: "event_ok (hci (demo_asked ?ev)) 4" by (rule demo_event_ok) (simp_all add: demo_clear_status_def initialised_def event_reads_def rd8_def)
  show ?thesis
    using status_success_loses_callback [OF core_hdrs_ok demo_asked_inv ev demo_asked_simps(1) b demo_asked_simps(3,4), of demo_ext demo_btu_ext]
    by auto
qed

end
