(* ===== verification/Btu_Events.thy ===== *)
theory Btu_Events
  imports Btu_Hcif
begin

text \<open>
  The receiving half of \<open>btu_hcif.cc\<close>: the dispatch of controller events and of the answers to
  commands without a callback. Every handler reads its parameters at the cursor \<open>p\<close> and calls into
  the stack; those functions are outside the repository, so a call is a value of \<open>btm_call\<close> and a
  handler yields the calls it makes, in order. A cursor that is passed on is a position in the packet.
  Reading past the packet is a fault.
\<close>

section \<open>Vocabulary\<close>

datatype (plugins only: code) hci_evt =
    HCI_INQUIRY_COMP_EVT | HCI_INQUIRY_RESULT_EVT | HCI_CONNECTION_COMP_EVT | HCI_CONNECTION_REQUEST_EVT
  | HCI_DISCONNECTION_COMP_EVT | HCI_AUTHENTICATION_COMP_EVT | HCI_RMT_NAME_REQUEST_COMP_EVT
  | HCI_ENCRYPTION_CHANGE_EVT | HCI_READ_RMT_FEATURES_COMP_EVT | HCI_READ_RMT_VERSION_COMP_EVT
  | HCI_QOS_SETUP_COMP_EVT | HCI_HARDWARE_ERROR_EVT | HCI_FLUSH_OCCURED_EVT | HCI_ROLE_CHANGE_EVT
  | HCI_NUM_COMPL_DATA_PKTS_EVT | HCI_MODE_CHANGE_EVT | HCI_PIN_CODE_REQUEST_EVT | HCI_LINK_KEY_REQUEST_EVT
  | HCI_LINK_KEY_NOTIFICATION_EVT | HCI_LOOPBACK_COMMAND_EVT | HCI_DATA_BUF_OVERFLOW_EVT
  | HCI_MAX_SLOTS_CHANGED_EVT | HCI_READ_CLOCK_OFF_COMP_EVT | HCI_CONN_PKT_TYPE_CHANGE_EVT
  | HCI_QOS_VIOLATION_EVT | HCI_PAGE_SCAN_MODE_CHANGE_EVT | HCI_PAGE_SCAN_REP_MODE_CHNG_EVT
  | HCI_INQUIRY_RSSI_RESULT_EVT | HCI_READ_RMT_EXT_FEATURES_COMP_EVT | HCI_ESCO_CONNECTION_COMP_EVT
  | HCI_ESCO_CONNECTION_CHANGED_EVT | HCI_SNIFF_SUB_RATE_EVT | HCI_EXTENDED_INQUIRY_RESULT_EVT
  | HCI_ENCRYPTION_KEY_REFRESH_COMP_EVT | HCI_IO_CAPABILITY_REQUEST_EVT | HCI_IO_CAPABILITY_RESPONSE_EVT
  | HCI_USER_CONFIRMATION_REQUEST_EVT | HCI_USER_PASSKEY_REQUEST_EVT | HCI_REMOTE_OOB_DATA_REQUEST_EVT
  | HCI_SIMPLE_PAIRING_COMPLETE_EVT | HCI_ENHANCED_FLUSH_COMPLETE_EVT | HCI_USER_PASSKEY_NOTIFY_EVT
  | HCI_KEYPRESS_NOTIFY_EVT | HCI_RMT_HOST_SUP_FEAT_NOTIFY_EVT | HCI_BLE_EVENT

datatype ble_evt =
    HCI_BLE_CONN_COMPLETE_EVT | HCI_BLE_ADV_PKT_RPT_EVT | HCI_BLE_LL_CONN_PARAM_UPD_EVT
  | HCI_BLE_READ_REMOTE_FEAT_CMPL_EVT | HCI_BLE_LTK_REQ_EVT | HCI_BLE_RC_PARAM_REQ_EVT
  | HCI_BLE_DATA_LENGTH_CHANGE_EVT | HCI_BLE_ENHANCED_CONN_COMPLETE_EVT | HCI_BLE_PHY_UPDATE_COMPLETE_EVT
  | HCI_LE_EXTENDED_ADVERTISING_REPORT_EVT | HCI_LE_ADVERTISING_SET_TERMINATED_EVT

datatype evt_byte =
    HCI_ERR_INSUFFCIENT_SECURITY | HCI_ERR_PEER_USER | HCI_ERR_HOST_REJECT_SECURITY
  | HCI_ERR_CONNECTION_TOUT | HCI_ERR_NO_CONNECTION | HCI_ERR_COMMAND_DISALLOWED | HCI_LINK_TYPE_ACL_CODE

datatype evt_word = HCI_INVALID_HANDLE | BTM_INVALID_HCI_HANDLE | CMD_UNKNOWN

text \<open>
  What further headers define (\<open>hcidefs.h\<close>, \<open>bt_types.h\<close>, \<open>btm_int.h\<close>), with the table of minimum
  parameter lengths per event code.
\<close>

record evt_hdrs =
  evt_code :: "hci_evt \<Rightarrow> u8"
  ble_evt_code :: "ble_evt \<Rightarrow> u8"
  evt_byte :: "evt_byte \<Rightarrow> u8"
  evt_word :: "evt_word \<Rightarrow> u16"
  hci_event_parameters_minimum_length :: "u8 \<Rightarrow> u8"
  hcid_get_handle :: "u16 \<Rightarrow> u16"
  stream_to_uint32 :: "bytes \<Rightarrow> u32"
  stream_to_devclass :: "bytes \<Rightarrow> bytes"
  stream_to_array16 :: "bytes \<Rightarrow> bytes"

text \<open>Switches of the build and what the handlers ask of the rest of the stack.\<close>

record btm_ext =
  ble_llt_included :: bool
  btm_ssr_included :: bool
  l2cap_non_flushable_pb_included :: bool
  hid_dev_pm_included :: bool
  btm_is_ble_connection :: "u16 \<Rightarrow> bool"
  supports_read_encryption_key_size :: bool
  supports_ble_packet_extension :: bool
  btm_is_device_up :: bool
  btm_is_sco_active :: "u16 \<Rightarrow> bool"
  btm_sec_is_session_key_size_downgrade :: "u16 \<Rightarrow> u8 \<Rightarrow> bool"

datatype inq_mode = BTM_INQ_RESULT_STANDARD | BTM_INQ_RESULT_WITH_RSSI | BTM_INQ_RESULT_EXTENDED

datatype sp_evt = BTM_SP_CFM_REQ_EVT | BTM_SP_KEY_REQ_EVT | BTM_SP_KEY_NOTIF_EVT

datatype key_size_cb = After_encryption_change | After_key_refresh

record esco_data =
  esco_link_type :: u8
  esco_tx_interval :: u8
  esco_retrans_window :: u8
  esco_rx_pkt_len :: u16
  esco_tx_pkt_len :: u16
  esco_air_mode :: u8
  esco_bd_addr :: raw_address

record flow_spec =
  qos_flags :: u8
  service_type :: u8
  token_rate :: u32
  peak_bandwidth :: u32
  flow_latency :: u32
  delay_variation :: u32

text \<open>
  The calls into the stack. Arguments that are the same in every call are left out: the inquiry mask
  of \<open>btm_process_inq_complete\<close> and the undefined role of a failed role switch.
\<close>

datatype (plugins only: size) btm_call =
    Btm_process_inq_complete u8
  | Btm_process_cancel_complete
  | Btm_process_inq_results nat u8 inq_mode
  | Btm_sec_connected raw_address u16 u8 u8
  | L2c_link_hci_conn_comp u8 u16 raw_address
  | Btm_sco_connected u8 "raw_address option" u16 "esco_data option"
  | Btm_sec_conn_req raw_address bytes
  | Btm_sco_conn_req raw_address bytes u8
  | L2c_link_hci_disc_comp_else_sco_removed u16 u8
  | Btm_sec_disconnected u16 u8
  | Btm_sec_auth_complete u16 u8
  | Btm_process_remote_name "raw_address option" "nat option" u16 u8
  | Btm_sec_rmt_name_request_complete "raw_address option" "nat option" u8
  | Btsnd_hcic_disconnect u16 u8
  | Btm_sec_update_session_key_size u16 u8
  | Btm_acl_encrypt_change u16 u8 u8
  | Btm_sec_encrypt_change u16 u8 u8
  | Btsnd_hcic_read_encryption_key_size u16 key_size_cb
  | Smp_cancel_start_encryption_attempt
  | Btm_read_remote_features_complete nat
  | Btm_read_remote_ext_features_complete nat u8
  | Btm_read_remote_ext_features_failed u8 u16
  | Btm_read_remote_version_complete nat
  | Btm_qos_setup_complete u8 u16 "flow_spec option"
  | Btm_esco_proc_conn_chg u8 u16 u8 u8 u16 u16
  | Btm_report_device_status_down
  | Btm_device_reset
  | Btm_blacklist_role_change_device raw_address u8
  | L2c_link_role_changed "raw_address option" "u8 option" u8
  | Btm_acl_role_changed u8 raw_address "u8 option"
  | L2c_link_process_num_completed_pkts nat u8
  | Btm_sco_chk_pend_unpark u8 u16
  | Btm_pm_proc_mode_change u8 u16 u8 u16
  | Hidd_pm_proc_mode_change u8 u8 u16
  | Btm_pm_proc_ssr_evt nat u8
  | Btm_pm_proc_cmd_status u8
  | L2c_pin_code_request raw_address
  | Btm_sec_pin_code_request raw_address
  | Btm_sec_link_key_request raw_address
  | Btm_sec_link_key_notification raw_address bytes u8
  | Btm_process_clk_off_comp_evt u16 u16
  | Btm_sec_update_clock_offset u16 u16
  | L2c_link_hci_qos_violation u16
  | Btm_sec_rmt_host_support_feat_evt nat
  | Btm_io_capabilities_req raw_address
  | Btm_io_capabilities_rsp nat
  | Btm_proc_sp_req_evt sp_evt nat
  | Btm_keypress_notif_evt nat
  | Btm_rem_oob_req nat
  | Btm_simple_pair_complete nat
  | Btm_ble_process_adv_pkt u8 nat
  | Btm_ble_conn_complete nat u8 bool
  | L2cble_process_conn_update_evt u16 u8 u16 u16 u16
  | Gatt_notify_conn_update u16 u16 u16 u16 u8
  | Btm_ble_read_remote_features_complete nat
  | Btm_ble_ltk_request u16 nat u16
  | L2cble_process_data_length_change_event u16 u16 u16
  | L2cble_process_rc_param_request_evt u16 u16 u16 u16 u16
  | Btm_ble_process_phy_update_pkt u8 nat
  | Btm_ble_process_ext_adv_pkt u8 nat
  | Btm_le_on_advertising_set_terminated nat u8
  | Btm_vendor_specific_evt nat u8
  | Btm_complete u16 nat u16
  | Btm_ble_rand_enc_complete nat u16 "ptr option"
  | Btm_vsc_complete "nat + u8" u16 u16 "ptr option"
  | Btm_ble_create_ll_conn_complete u8

type_synonym handler = "btm_call list option"

section \<open>Classic events\<close>

definition MIN_KEY_SIZE :: u8 where
  "MIN_KEY_SIZE = 7"

definition rd32 :: "evt_hdrs \<Rightarrow> bt_hdr \<Rightarrow> nat \<Rightarrow> u32 option" where
  "rd32 V b p = map_option (stream_to_uint32 V) (rd_bytes b p 4)"

definition rd_devclass :: "evt_hdrs \<Rightarrow> bt_hdr \<Rightarrow> nat \<Rightarrow> bytes option" where
  "rd_devclass V b p = map_option (stream_to_devclass V) (rd_bytes b p 3)"

definition btu_hcif_inquiry_comp_evt :: "bt_hdr \<Rightarrow> nat \<Rightarrow> handler" where
  "btu_hcif_inquiry_comp_evt b p = do { status \<leftarrow> rd8 b p; Some [Btm_process_inq_complete status] }"

definition btu_hcif_inquiry_result_evt :: "nat \<Rightarrow> u8 \<Rightarrow> handler" where
  "btu_hcif_inquiry_result_evt p hci_evt_len = Some [Btm_process_inq_results p hci_evt_len BTM_INQ_RESULT_STANDARD]"

definition btu_hcif_inquiry_rssi_result_evt :: "nat \<Rightarrow> u8 \<Rightarrow> handler" where
  "btu_hcif_inquiry_rssi_result_evt p hci_evt_len = Some [Btm_process_inq_results p hci_evt_len BTM_INQ_RESULT_WITH_RSSI]"

definition btu_hcif_extended_inquiry_result_evt :: "nat \<Rightarrow> u8 \<Rightarrow> handler" where
  "btu_hcif_extended_inquiry_result_evt p hci_evt_len = Some [Btm_process_inq_results p hci_evt_len BTM_INQ_RESULT_EXTENDED]"

definition btu_hcif_connection_comp_evt :: "hci_hdrs \<Rightarrow> evt_hdrs \<Rightarrow> bt_hdr \<Rightarrow> nat \<Rightarrow> u8 \<Rightarrow> handler" where
  "btu_hcif_connection_comp_evt E V b p evt_len =
     (if evt_len < 11 then Some []
      else do {
        status \<leftarrow> rd8 b p;
        handle \<leftarrow> rd16 E b (p + 1);
        bda \<leftarrow> rd_bdaddr E b (p + 3);
        link_type \<leftarrow> rd8 b (p + 9);
        enc_mode \<leftarrow> rd8 b (p + 10);
        let handle = hcid_get_handle V handle;
        Some (if link_type = evt_byte V HCI_LINK_TYPE_ACL_CODE
              then [Btm_sec_connected bda handle status enc_mode, L2c_link_hci_conn_comp status handle bda]
              else [Btm_sco_connected status (Some bda) handle (Some \<lparr>esco_link_type = 0, esco_tx_interval = 0,
                      esco_retrans_window = 0, esco_rx_pkt_len = 0, esco_tx_pkt_len = 0, esco_air_mode = 0, esco_bd_addr = bda\<rparr>)])
      })"

definition btu_hcif_connection_request_evt :: "hci_hdrs \<Rightarrow> evt_hdrs \<Rightarrow> bt_hdr \<Rightarrow> nat \<Rightarrow> handler" where
  "btu_hcif_connection_request_evt E V b p = do {
     bda \<leftarrow> rd_bdaddr E b p;
     dc \<leftarrow> rd_devclass V b (p + 6);
     link_type \<leftarrow> rd8 b (p + 9);
     Some (if link_type = evt_byte V HCI_LINK_TYPE_ACL_CODE then [Btm_sec_conn_req bda dc]
           else [Btm_sco_conn_req bda dc link_type])
   }"

text \<open>The link goes to L2CAP, and to SCO when L2CAP does not know it.\<close>

definition btu_hcif_disconnection_comp_evt :: "hci_hdrs \<Rightarrow> evt_hdrs \<Rightarrow> bt_hdr \<Rightarrow> nat \<Rightarrow> handler" where
  "btu_hcif_disconnection_comp_evt E V b p = do {
     status \<leftarrow> rd8 b p;
     handle \<leftarrow> rd16 E b (p + 1);
     reason \<leftarrow> rd8 b (p + 3);
     let handle = hcid_get_handle V handle;
     Some [L2c_link_hci_disc_comp_else_sco_removed handle reason, Btm_sec_disconnected handle reason]
   }"

definition btu_hcif_authentication_comp_evt :: "hci_hdrs \<Rightarrow> bt_hdr \<Rightarrow> nat \<Rightarrow> handler" where
  "btu_hcif_authentication_comp_evt E b p = do {
     status \<leftarrow> rd8 b p;
     handle \<leftarrow> rd16 E b (p + 1);
     Some [Btm_sec_auth_complete handle status]
   }"

definition btu_hcif_rmt_name_request_comp_evt :: "hci_hdrs \<Rightarrow> bt_hdr \<Rightarrow> nat \<Rightarrow> u16 \<Rightarrow> handler" where
  "btu_hcif_rmt_name_request_comp_evt E b p evt_len = do {
     status \<leftarrow> rd8 b p;
     bd_addr \<leftarrow> rd_bdaddr E b (p + 1);
     let evt_len = evt_len - (1 + 6);
     Some [Btm_process_remote_name (Some bd_addr) (Some (p + 7)) evt_len status,
           Btm_sec_rmt_name_request_complete (Some bd_addr) (Some (p + 7)) status]
   }"

text \<open>Encryption: a link without LE is only reported as encrypted when its key is long enough.\<close>

definition read_encryption_key_size_complete_after_encryption_change ::
  "hci_hdrs \<Rightarrow> evt_hdrs \<Rightarrow> btm_ext \<Rightarrow> u8 \<Rightarrow> u16 \<Rightarrow> u8 \<Rightarrow> btm_call list"
where
  "read_encryption_key_size_complete_after_encryption_change E V A status handle key_size =
     (if status = evt_byte V HCI_ERR_INSUFFCIENT_SECURITY then []
      else if status \<noteq> hci_byte E HCI_SUCCESS then [Btsnd_hcic_disconnect handle (evt_byte V HCI_ERR_PEER_USER)]
      else if key_size < MIN_KEY_SIZE then [Btsnd_hcic_disconnect handle (evt_byte V HCI_ERR_HOST_REJECT_SECURITY)]
      else if btm_sec_is_session_key_size_downgrade A handle key_size
      then [Btsnd_hcic_disconnect handle (evt_byte V HCI_ERR_HOST_REJECT_SECURITY)]
      else [Btm_sec_update_session_key_size handle key_size, Btm_acl_encrypt_change handle status 1,
            Btm_sec_encrypt_change handle status 1])"

definition btu_hcif_encryption_change_evt :: "hci_hdrs \<Rightarrow> evt_hdrs \<Rightarrow> btm_ext \<Rightarrow> bt_hdr \<Rightarrow> nat \<Rightarrow> handler" where
  "btu_hcif_encryption_change_evt E V A b p = do {
     status \<leftarrow> rd8 b p;
     handle \<leftarrow> rd16 E b (p + 1);
     encr_enable \<leftarrow> rd8 b (p + 3);
     Some (if status \<noteq> hci_byte E HCI_SUCCESS \<or> encr_enable = 0 \<or> btm_is_ble_connection A handle
           then (if status = evt_byte V HCI_ERR_CONNECTION_TOUT then [Smp_cancel_start_encryption_attempt]
                 else [Btm_acl_encrypt_change handle status encr_enable, Btm_sec_encrypt_change handle status encr_enable])
           else if \<not> supports_read_encryption_key_size A
           then [Btm_acl_encrypt_change handle status encr_enable, Btm_sec_encrypt_change handle status encr_enable]
           else [Btsnd_hcic_read_encryption_key_size handle After_encryption_change])
   }"

definition read_encryption_key_size_complete_after_key_refresh ::
  "hci_hdrs \<Rightarrow> evt_hdrs \<Rightarrow> u8 \<Rightarrow> u16 \<Rightarrow> u8 \<Rightarrow> btm_call list"
where
  "read_encryption_key_size_complete_after_key_refresh E V status handle key_size =
     (if status = evt_byte V HCI_ERR_INSUFFCIENT_SECURITY then []
      else if status \<noteq> hci_byte E HCI_SUCCESS then [Btsnd_hcic_disconnect handle (evt_byte V HCI_ERR_PEER_USER)]
      else if key_size < MIN_KEY_SIZE then [Btsnd_hcic_disconnect handle (evt_byte V HCI_ERR_HOST_REJECT_SECURITY)]
      else [Btm_sec_encrypt_change handle status 1])"

definition btu_hcif_encryption_key_refresh_cmpl_evt :: "hci_hdrs \<Rightarrow> btm_ext \<Rightarrow> bt_hdr \<Rightarrow> nat \<Rightarrow> handler" where
  "btu_hcif_encryption_key_refresh_cmpl_evt E A b p = do {
     status \<leftarrow> rd8 b p;
     handle \<leftarrow> rd16 E b (p + 1);
     Some (if status \<noteq> hci_byte E HCI_SUCCESS \<or> btm_is_ble_connection A handle
           then [Btm_sec_encrypt_change handle status (if status = hci_byte E HCI_SUCCESS then 1 else 0)]
           else if \<not> supports_read_encryption_key_size A then [Btm_sec_encrypt_change handle status 1]
           else [Btsnd_hcic_read_encryption_key_size handle After_key_refresh])
   }"

definition btu_hcif_read_rmt_features_comp_evt :: "nat \<Rightarrow> handler" where
  "btu_hcif_read_rmt_features_comp_evt p = Some [Btm_read_remote_features_complete p]"

definition btu_hcif_read_rmt_ext_features_comp_evt :: "hci_hdrs \<Rightarrow> bt_hdr \<Rightarrow> nat \<Rightarrow> u8 \<Rightarrow> handler" where
  "btu_hcif_read_rmt_ext_features_comp_evt E b p evt_len = do {
     status \<leftarrow> rd8 b p;
     if status = hci_byte E HCI_SUCCESS then Some [Btm_read_remote_ext_features_complete p evt_len]
     else do { handle \<leftarrow> rd16 E b (p + 1); Some [Btm_read_remote_ext_features_failed status handle] }
   }"

definition btu_hcif_read_rmt_version_comp_evt :: "nat \<Rightarrow> handler" where
  "btu_hcif_read_rmt_version_comp_evt p = Some [Btm_read_remote_version_complete p]"

definition btu_hcif_qos_setup_comp_evt :: "hci_hdrs \<Rightarrow> evt_hdrs \<Rightarrow> bt_hdr \<Rightarrow> nat \<Rightarrow> handler" where
  "btu_hcif_qos_setup_comp_evt E V b p = do {
     status \<leftarrow> rd8 b p;
     handle \<leftarrow> rd16 E b (p + 1);
     flags \<leftarrow> rd8 b (p + 3);
     service \<leftarrow> rd8 b (p + 4);
     rate \<leftarrow> rd32 V b (p + 5);
     peak \<leftarrow> rd32 V b (p + 9);
     lat \<leftarrow> rd32 V b (p + 13);
     delay \<leftarrow> rd32 V b (p + 17);
     Some [Btm_qos_setup_complete status handle (Some \<lparr>qos_flags = flags, service_type = service, token_rate = rate,
             peak_bandwidth = peak, flow_latency = lat, delay_variation = delay\<rparr>)]
   }"

definition btu_hcif_esco_connection_comp_evt :: "hci_hdrs \<Rightarrow> evt_hdrs \<Rightarrow> bt_hdr \<Rightarrow> nat \<Rightarrow> handler" where
  "btu_hcif_esco_connection_comp_evt E V b p = do {
     status \<leftarrow> rd8 b p;
     handle \<leftarrow> rd16 E b (p + 1);
     bda \<leftarrow> rd_bdaddr E b (p + 3);
     link \<leftarrow> rd8 b (p + 9);
     tx_int \<leftarrow> rd8 b (p + 10);
     win \<leftarrow> rd8 b (p + 11);
     rx \<leftarrow> rd16 E b (p + 12);
     tx \<leftarrow> rd16 E b (p + 14);
     air \<leftarrow> rd8 b (p + 16);
     Some [Btm_sco_connected status (Some bda) (hcid_get_handle V handle) (Some \<lparr>esco_link_type = link,
             esco_tx_interval = tx_int, esco_retrans_window = win, esco_rx_pkt_len = rx, esco_tx_pkt_len = tx,
             esco_air_mode = air, esco_bd_addr = bda\<rparr>)]
   }"

definition btu_hcif_esco_connection_chg_evt :: "hci_hdrs \<Rightarrow> evt_hdrs \<Rightarrow> bt_hdr \<Rightarrow> nat \<Rightarrow> handler" where
  "btu_hcif_esco_connection_chg_evt E V b p = do {
     status \<leftarrow> rd8 b p;
     handle \<leftarrow> rd16 E b (p + 1);
     tx_interval \<leftarrow> rd8 b (p + 3);
     retrans_window \<leftarrow> rd8 b (p + 4);
     rx_pkt_len \<leftarrow> rd16 E b (p + 5);
     tx_pkt_len \<leftarrow> rd16 E b (p + 7);
     Some [Btm_esco_proc_conn_chg status (hcid_get_handle V handle) tx_interval retrans_window rx_pkt_len tx_pkt_len]
   }"

definition btu_hcif_hardware_error_evt :: "btm_ext \<Rightarrow> bt_hdr \<Rightarrow> nat \<Rightarrow> handler" where
  "btu_hcif_hardware_error_evt A b p = do {
     _ \<leftarrow> rd8 b p;
     Some ([Btm_report_device_status_down] @ (if btm_is_device_up A then [Btm_device_reset] else []))
   }"

definition btu_hcif_role_change_evt :: "hci_hdrs \<Rightarrow> bt_hdr \<Rightarrow> nat \<Rightarrow> handler" where
  "btu_hcif_role_change_evt E b p = do {
     status \<leftarrow> rd8 b p;
     bda \<leftarrow> rd_bdaddr E b (p + 1);
     role \<leftarrow> rd8 b (p + 7);
     Some [Btm_blacklist_role_change_device bda status, L2c_link_role_changed (Some bda) (Some role) status,
           Btm_acl_role_changed status bda (Some role)]
   }"

definition btu_hcif_num_compl_data_pkts_evt :: "nat \<Rightarrow> u8 \<Rightarrow> handler" where
  "btu_hcif_num_compl_data_pkts_evt p evt_len = Some [L2c_link_process_num_completed_pkts p evt_len]"

definition btu_hcif_mode_change_evt :: "hci_hdrs \<Rightarrow> btm_ext \<Rightarrow> bt_hdr \<Rightarrow> nat \<Rightarrow> handler" where
  "btu_hcif_mode_change_evt E A b p = do {
     status \<leftarrow> rd8 b p;
     handle \<leftarrow> rd16 E b (p + 1);
     current_mode \<leftarrow> rd8 b (p + 3);
     interval \<leftarrow> rd16 E b (p + 4);
     Some ([Btm_sco_chk_pend_unpark status handle, Btm_pm_proc_mode_change status handle current_mode interval] @
           (if hid_dev_pm_included A then [Hidd_pm_proc_mode_change status current_mode interval] else []))
   }"

definition btu_hcif_ssr_evt :: "nat \<Rightarrow> u8 \<Rightarrow> handler" where
  "btu_hcif_ssr_evt p evt_len = Some [Btm_pm_proc_ssr_evt p evt_len]"

definition btu_hcif_pin_code_request_evt :: "hci_hdrs \<Rightarrow> bt_hdr \<Rightarrow> nat \<Rightarrow> handler" where
  "btu_hcif_pin_code_request_evt E b p = do {
     bda \<leftarrow> rd_bdaddr E b p;
     Some [L2c_pin_code_request bda, Btm_sec_pin_code_request bda]
   }"

definition btu_hcif_link_key_request_evt :: "hci_hdrs \<Rightarrow> bt_hdr \<Rightarrow> nat \<Rightarrow> handler" where
  "btu_hcif_link_key_request_evt E b p = do { bda \<leftarrow> rd_bdaddr E b p; Some [Btm_sec_link_key_request bda] }"

definition btu_hcif_link_key_notification_evt :: "hci_hdrs \<Rightarrow> evt_hdrs \<Rightarrow> bt_hdr \<Rightarrow> nat \<Rightarrow> handler" where
  "btu_hcif_link_key_notification_evt E V b p = do {
     bda \<leftarrow> rd_bdaddr E b p;
     key \<leftarrow> rd_bytes b (p + 6) 16;
     key_type \<leftarrow> rd8 b (p + 22);
     Some [Btm_sec_link_key_notification bda (stream_to_array16 V key) key_type]
   }"

definition btu_hcif_read_clock_off_comp_evt :: "hci_hdrs \<Rightarrow> evt_hdrs \<Rightarrow> bt_hdr \<Rightarrow> nat \<Rightarrow> handler" where
  "btu_hcif_read_clock_off_comp_evt E V b p = do {
     status \<leftarrow> rd8 b p;
     if status \<noteq> hci_byte E HCI_SUCCESS then Some []
     else do {
       handle \<leftarrow> rd16 E b (p + 1);
       clock_offset \<leftarrow> rd16 E b (p + 3);
       let handle = hcid_get_handle V handle;
       Some [Btm_process_clk_off_comp_evt handle clock_offset, Btm_sec_update_clock_offset handle clock_offset]
     }
   }"

definition btu_hcif_qos_violation_evt :: "hci_hdrs \<Rightarrow> evt_hdrs \<Rightarrow> bt_hdr \<Rightarrow> nat \<Rightarrow> handler" where
  "btu_hcif_qos_violation_evt E V b p = do {
     handle \<leftarrow> rd16 E b p;
     Some [L2c_link_hci_qos_violation (hcid_get_handle V handle)]
   }"

definition btu_hcif_host_support_evt :: "nat \<Rightarrow> handler" where
  "btu_hcif_host_support_evt p = Some [Btm_sec_rmt_host_support_feat_evt p]"

definition btu_hcif_io_cap_request_evt :: "hci_hdrs \<Rightarrow> bt_hdr \<Rightarrow> nat \<Rightarrow> handler" where
  "btu_hcif_io_cap_request_evt E b p = do { bda \<leftarrow> rd_bdaddr E b p; Some [Btm_io_capabilities_req bda] }"

definition btu_hcif_io_cap_response_evt :: "nat \<Rightarrow> handler" where
  "btu_hcif_io_cap_response_evt p = Some [Btm_io_capabilities_rsp p]"

definition btu_hcif_user_conf_request_evt :: "nat \<Rightarrow> handler" where
  "btu_hcif_user_conf_request_evt p = Some [Btm_proc_sp_req_evt BTM_SP_CFM_REQ_EVT p]"

definition btu_hcif_user_passkey_request_evt :: "nat \<Rightarrow> handler" where
  "btu_hcif_user_passkey_request_evt p = Some [Btm_proc_sp_req_evt BTM_SP_KEY_REQ_EVT p]"

definition btu_hcif_user_passkey_notif_evt :: "nat \<Rightarrow> handler" where
  "btu_hcif_user_passkey_notif_evt p = Some [Btm_proc_sp_req_evt BTM_SP_KEY_NOTIF_EVT p]"

definition btu_hcif_keypress_notif_evt :: "nat \<Rightarrow> handler" where
  "btu_hcif_keypress_notif_evt p = Some [Btm_keypress_notif_evt p]"

definition btu_hcif_rem_oob_request_evt :: "nat \<Rightarrow> handler" where
  "btu_hcif_rem_oob_request_evt p = Some [Btm_rem_oob_req p]"

definition btu_hcif_simple_pair_complete_evt :: "nat \<Rightarrow> handler" where
  "btu_hcif_simple_pair_complete_evt p = Some [Btm_simple_pair_complete p]"

section \<open>LE events\<close>

definition btu_ble_ll_conn_complete_evt :: "nat \<Rightarrow> u8 \<Rightarrow> handler" where
  "btu_ble_ll_conn_complete_evt p evt_len = Some [Btm_ble_conn_complete p evt_len False]"

definition btu_ble_proc_enhanced_conn_cmpl :: "nat \<Rightarrow> u8 \<Rightarrow> handler" where
  "btu_ble_proc_enhanced_conn_cmpl p evt_len = Some [Btm_ble_conn_complete p evt_len True]"

definition btu_ble_ll_conn_param_upd_evt :: "hci_hdrs \<Rightarrow> bt_hdr \<Rightarrow> nat \<Rightarrow> handler" where
  "btu_ble_ll_conn_param_upd_evt E b p = do {
     status \<leftarrow> rd8 b p;
     handle \<leftarrow> rd16 E b (p + 1);
     interval \<leftarrow> rd16 E b (p + 3);
     lat \<leftarrow> rd16 E b (p + 5);
     timeout \<leftarrow> rd16 E b (p + 7);
     Some [L2cble_process_conn_update_evt handle status interval lat timeout,
           Gatt_notify_conn_update (handle AND 0x0FFF) interval lat timeout status]
   }"

definition btu_ble_read_remote_feat_evt :: "nat \<Rightarrow> handler" where
  "btu_ble_read_remote_feat_evt p = Some [Btm_ble_read_remote_features_complete p]"

definition btu_ble_proc_ltk_req :: "hci_hdrs \<Rightarrow> bt_hdr \<Rightarrow> nat \<Rightarrow> handler" where
  "btu_ble_proc_ltk_req E b p = do {
     handle \<leftarrow> rd16 E b p;
     ediv \<leftarrow> rd16 E b (p + 2 + 8);
     Some [Btm_ble_ltk_request handle (p + 2) ediv]
   }"

definition btu_ble_data_length_change_evt :: "hci_hdrs \<Rightarrow> btm_ext \<Rightarrow> bt_hdr \<Rightarrow> nat \<Rightarrow> u8 \<Rightarrow> handler" where
  "btu_ble_data_length_change_evt E A b p evt_len =
     (if \<not> supports_ble_packet_extension A then Some []
      else if evt_len < 8 then Some []
      else do {
        handle \<leftarrow> rd16 E b p;
        tx_data_len \<leftarrow> rd16 E b (p + 2);
        rx_data_len \<leftarrow> rd16 E b (p + 6);
        Some [L2cble_process_data_length_change_event handle tx_data_len rx_data_len]
      })"

definition btu_ble_rc_param_req_evt :: "hci_hdrs \<Rightarrow> bt_hdr \<Rightarrow> nat \<Rightarrow> handler" where
  "btu_ble_rc_param_req_evt E b p = do {
     handle \<leftarrow> rd16 E b p;
     int_min \<leftarrow> rd16 E b (p + 2);
     int_max \<leftarrow> rd16 E b (p + 4);
     lat \<leftarrow> rd16 E b (p + 6);
     timeout \<leftarrow> rd16 E b (p + 8);
     Some [L2cble_process_rc_param_request_evt handle int_min int_max lat timeout]
   }"

text \<open>The inner switch on the subevent, with the cursor behind its code.\<close>

definition ble_event :: "hci_hdrs \<Rightarrow> evt_hdrs \<Rightarrow> btu_ext \<Rightarrow> btm_ext \<Rightarrow> bt_hdr \<Rightarrow> nat \<Rightarrow> u8 \<Rightarrow> handler" where
  "ble_event E V B A b p hci_evt_len = do {
     ble_sub_code \<leftarrow> rd8 b p;
     let p = p + 1;
     let ble_evt_len = hci_evt_len - 1;
     let table = [(HCI_BLE_ADV_PKT_RPT_EVT, Some [Btm_ble_process_adv_pkt ble_evt_len p]),
       (HCI_BLE_CONN_COMPLETE_EVT, btu_ble_ll_conn_complete_evt p hci_evt_len),
       (HCI_BLE_LL_CONN_PARAM_UPD_EVT, btu_ble_ll_conn_param_upd_evt E b p),
       (HCI_BLE_READ_REMOTE_FEAT_CMPL_EVT, btu_ble_read_remote_feat_evt p),
       (HCI_BLE_LTK_REQ_EVT, btu_ble_proc_ltk_req E b p)] @
       (if ble_privacy_spt B then [(HCI_BLE_ENHANCED_CONN_COMPLETE_EVT, btu_ble_proc_enhanced_conn_cmpl p hci_evt_len)] else []) @
       (if ble_llt_included A then [(HCI_BLE_RC_PARAM_REQ_EVT, btu_ble_rc_param_req_evt E b p)] else []) @
      [(HCI_BLE_DATA_LENGTH_CHANGE_EVT, btu_ble_data_length_change_evt E A b p hci_evt_len),
       (HCI_BLE_PHY_UPDATE_COMPLETE_EVT, Some [Btm_ble_process_phy_update_pkt ble_evt_len p]),
       (HCI_LE_EXTENDED_ADVERTISING_REPORT_EVT, Some [Btm_ble_process_ext_adv_pkt hci_evt_len p]),
       (HCI_LE_ADVERTISING_SET_TERMINATED_EVT, Some [Btm_le_on_advertising_set_terminated p hci_evt_len])];
     (case map_of (map (\<lambda>(e, h). (ble_evt_code V e, h)) table) ble_sub_code of None \<Rightarrow> Some [] | Some h \<Rightarrow> h)
   }"

section \<open>The dispatch of events\<close>

text \<open>The metrics of an event, read at the cursor behind the event header.\<close>

definition btu_hcif_log_event_metrics :: "hci_hdrs \<Rightarrow> evt_hdrs \<Rightarrow> u8 \<Rightarrow> bt_hdr \<Rightarrow> nat \<Rightarrow> metric list option" where
  "btu_hcif_log_event_metrics E V code b p =
     (let cmd = evt_word V CMD_UNKNOWN;
          unknown = hci_word E STATUS_UNKNOWN;
          no_handle = hci_word E kUnknownConnectionHandle;
          evt = ucast code;
          is_evt = (\<lambda>es. code \<in> set (map (evt_code V) es))
      in if is_evt [HCI_IO_CAPABILITY_REQUEST_EVT, HCI_IO_CAPABILITY_RESPONSE_EVT, HCI_LINK_KEY_REQUEST_EVT,
             HCI_LINK_KEY_NOTIFICATION_EVT, HCI_USER_PASSKEY_REQUEST_EVT, HCI_USER_PASSKEY_NOTIFY_EVT,
             HCI_USER_CONFIRMATION_REQUEST_EVT, HCI_KEYPRESS_NOTIFY_EVT, HCI_REMOTE_OOB_DATA_REQUEST_EVT] then do {
           bda \<leftarrow> rd_bdaddr E b p;
           Some [LogClassicPairingEvent bda no_handle cmd evt unknown unknown 0]
         } else if is_evt [HCI_SIMPLE_PAIRING_COMPLETE_EVT, HCI_RMT_NAME_REQUEST_COMP_EVT] then do {
           status \<leftarrow> rd8 b p; bda \<leftarrow> rd_bdaddr E b (p + 1);
           Some [LogClassicPairingEvent bda no_handle cmd evt (ucast status) unknown 0]
         } else if is_evt [HCI_AUTHENTICATION_COMP_EVT] then do {
           status \<leftarrow> rd8 b p; handle \<leftarrow> rd16 E b (p + 1);
           Some [LogClassicPairingEvent kEmpty (hcid_get_handle V handle) cmd evt (ucast status) unknown 0]
         } else if is_evt [HCI_ENCRYPTION_CHANGE_EVT] then do {
           status \<leftarrow> rd8 b p; handle \<leftarrow> rd16 E b (p + 1); enabled \<leftarrow> rd8 b (p + 3);
           Some [LogClassicPairingEvent kEmpty handle cmd evt (ucast status) unknown (uint enabled)]
         } else if is_evt [HCI_CONNECTION_COMP_EVT, HCI_ESCO_CONNECTION_COMP_EVT] then do {
           status \<leftarrow> rd8 b p; handle \<leftarrow> rd16 E b (p + 1); bda \<leftarrow> rd_bdaddr E b (p + 3); t \<leftarrow> rd8 b (p + 9);
           Some [LogLinkLayerConnectionEvent (Some bda) (hcid_get_handle V handle) DIRECTION_UNKNOWN (Link_type_code t)
                   cmd evt (ucast status) unknown]
         } else if is_evt [HCI_CONNECTION_REQUEST_EVT] then do {
           bda \<leftarrow> rd_bdaddr E b p; dc \<leftarrow> rd_devclass V b (p + 6); t \<leftarrow> rd8 b (p + 9);
           Some [LogLinkLayerConnectionEvent (Some bda) no_handle DIRECTION_INCOMING (Link_type_code t) cmd evt unknown unknown]
         } else if is_evt [HCI_DISCONNECTION_COMP_EVT] then do {
           status \<leftarrow> rd8 b p; handle \<leftarrow> rd16 E b (p + 1); reason \<leftarrow> rd8 b (p + 3);
           Some [LogLinkLayerConnectionEvent None (hcid_get_handle V handle) DIRECTION_UNKNOWN LINK_TYPE_UNKNOWN
                   cmd evt (ucast status) (ucast reason)]
         } else if is_evt [HCI_ESCO_CONNECTION_CHANGED_EVT] then do {
           status \<leftarrow> rd8 b p; handle \<leftarrow> rd16 E b (p + 1);
           Some [LogLinkLayerConnectionEvent None (hcid_get_handle V handle) DIRECTION_UNKNOWN LINK_TYPE_UNKNOWN
                   cmd evt (ucast status) unknown]
         } else Some [])"

text \<open>The cases of the switch; the events that only have an empty handler yield no call.\<close>

definition event_table :: "hci_hdrs \<Rightarrow> evt_hdrs \<Rightarrow> btu_ext \<Rightarrow> btm_ext \<Rightarrow> bt_hdr \<Rightarrow> nat \<Rightarrow> u8 \<Rightarrow> (hci_evt \<times> handler) list" where
  "event_table E V B A b p n =
     [(HCI_INQUIRY_COMP_EVT, btu_hcif_inquiry_comp_evt b p),
      (HCI_INQUIRY_RESULT_EVT, btu_hcif_inquiry_result_evt p n),
      (HCI_INQUIRY_RSSI_RESULT_EVT, btu_hcif_inquiry_rssi_result_evt p n),
      (HCI_EXTENDED_INQUIRY_RESULT_EVT, btu_hcif_extended_inquiry_result_evt p n),
      (HCI_CONNECTION_COMP_EVT, btu_hcif_connection_comp_evt E V b p n),
      (HCI_CONNECTION_REQUEST_EVT, btu_hcif_connection_request_evt E V b p),
      (HCI_DISCONNECTION_COMP_EVT, btu_hcif_disconnection_comp_evt E V b p),
      (HCI_AUTHENTICATION_COMP_EVT, btu_hcif_authentication_comp_evt E b p),
      (HCI_RMT_NAME_REQUEST_COMP_EVT, btu_hcif_rmt_name_request_comp_evt E b p (ucast n)),
      (HCI_ENCRYPTION_CHANGE_EVT, btu_hcif_encryption_change_evt E V A b p),
      (HCI_ENCRYPTION_KEY_REFRESH_COMP_EVT, btu_hcif_encryption_key_refresh_cmpl_evt E A b p),
      (HCI_READ_RMT_FEATURES_COMP_EVT, btu_hcif_read_rmt_features_comp_evt p),
      (HCI_READ_RMT_EXT_FEATURES_COMP_EVT, btu_hcif_read_rmt_ext_features_comp_evt E b p n),
      (HCI_READ_RMT_VERSION_COMP_EVT, btu_hcif_read_rmt_version_comp_evt p),
      (HCI_QOS_SETUP_COMP_EVT, btu_hcif_qos_setup_comp_evt E V b p),
      (HCI_HARDWARE_ERROR_EVT, btu_hcif_hardware_error_evt A b p),
      (HCI_FLUSH_OCCURED_EVT, Some []),
      (HCI_ROLE_CHANGE_EVT, btu_hcif_role_change_evt E b p),
      (HCI_NUM_COMPL_DATA_PKTS_EVT, btu_hcif_num_compl_data_pkts_evt p n),
      (HCI_MODE_CHANGE_EVT, btu_hcif_mode_change_evt E A b p),
      (HCI_PIN_CODE_REQUEST_EVT, btu_hcif_pin_code_request_evt E b p),
      (HCI_LINK_KEY_REQUEST_EVT, btu_hcif_link_key_request_evt E b p),
      (HCI_LINK_KEY_NOTIFICATION_EVT, btu_hcif_link_key_notification_evt E V b p),
      (HCI_LOOPBACK_COMMAND_EVT, Some []),
      (HCI_DATA_BUF_OVERFLOW_EVT, Some []),
      (HCI_MAX_SLOTS_CHANGED_EVT, Some []),
      (HCI_READ_CLOCK_OFF_COMP_EVT, btu_hcif_read_clock_off_comp_evt E V b p),
      (HCI_CONN_PKT_TYPE_CHANGE_EVT, Some []),
      (HCI_QOS_VIOLATION_EVT, btu_hcif_qos_violation_evt E V b p),
      (HCI_PAGE_SCAN_MODE_CHANGE_EVT, Some []),
      (HCI_PAGE_SCAN_REP_MODE_CHNG_EVT, Some []),
      (HCI_ESCO_CONNECTION_COMP_EVT, btu_hcif_esco_connection_comp_evt E V b p),
      (HCI_ESCO_CONNECTION_CHANGED_EVT, btu_hcif_esco_connection_chg_evt E V b p),
      (HCI_SNIFF_SUB_RATE_EVT, if btm_ssr_included A then btu_hcif_ssr_evt p n else Some []),
      (HCI_RMT_HOST_SUP_FEAT_NOTIFY_EVT, btu_hcif_host_support_evt p),
      (HCI_IO_CAPABILITY_REQUEST_EVT, btu_hcif_io_cap_request_evt E b p),
      (HCI_IO_CAPABILITY_RESPONSE_EVT, btu_hcif_io_cap_response_evt p),
      (HCI_USER_CONFIRMATION_REQUEST_EVT, btu_hcif_user_conf_request_evt p),
      (HCI_USER_PASSKEY_REQUEST_EVT, btu_hcif_user_passkey_request_evt p),
      (HCI_REMOTE_OOB_DATA_REQUEST_EVT, btu_hcif_rem_oob_request_evt p),
      (HCI_SIMPLE_PAIRING_COMPLETE_EVT, btu_hcif_simple_pair_complete_evt p),
      (HCI_USER_PASSKEY_NOTIFY_EVT, btu_hcif_user_passkey_notif_evt p),
      (HCI_KEYPRESS_NOTIFY_EVT, btu_hcif_keypress_notif_evt p),
      (HCI_ENHANCED_FLUSH_COMPLETE_EVT, Some []),
      (HCI_BLE_EVENT, ble_event E V B A b p n)]"

text \<open>
  An event that says it is shorter than its kind requires is dropped. Command complete and command
  status events are only logged as errors here.
\<close>

definition btu_hcif_process_event ::
  "hci_hdrs \<Rightarrow> evt_hdrs \<Rightarrow> btu_ext \<Rightarrow> btm_ext \<Rightarrow> bt_hdr \<Rightarrow> (metric list \<times> btm_call list) option"
where
  "btu_hcif_process_event E V B A b = do {
     let p = unat (bt_offset b);
     hci_evt_code \<leftarrow> rd8 b p;
     hci_evt_len \<leftarrow> rd8 b (p + 1);
     if hci_evt_len < hci_event_parameters_minimum_length V hci_evt_code then Some ([], [])
     else do {
       ms \<leftarrow> btu_hcif_log_event_metrics E V hci_evt_code b (p + 2);
       calls \<leftarrow>
         (if hci_evt_code = hci_byte E HCI_VENDOR_SPECIFIC_EVT then Some [Btm_vendor_specific_evt (p + 2) hci_evt_len]
          else (case map_of (map (\<lambda>(e, h). (evt_code V e, h)) (event_table E V B A b (p + 2) hci_evt_len)) hci_evt_code of
                  None \<Rightarrow> Some [] | Some h \<Rightarrow> h));
       Some (ms, calls)
     }
   }"

section \<open>Answers to commands\<close>

text \<open>
  The completions that go to one function of the stack with the return parameters; those of the
  resolving list are only compiled in with LE privacy.
\<close>

definition complete_ops :: "hci_hdrs \<Rightarrow> btu_ext \<Rightarrow> u16 list" where
  "complete_ops E B =
     map (hci_br_opcode E) [HCI_SET_EVENT_FILTER, HCI_DELETE_STORED_LINK_KEY, HCI_READ_LOCAL_NAME, HCI_GET_LINK_QUALITY,
       HCI_READ_RSSI, HCI_READ_FAILED_CONTACT_COUNTER, HCI_READ_AUTOMATIC_FLUSH_TIMEOUT, HCI_READ_TRANSMIT_POWER_LEVEL,
       HCI_CREATE_CONNECTION_CANCEL, HCI_READ_LOCAL_OOB_DATA, HCI_READ_INQ_TX_POWER_LEVEL] @
     map (hci_opcode E) [HCI_BLE_READ_ADV_CHNL_TX_POWER, HCI_BLE_WRITE_ADV_ENABLE, HCI_BLE_CREATE_CONN_CANCEL,
       HCI_BLE_TRANSMITTER_TEST, HCI_BLE_RECEIVER_TEST, HCI_BLE_TEST_END] @
     (if ble_privacy_spt B then map (hci_opcode E) [HCI_BLE_ADD_DEV_RESOLVING_LIST, HCI_BLE_RM_DEV_RESOLVING_LIST,
       HCI_BLE_CLEAR_RESOLVING_LIST, HCI_BLE_READ_RESOLVABLE_ADDR_PEER] else [])"

definition btu_hcif_hdl_command_complete ::
  "hci_hdrs \<Rightarrow> btu_ext \<Rightarrow> u16 \<Rightarrow> nat \<Rightarrow> u16 \<Rightarrow> ptr option \<Rightarrow> btm_call list"
where
  "btu_hcif_hdl_command_complete E B opcode p evt_len p_cplt_cback =
     (if opcode = hci_br_opcode E HCI_INQUIRY_CANCEL then [Btm_process_cancel_complete]
      else if opcode \<in> {hci_opcode E HCI_BLE_RAND, hci_opcode E HCI_BLE_ENCRYPT}
      then [Btm_ble_rand_enc_complete p opcode p_cplt_cback]
      else if opcode \<in> set (complete_ops E B) then [Btm_complete opcode p evt_len]
      else if opcode \<in> {hci_opcode E HCI_BLE_CREATE_LL_CONN, hci_opcode E HCI_LE_EXTENDED_CREATE_CONNECTION} then []
      else if is_vendor E opcode then [Btm_vsc_complete (Inl p) opcode evt_len p_cplt_cback] else [])"

definition btu_hcif_command_complete_evt_on_task ::
  "hci_hdrs \<Rightarrow> btu_ext \<Rightarrow> ptr \<Rightarrow> ptr option \<Rightarrow> btu_state \<Rightarrow> (btm_call list \<times> btu_state) option"
where
  "btu_hcif_command_complete_evt_on_task E B event ctx S = do {
     b \<leftarrow> bufs (hci S) event;
     opcode \<leftarrow> rd16 E b (unat (bt_offset b) + 3);
     ms \<leftarrow> btu_hcif_log_command_complete_metrics E opcode b (unat (bt_offset b) + 5);
     let calls = btu_hcif_hdl_command_complete E B opcode (unat (bt_offset b) + 5) (bt_len b - 5) ctx;
     S1 \<leftarrow> osi_free_event event (S\<lparr>metrics := metrics S @ ms\<rparr>);
     Some (calls, S1)
   }"

text \<open>The status of a command; \<open>p\<close> is behind its opcode, on the length byte.\<close>

definition btu_hcif_hdl_command_status ::
  "hci_hdrs \<Rightarrow> evt_hdrs \<Rightarrow> btm_ext \<Rightarrow> u16 \<Rightarrow> u8 \<Rightarrow> bt_hdr \<Rightarrow> nat \<Rightarrow> ptr option \<Rightarrow> handler"
where
  "btu_hcif_hdl_command_status E V A opcode status b p p_vsc_status_cback =
     (let p_cmd = p + 1;
          failed = (status \<noteq> hci_byte E HCI_SUCCESS);
          on_failure = (\<lambda>h. if failed then h else Some []);
          is_op = (\<lambda>ops. opcode \<in> set (map (hci_br_opcode E) ops));
          is_ble = (\<lambda>op. opcode = hci_opcode E op)
      in if is_op [HCI_INQUIRY] then on_failure (Some [Btm_process_inq_complete status])
         else if is_op [HCI_QOS_SETUP] then on_failure (Some [Btm_qos_setup_complete status 0 None])
         else if is_op [HCI_SWITCH_ROLE] then on_failure (do {
           bd_addr \<leftarrow> rd_bdaddr E b p_cmd;
           Some [Btm_acl_role_changed status bd_addr None,
                 L2c_link_role_changed None None (evt_byte V HCI_ERR_COMMAND_DISALLOWED)] })
         else if is_op [HCI_CREATE_CONNECTION] then on_failure (do {
           bd_addr \<leftarrow> rd_bdaddr E b p_cmd;
           Some [Btm_sec_connected bd_addr (evt_word V HCI_INVALID_HANDLE) status 0,
                 L2c_link_hci_conn_comp status (evt_word V HCI_INVALID_HANDLE) bd_addr] })
         else if is_op [HCI_AUTHENTICATION_REQUESTED]
         then on_failure (Some [Btm_sec_auth_complete (evt_word V BTM_INVALID_HCI_HANDLE) status])
         else if is_op [HCI_SET_CONN_ENCRYPTION]
         then on_failure (Some [Btm_sec_encrypt_change (evt_word V BTM_INVALID_HCI_HANDLE) status 0])
         else if is_op [HCI_RMT_NAME_REQUEST]
         then on_failure (Some [Btm_process_remote_name None None 0 status, Btm_sec_rmt_name_request_complete None None status])
         else if is_op [HCI_READ_RMT_EXT_FEATURES] then on_failure (do {
           handle \<leftarrow> rd16 E b p_cmd;
           Some [Btm_read_remote_ext_features_failed status handle] })
         else if is_op [HCI_SETUP_ESCO_CONNECTION, HCI_ENH_SETUP_ESCO_CONNECTION] then on_failure (do {
           handle \<leftarrow> rd16 E b p_cmd;
           Some [if btm_is_sco_active A handle then Btm_esco_proc_conn_chg status handle 0 0 0 0
                 else Btm_sco_connected status None handle None] })
         else if is_ble HCI_BLE_CREATE_LL_CONN \<or> is_ble HCI_LE_EXTENDED_CREATE_CONNECTION
         then on_failure (Some [Btm_ble_create_ll_conn_complete status])
         else if is_ble HCI_BLE_START_ENC
         then Some (if status = evt_byte V HCI_ERR_NO_CONNECTION then [Smp_cancel_start_encryption_attempt] else [])
         else if is_op [HCI_EXIT_SNIFF_MODE, HCI_EXIT_PARK_MODE] then do {
           cs \<leftarrow> on_failure (do { handle \<leftarrow> rd16 E b p_cmd; Some [Btm_sco_chk_pend_unpark status handle] });
           Some (cs @ [Btm_pm_proc_cmd_status status]) }
         else if is_op [HCI_HOLD_MODE, HCI_SNIFF_MODE, HCI_PARK_MODE] then Some [Btm_pm_proc_cmd_status status]
         else if is_vendor E opcode then Some [Btm_vsc_complete (Inr status) opcode 1 p_vsc_status_cback]
         else Some [])"

definition btu_hcif_command_status_evt_on_task ::
  "hci_hdrs \<Rightarrow> evt_hdrs \<Rightarrow> btu_ext \<Rightarrow> btm_ext \<Rightarrow> u8 \<Rightarrow> ptr \<Rightarrow> ptr option \<Rightarrow> btu_state \<Rightarrow> (btm_call list \<times> btu_state) option"
where
  "btu_hcif_command_status_evt_on_task E V B A status event ctx S = do {
     b \<leftarrow> bufs (hci S) event;
     let p = unat (bt_offset b);
     opcode \<leftarrow> rd16 E b p;
     ms \<leftarrow> btu_hcif_log_command_metrics E B opcode b (p + 3) (ucast status) True;
     calls \<leftarrow> btu_hcif_hdl_command_status E V A opcode status b (p + 2) ctx;
     S1 \<leftarrow> osi_free_event event (S\<lparr>metrics := metrics S @ ms\<rparr>);
     Some (calls, S1)
   }"

end
