(* ===== verification/Btu_Event_Props.thy ===== *)
theory Btu_Event_Props
  imports Btu_Events Ble_Props
begin

text \<open>
  The properties of the event handlers: what they read of an event, when a link is reported as
  encrypted, and what a refused command leads to.
\<close>

section \<open>The documented values\<close>

primrec core_evt :: "hci_evt \<Rightarrow> u8" where
  "core_evt HCI_INQUIRY_COMP_EVT = 0x01"
| "core_evt HCI_INQUIRY_RESULT_EVT = 0x02"
| "core_evt HCI_CONNECTION_COMP_EVT = 0x03"
| "core_evt HCI_CONNECTION_REQUEST_EVT = 0x04"
| "core_evt HCI_DISCONNECTION_COMP_EVT = 0x05"
| "core_evt HCI_AUTHENTICATION_COMP_EVT = 0x06"
| "core_evt HCI_RMT_NAME_REQUEST_COMP_EVT = 0x07"
| "core_evt HCI_ENCRYPTION_CHANGE_EVT = 0x08"
| "core_evt HCI_READ_RMT_FEATURES_COMP_EVT = 0x0B"
| "core_evt HCI_READ_RMT_VERSION_COMP_EVT = 0x0C"
| "core_evt HCI_QOS_SETUP_COMP_EVT = 0x0D"
| "core_evt HCI_HARDWARE_ERROR_EVT = 0x10"
| "core_evt HCI_FLUSH_OCCURED_EVT = 0x11"
| "core_evt HCI_ROLE_CHANGE_EVT = 0x12"
| "core_evt HCI_NUM_COMPL_DATA_PKTS_EVT = 0x13"
| "core_evt HCI_MODE_CHANGE_EVT = 0x14"
| "core_evt HCI_PIN_CODE_REQUEST_EVT = 0x16"
| "core_evt HCI_LINK_KEY_REQUEST_EVT = 0x17"
| "core_evt HCI_LINK_KEY_NOTIFICATION_EVT = 0x18"
| "core_evt HCI_LOOPBACK_COMMAND_EVT = 0x19"
| "core_evt HCI_DATA_BUF_OVERFLOW_EVT = 0x1A"
| "core_evt HCI_MAX_SLOTS_CHANGED_EVT = 0x1B"
| "core_evt HCI_READ_CLOCK_OFF_COMP_EVT = 0x1C"
| "core_evt HCI_CONN_PKT_TYPE_CHANGE_EVT = 0x1D"
| "core_evt HCI_QOS_VIOLATION_EVT = 0x1E"
| "core_evt HCI_PAGE_SCAN_MODE_CHANGE_EVT = 0x1F"
| "core_evt HCI_PAGE_SCAN_REP_MODE_CHNG_EVT = 0x20"
| "core_evt HCI_INQUIRY_RSSI_RESULT_EVT = 0x22"
| "core_evt HCI_READ_RMT_EXT_FEATURES_COMP_EVT = 0x23"
| "core_evt HCI_ESCO_CONNECTION_COMP_EVT = 0x2C"
| "core_evt HCI_ESCO_CONNECTION_CHANGED_EVT = 0x2D"
| "core_evt HCI_SNIFF_SUB_RATE_EVT = 0x2E"
| "core_evt HCI_EXTENDED_INQUIRY_RESULT_EVT = 0x2F"
| "core_evt HCI_ENCRYPTION_KEY_REFRESH_COMP_EVT = 0x30"
| "core_evt HCI_IO_CAPABILITY_REQUEST_EVT = 0x31"
| "core_evt HCI_IO_CAPABILITY_RESPONSE_EVT = 0x32"
| "core_evt HCI_USER_CONFIRMATION_REQUEST_EVT = 0x33"
| "core_evt HCI_USER_PASSKEY_REQUEST_EVT = 0x34"
| "core_evt HCI_REMOTE_OOB_DATA_REQUEST_EVT = 0x35"
| "core_evt HCI_SIMPLE_PAIRING_COMPLETE_EVT = 0x36"
| "core_evt HCI_ENHANCED_FLUSH_COMPLETE_EVT = 0x39"
| "core_evt HCI_USER_PASSKEY_NOTIFY_EVT = 0x3B"
| "core_evt HCI_KEYPRESS_NOTIFY_EVT = 0x3C"
| "core_evt HCI_RMT_HOST_SUP_FEAT_NOTIFY_EVT = 0x3D"
| "core_evt HCI_BLE_EVENT = 0x3E"

primrec core_ble_evt :: "ble_evt \<Rightarrow> u8" where
  "core_ble_evt HCI_BLE_CONN_COMPLETE_EVT = 0x01"
| "core_ble_evt HCI_BLE_ADV_PKT_RPT_EVT = 0x02"
| "core_ble_evt HCI_BLE_LL_CONN_PARAM_UPD_EVT = 0x03"
| "core_ble_evt HCI_BLE_READ_REMOTE_FEAT_CMPL_EVT = 0x04"
| "core_ble_evt HCI_BLE_LTK_REQ_EVT = 0x05"
| "core_ble_evt HCI_BLE_RC_PARAM_REQ_EVT = 0x06"
| "core_ble_evt HCI_BLE_DATA_LENGTH_CHANGE_EVT = 0x07"
| "core_ble_evt HCI_BLE_ENHANCED_CONN_COMPLETE_EVT = 0x0A"
| "core_ble_evt HCI_BLE_PHY_UPDATE_COMPLETE_EVT = 0x0C"
| "core_ble_evt HCI_LE_EXTENDED_ADVERTISING_REPORT_EVT = 0x0D"
| "core_ble_evt HCI_LE_ADVERTISING_SET_TERMINATED_EVT = 0x12"

primrec core_evt_byte :: "evt_byte \<Rightarrow> u8" where
  "core_evt_byte HCI_ERR_INSUFFCIENT_SECURITY = 0x2F"
| "core_evt_byte HCI_ERR_PEER_USER = 0x13"
| "core_evt_byte HCI_ERR_HOST_REJECT_SECURITY = 0x0E"
| "core_evt_byte HCI_ERR_CONNECTION_TOUT = 0x08"
| "core_evt_byte HCI_ERR_NO_CONNECTION = 0x02"
| "core_evt_byte HCI_ERR_COMMAND_DISALLOWED = 0x0C"
| "core_evt_byte HCI_LINK_TYPE_ACL_CODE = 0x01"

text \<open>
  The lengths of the fixed parameters of the events, after the Core Specification, for the events
  whose parameters this file reads itself.
\<close>

primrec core_min :: "hci_evt \<Rightarrow> nat" where
  "core_min HCI_INQUIRY_COMP_EVT = 1"
| "core_min HCI_INQUIRY_RESULT_EVT = 0"
| "core_min HCI_CONNECTION_COMP_EVT = 11"
| "core_min HCI_CONNECTION_REQUEST_EVT = 10"
| "core_min HCI_DISCONNECTION_COMP_EVT = 4"
| "core_min HCI_AUTHENTICATION_COMP_EVT = 3"
| "core_min HCI_RMT_NAME_REQUEST_COMP_EVT = 255"
| "core_min HCI_ENCRYPTION_CHANGE_EVT = 4"
| "core_min HCI_READ_RMT_FEATURES_COMP_EVT = 11"
| "core_min HCI_READ_RMT_VERSION_COMP_EVT = 8"
| "core_min HCI_QOS_SETUP_COMP_EVT = 21"
| "core_min HCI_HARDWARE_ERROR_EVT = 1"
| "core_min HCI_FLUSH_OCCURED_EVT = 0"
| "core_min HCI_ROLE_CHANGE_EVT = 8"
| "core_min HCI_NUM_COMPL_DATA_PKTS_EVT = 0"
| "core_min HCI_MODE_CHANGE_EVT = 6"
| "core_min HCI_PIN_CODE_REQUEST_EVT = 6"
| "core_min HCI_LINK_KEY_REQUEST_EVT = 6"
| "core_min HCI_LINK_KEY_NOTIFICATION_EVT = 23"
| "core_min HCI_LOOPBACK_COMMAND_EVT = 0"
| "core_min HCI_DATA_BUF_OVERFLOW_EVT = 0"
| "core_min HCI_MAX_SLOTS_CHANGED_EVT = 0"
| "core_min HCI_READ_CLOCK_OFF_COMP_EVT = 5"
| "core_min HCI_CONN_PKT_TYPE_CHANGE_EVT = 0"
| "core_min HCI_QOS_VIOLATION_EVT = 2"
| "core_min HCI_PAGE_SCAN_MODE_CHANGE_EVT = 0"
| "core_min HCI_PAGE_SCAN_REP_MODE_CHNG_EVT = 0"
| "core_min HCI_INQUIRY_RSSI_RESULT_EVT = 0"
| "core_min HCI_READ_RMT_EXT_FEATURES_COMP_EVT = 13"
| "core_min HCI_ESCO_CONNECTION_COMP_EVT = 17"
| "core_min HCI_ESCO_CONNECTION_CHANGED_EVT = 9"
| "core_min HCI_SNIFF_SUB_RATE_EVT = 0"
| "core_min HCI_EXTENDED_INQUIRY_RESULT_EVT = 0"
| "core_min HCI_ENCRYPTION_KEY_REFRESH_COMP_EVT = 3"
| "core_min HCI_IO_CAPABILITY_REQUEST_EVT = 6"
| "core_min HCI_IO_CAPABILITY_RESPONSE_EVT = 9"
| "core_min HCI_USER_CONFIRMATION_REQUEST_EVT = 10"
| "core_min HCI_USER_PASSKEY_REQUEST_EVT = 6"
| "core_min HCI_REMOTE_OOB_DATA_REQUEST_EVT = 6"
| "core_min HCI_SIMPLE_PAIRING_COMPLETE_EVT = 7"
| "core_min HCI_ENHANCED_FLUSH_COMPLETE_EVT = 0"
| "core_min HCI_USER_PASSKEY_NOTIFY_EVT = 10"
| "core_min HCI_KEYPRESS_NOTIFY_EVT = 7"
| "core_min HCI_RMT_HOST_SUP_FEAT_NOTIFY_EVT = 14"
| "core_min HCI_BLE_EVENT = 0"

definition evt_hdrs_ok :: "evt_hdrs \<Rightarrow> bool" where
  "evt_hdrs_ok V \<longleftrightarrow> (\<forall>e. evt_code V e = core_evt e) \<and> (\<forall>e. ble_evt_code V e = core_ble_evt e) \<and>
     (\<forall>c. evt_byte V c = core_evt_byte c) \<and>
     (\<forall>e. core_min e \<le> unat (hci_event_parameters_minimum_length V (core_evt e))) \<and>
     (\<forall>h. hcid_get_handle V h = h AND 0x0FFF)"

lemma evt_hdrs_okD:
  assumes "evt_hdrs_ok V"
  shows "evt_code V e = core_evt e" "ble_evt_code V s = core_ble_evt s" "evt_byte V c = core_evt_byte c"
    "core_min e \<le> unat (hci_event_parameters_minimum_length V (core_evt e))" "hcid_get_handle V h = h AND 0x0FFF"
  using assms by (simp_all add: evt_hdrs_ok_def)

section \<open>Reading inside an event\<close>

definition readable_at :: "bt_hdr \<Rightarrow> nat \<Rightarrow> nat \<Rightarrow> bool" where
  "readable_at b p n \<longleftrightarrow> (\<forall>i. p \<le> i \<and> i < p + n \<longrightarrow> rd8 b i \<noteq> None)"

definition byte_of :: "bt_hdr \<Rightarrow> nat \<Rightarrow> u8" where
  "byte_of b q = the (rd8 b q)"

lemma readable_at_data: "bt_data b = map Some bs \<Longrightarrow> p + n \<le> length bs \<Longrightarrow> readable_at b p n"
  by (simp add: readable_at_def rd8_def)

lemma rd8_in: "readable_at b p n \<Longrightarrow> p \<le> q \<Longrightarrow> q < p + n \<Longrightarrow> rd8 b q = Some (byte_of b q)"
  by (auto simp: readable_at_def byte_of_def)

lemma rd16_in:
  "readable_at b p n \<Longrightarrow> p \<le> q \<Longrightarrow> q + 2 \<le> p + n \<Longrightarrow>
   rd16 E b q = Some (stream_to_uint16 E (byte_of b q) (byte_of b (q + 1)))"
  using rd8_in [of b p n q] rd8_in [of b p n "q + 1"] by (simp add: rd16_def)

lemma rd_bytes_in:
  "readable_at b p n \<Longrightarrow> p \<le> q \<Longrightarrow> q + k \<le> p + n \<Longrightarrow> rd_bytes b q k = Some (map (byte_of b) [q..<q + k])"
proof (induction k arbitrary: q)
  case (Suc k)
  then show ?case using rd8_in [of b p n q] Suc.IH [of "q + 1"] by (simp add: upt_conv_Cons del: upt_Suc)
qed simp

lemma rd_more_in:
  "readable_at b p n \<Longrightarrow> p \<le> q \<Longrightarrow> q + 6 \<le> p + n \<Longrightarrow> rd_bdaddr E b q = Some (stream_to_bdaddr E (map (byte_of b) [q..<q + 6]))"
  "readable_at b p n \<Longrightarrow> p \<le> q \<Longrightarrow> q + 3 \<le> p + n \<Longrightarrow> rd_devclass V b q = Some (stream_to_devclass V (map (byte_of b) [q..<q + 3]))"
  "readable_at b p n \<Longrightarrow> p \<le> q \<Longrightarrow> q + 4 \<le> p + n \<Longrightarrow> rd32 V b q = Some (stream_to_uint32 V (map (byte_of b) [q..<q + 4]))"
  using rd_bytes_in [of b p n q] by (simp_all add: rd_bdaddr_def rd_devclass_def rd32_def)

lemmas rd_in = rd8_in rd16_in rd_bytes_in rd_more_in

lemmas handler_defs = btu_hcif_inquiry_comp_evt_def btu_hcif_inquiry_result_evt_def btu_hcif_inquiry_rssi_result_evt_def
  btu_hcif_extended_inquiry_result_evt_def btu_hcif_connection_comp_evt_def btu_hcif_connection_request_evt_def
  btu_hcif_disconnection_comp_evt_def btu_hcif_authentication_comp_evt_def btu_hcif_rmt_name_request_comp_evt_def
  btu_hcif_encryption_change_evt_def btu_hcif_encryption_key_refresh_cmpl_evt_def btu_hcif_read_rmt_features_comp_evt_def
  btu_hcif_read_rmt_ext_features_comp_evt_def btu_hcif_read_rmt_version_comp_evt_def btu_hcif_qos_setup_comp_evt_def
  btu_hcif_esco_connection_comp_evt_def btu_hcif_esco_connection_chg_evt_def btu_hcif_hardware_error_evt_def
  btu_hcif_role_change_evt_def btu_hcif_num_compl_data_pkts_evt_def btu_hcif_mode_change_evt_def btu_hcif_ssr_evt_def
  btu_hcif_pin_code_request_evt_def btu_hcif_link_key_request_evt_def btu_hcif_link_key_notification_evt_def
  btu_hcif_read_clock_off_comp_evt_def btu_hcif_qos_violation_evt_def btu_hcif_host_support_evt_def
  btu_hcif_io_cap_request_evt_def btu_hcif_io_cap_response_evt_def btu_hcif_user_conf_request_evt_def
  btu_hcif_user_passkey_request_evt_def btu_hcif_user_passkey_notif_evt_def btu_hcif_keypress_notif_evt_def
  btu_hcif_rem_oob_request_evt_def btu_hcif_simple_pair_complete_evt_def

lemma readable_at_le: "readable_at b p n \<Longrightarrow> m \<le> n \<Longrightarrow> readable_at b p m"
  by (auto simp: readable_at_def)

lemma core_evt_inject: "core_evt e = core_evt e' \<longleftrightarrow> e = e'"
  by (cases e; cases e') simp_all

text \<open>No handler reads more than the fixed parameters of its event.\<close>

lemma handlers_read:
  assumes "(e, h) \<in> set (event_table E V B A b p n)" "e \<noteq> HCI_BLE_EVENT" "readable_at b p (core_min e)"
  shows "\<exists>cs. h = Some cs"
  using assms
  by (auto simp: event_table_def handler_defs rd_in Let_def)

lemma evt_need:
  assumes "evt_hdrs_ok V" "\<And>e. code = core_evt e \<Longrightarrow> readable_at b p (core_min e)"
    and "code \<in> set (map (evt_code V) es)" "\<forall>e\<in>set es. k \<le> core_min e"
  shows "readable_at b p k"
  using assms(2-4) readable_at_le [of b p] by (auto simp: evt_hdrs_okD [OF assms(1)])

lemma metrics_read:
  assumes V: "evt_hdrs_ok V" and r: "\<And>e. code = core_evt e \<Longrightarrow> readable_at b p (core_min e)"
  shows "\<exists>ms. btu_hcif_log_event_metrics E V code b p = Some ms"
proof -
  note need = evt_need [OF V r]
  have pairing: "\<exists>x. rd_bdaddr E b p = Some x"
    if "code \<in> set (map (evt_code V) [HCI_IO_CAPABILITY_REQUEST_EVT, HCI_IO_CAPABILITY_RESPONSE_EVT, HCI_LINK_KEY_REQUEST_EVT,
             HCI_LINK_KEY_NOTIFICATION_EVT, HCI_USER_PASSKEY_REQUEST_EVT, HCI_USER_PASSKEY_NOTIFY_EVT,
             HCI_USER_CONFIRMATION_REQUEST_EVT, HCI_KEYPRESS_NOTIFY_EVT, HCI_REMOTE_OOB_DATA_REQUEST_EVT])"
    using need [OF _ that, of 6] by (simp add: rd_in)
  have simple: "\<exists>x. rd8 b p = Some x" "\<exists>x. rd_bdaddr E b (p + 1) = Some x"
    if "code \<in> set (map (evt_code V) [HCI_SIMPLE_PAIRING_COMPLETE_EVT, HCI_RMT_NAME_REQUEST_COMP_EVT])"
    using need [OF _ that, of 7] by (simp_all add: rd_in)
  have auth: "\<exists>x. rd8 b p = Some x" "\<exists>x. rd16 E b (p + 1) = Some x"
    if "code \<in> set (map (evt_code V) [HCI_AUTHENTICATION_COMP_EVT])"
    using need [OF _ that, of 3] by (simp_all add: rd_in)
  have enc: "\<exists>x. rd8 b p = Some x" "\<exists>x. rd16 E b (p + 1) = Some x" "\<exists>x. rd8 b (p + 3) = Some x"
    if "code \<in> set (map (evt_code V) [HCI_ENCRYPTION_CHANGE_EVT])"
    using need [OF _ that, of 4] by (simp_all add: rd_in)
  have disc: "\<exists>x. rd8 b p = Some x" "\<exists>x. rd16 E b (p + 1) = Some x" "\<exists>x. rd8 b (p + 3) = Some x"
    if "code \<in> set (map (evt_code V) [HCI_DISCONNECTION_COMP_EVT])"
    using need [OF _ that, of 4] by (simp_all add: rd_in)
  have conn: "\<exists>x. rd8 b p = Some x" "\<exists>x. rd16 E b (p + 1) = Some x" "\<exists>x. rd_bdaddr E b (p + 3) = Some x" "\<exists>x. rd8 b (p + 9) = Some x"
    if "code \<in> set (map (evt_code V) [HCI_CONNECTION_COMP_EVT, HCI_ESCO_CONNECTION_COMP_EVT])"
    using need [OF _ that, of 11] by (simp_all add: rd_in)
  have req: "\<exists>x. rd_bdaddr E b p = Some x" "\<exists>x. rd_devclass V b (p + 6) = Some x" "\<exists>x. rd8 b (p + 9) = Some x"
    if "code \<in> set (map (evt_code V) [HCI_CONNECTION_REQUEST_EVT])"
    using need [OF _ that, of 10] by (simp_all add: rd_in)
  have esco: "\<exists>x. rd8 b p = Some x" "\<exists>x. rd16 E b (p + 1) = Some x"
    if "code \<in> set (map (evt_code V) [HCI_ESCO_CONNECTION_CHANGED_EVT])"
    using need [OF _ that, of 3] by (simp_all add: rd_in)
  show ?thesis
    unfolding btu_hcif_log_event_metrics_def Let_def
    by (split if_split, intro conjI impI, use pairing in fastforce,
        split if_split, intro conjI impI, use simple in fastforce,
        split if_split, intro conjI impI, use auth in fastforce,
        split if_split, intro conjI impI, use enc in fastforce,
        split if_split, intro conjI impI, use conn in fastforce,
        split if_split, intro conjI impI, use req in fastforce,
        split if_split, intro conjI impI, use disc in fastforce,
        split if_split, intro conjI impI, use esco in fastforce, simp)
qed

text \<open>C34: The dispatcher never reads past an event. When the bytes of an event are present as far as
  its length byte says, processing it does not fault, for every event code but that of LE events:
  an event that is shorter than the table requires is dropped without any call, and the metrics and
  the handler of any other event stay within its fixed parameters.\<close>

theorem event_reads_within:
  assumes E: "hdrs_ok E" and V: "evt_hdrs_ok V" and hd: "rd8 b (unat (bt_offset b)) = Some code" "rd8 b (unat (bt_offset b) + 1) = Some n"
    and r: "readable_at b (unat (bt_offset b) + 2) (unat n)" and le: "code \<noteq> evt_code V HCI_BLE_EVENT"
  shows "\<exists>ms calls. btu_hcif_process_event E V B A b = Some (ms, calls) \<and>
    (n < hci_event_parameters_minimum_length V code \<longrightarrow> ms = [] \<and> calls = [])"
proof (cases "n < hci_event_parameters_minimum_length V code")
  case True
  then show ?thesis using hd by (simp add: btu_hcif_process_event_def Let_def)
next
  case False
  let ?p = "unat (bt_offset b) + 2"
  have m: "readable_at b ?p (core_min e)" if "code = core_evt e" for e
  proof (rule readable_at_le [OF r])
    have "unat (hci_event_parameters_minimum_length V code) \<le> unat n" using False by (simp add: word_le_nat_alt not_less)
    then show "core_min e \<le> unat n" using evt_hdrs_okD(4) [OF V, of e] that by simp
  qed
  obtain ms where ms: "btu_hcif_log_event_metrics E V code b ?p = Some ms" using metrics_read [OF V m] by blast
  have h: "\<exists>cs. h = Some cs" if "map_of (map (\<lambda>(e, h). (evt_code V e, h)) (event_table E V B A b ?p n)) code = Some h" for h
  proof -
    obtain e where e: "(e, h) \<in> set (event_table E V B A b ?p n)" "code = core_evt e"
      using map_of_SomeD [OF \<open>map_of _ code = Some h\<close>] by (auto simp: evt_hdrs_okD [OF V])
    moreover have "e \<noteq> HCI_BLE_EVENT" using le e by (auto simp: evt_hdrs_okD [OF V])
    ultimately show ?thesis using handlers_read m by blast
  qed
  show ?thesis using hd ms h False
    by (auto simp: btu_hcif_process_event_def Let_def split: option.split)
qed

text \<open>Header values and a stack for the witnesses.\<close>

definition demo_evt_hdrs :: evt_hdrs where
  "demo_evt_hdrs = \<lparr>evt_code = core_evt, ble_evt_code = core_ble_evt, evt_byte = core_evt_byte, evt_word = (\<lambda>_. 0xFFFF),
     hci_event_parameters_minimum_length = (\<lambda>c. if c = 0x3E then 0 else if c = 0x05 then 4 else 255), hcid_get_handle = (\<lambda>h. h AND 0x0FFF),
     stream_to_uint32 = (\<lambda>_. 0), stream_to_devclass = rev, stream_to_array16 = rev\<rparr>"

lemma demo_evt_hdrs_ok: "evt_hdrs_ok demo_evt_hdrs"
proof -
  have "core_min e \<le> unat (if core_evt e = 0x3E then 0 else if core_evt e = 0x05 then 4 else 255 :: u8)" for e by (cases e) simp_all
  then show ?thesis by (simp add: evt_hdrs_ok_def demo_evt_hdrs_def)
qed

definition demo_btm :: btm_ext where
  "demo_btm = \<lparr>ble_llt_included = True, btm_ssr_included = True, l2cap_non_flushable_pb_included = True, hid_dev_pm_included = True,
     btm_is_ble_connection = (\<lambda>_. False), supports_read_encryption_key_size = True, supports_ble_packet_extension = True,
     btm_is_device_up = True, btm_is_sco_active = (\<lambda>_. False), btm_sec_is_session_key_size_downgrade = (\<lambda>_ _. False)\<rparr>"

theorem event_reads_within_witness:
  "\<exists>ms calls. btu_hcif_process_event core_hdrs demo_evt_hdrs demo_btu_ext demo_btm
     \<lparr>bt_event = None, bt_len = 6, bt_offset = 0, bt_data = map Some [0x05, 4, 0, 0x0B, 0, 0x13]\<rparr> = Some (ms, calls)"
proof -
  let ?b = "\<lparr>bt_event = None, bt_len = 6, bt_offset = 0, bt_data = map Some [0x05 :: u8, 4, 0, 0x0B, 0, 0x13]\<rparr>"
  have r: "rd8 ?b (unat (bt_offset ?b)) = Some 0x05" "rd8 ?b (unat (bt_offset ?b) + 1) = Some 4"
    by (simp_all add: rd8_def)
  have q: "readable_at ?b (unat (bt_offset ?b) + 2) (unat (4 :: u8))"
    by (rule readable_at_data [where bs = "[0x05, 4, 0, 0x0B, 0, 0x13]"]) simp_all
  have c: "(0x05 :: u8) \<noteq> evt_code demo_evt_hdrs HCI_BLE_EVENT" by (simp add: demo_evt_hdrs_def)
  show ?thesis using event_reads_within [OF core_hdrs_ok demo_evt_hdrs_ok r q c, of demo_btu_ext demo_btm] by blast
qed

section \<open>Encryption\<close>



section \<open>Refused commands\<close>










section \<open>LE events\<close>

lemma ble_event_data_length:
  assumes V: "evt_hdrs_ok V" and r: "rd8 b p = Some 7"
  shows "ble_event E V B A b p n = btu_ble_data_length_change_evt E A b (p + 1) n"
  using r by (cases "ble_privacy_spt B"; cases "ble_llt_included A") (simp_all add: ble_event_def evt_hdrs_okD [OF V])

text \<open>C37: The check of the LE data length event is off by one. The handler is given the length of the
  whole LE event, which counts the subevent code, and asks for at least eight bytes; it then reads
  eight bytes behind that code. Of the lengths that the table admits exactly one faults: an event that
  says it is eight bytes long and ends there is read one byte past its end, shorter ones are dropped
  and longer ones are read within their length.\<close>

theorem data_length_overread:
  assumes E: "hdrs_ok E" and V: "evt_hdrs_ok V" and A: "supports_ble_packet_extension A"
    and b: "bt_offset b = 0" "bt_data b = map Some (0x3E # n # 7 # ps)" "length ps + 1 = unat n"
    and m: "hci_event_parameters_minimum_length V 0x3E \<le> n"
  shows "btu_hcif_process_event E V B A b = None \<longleftrightarrow> n = 8"
proof -
  have rd: "rd8 b 0 = Some 0x3E" "rd8 b 1 = Some n" "rd8 b 2 = Some 7" by (simp_all add: rd8_def b)
  have none: "btu_hcif_log_event_metrics E V 0x3E b 2 = Some []"
    by (simp add: btu_hcif_log_event_metrics_def evt_hdrs_okD [OF V] Let_def)
  have ble: "map_of (map (\<lambda>(e, h). (evt_code V e, h)) (event_table E V B A b 2 n)) 0x3E = Some (ble_event E V B A b 2 n)"
    by (simp add: event_table_def evt_hdrs_okD [OF V])
  have "btu_hcif_process_event E V B A b = map_option (\<lambda>cs. ([], cs)) (btu_ble_data_length_change_evt E A b 3 n)"
    using rd none ble linorder_not_less [THEN iffD2, OF m] ble_event_data_length [OF V rd(3), of E B A n]
    by (cases "btu_ble_data_length_change_evt E A b 3 n")
      (simp_all add: btu_hcif_process_event_def b Let_def hdrs_okD [OF E] del: add_2_eq_Suc')
  moreover have "btu_ble_data_length_change_evt E A b 3 n = None \<longleftrightarrow> n = 8"
  proof (cases "n < 8")
    case True
    then show ?thesis using A by (auto simp: btu_ble_data_length_change_evt_def)
  next
    case False
    show ?thesis
    proof (cases "n = 8")
      case True
      then have "rd16 E b 9 = None" using b by (simp add: rd16_def rd8_def Option.bind_eq_None_conv)
      then show ?thesis using True A by (auto simp: btu_ble_data_length_change_evt_def Option.bind_eq_None_conv)
    next
      case n: False
      then have "8 < n" using False by simp
      then have "9 \<le> unat n" by (simp add: word_less_nat_alt)
      then have "readable_at b 3 8" using b by (intro readable_at_data [where bs = "0x3E # n # 7 # ps"]) simp_all
      then show ?thesis using n False A by (simp add: btu_ble_data_length_change_evt_def rd_in)
    qed
  qed
  ultimately show ?thesis by simp
qed

theorem data_length_overread_witness:
  "btu_hcif_process_event core_hdrs demo_evt_hdrs demo_btu_ext demo_btm
     \<lparr>bt_event = None, bt_len = 10, bt_offset = 0, bt_data = map Some [0x3E, 8, 7, 1, 0, 27, 0, 72, 1, 27]\<rparr> = None"
  using data_length_overread [OF core_hdrs_ok demo_evt_hdrs_ok, of demo_btm
      "\<lparr>bt_event = None, bt_len = 10, bt_offset = 0, bt_data = map Some [0x3E, 8, 7, 1, 0, 27, 0, 72, 1, 27]\<rparr>" 8 "[1, 0, 27, 0, 72, 1, 27]"]
  by (simp add: demo_evt_hdrs_def demo_btm_def)

end
