(* ===== verification/Hci_Parser.thy ===== *)
theory Hci_Parser
  imports Hci_Env
begin

text \<open>
  The parser of command complete events (\<open>hci_packet_parser.cc\<close>). A parser takes the response
  packet, returns what it writes through its pointer arguments, and the packets it gives to
  \<open>buffer_allocator->free\<close>. A failed \<open>CHECK\<close> aborts the process; reading outside the packet or
  through a null stream, or writing outside the caller's array, is a memory fault.
\<close>

named_theorems parser_simps \<open>unfolding of the parsers\<close>

section \<open>Vocabulary\<close>

datatype stop = Check_failed | Bad_access

type_synonym 'a checked = "stop + 'a"

definition CHECK :: "bool \<Rightarrow> 'a checked \<Rightarrow> 'a checked" where
  "CHECK c k = (if c then k else Inl Check_failed)"

definition access :: "'a option \<Rightarrow> ('a \<Rightarrow> 'b checked) \<Rightarrow> 'b checked" where
  "access m k = (case m of None \<Rightarrow> Inl Bad_access | Some x \<Rightarrow> k x)"

definition and_then :: "'a checked \<Rightarrow> ('a \<Rightarrow> 'b checked) \<Rightarrow> 'b checked" where
  "and_then m k = (case m of Inl e \<Rightarrow> Inl e | Inr x \<Rightarrow> k x)"

lemma checked_simps [parser_simps]:
  "CHECK True k = k" "CHECK False k = Inl Check_failed" "access None f = Inl Bad_access" "access (Some x) f = f x"
  "and_then (Inl e) g = Inl e" "and_then (Inr y) g = g y"
  by (simp_all add: CHECK_def access_def and_then_def)

lemma checked_Inr:
  "CHECK c k = Inr y \<longleftrightarrow> c \<and> k = Inr y" "access m f = Inr y \<longleftrightarrow> (\<exists>x. m = Some x \<and> f x = Inr y)"
  "and_then n g = Inr y \<longleftrightarrow> (\<exists>x. n = Inr x \<and> g x = Inr y)"
  by (auto simp: CHECK_def access_def and_then_def split: option.splits sum.splits)

text \<open>
  What further headers define: the size of a page of features (\<open>device_features.h\<close>), the length of
  an address (\<open>raw_address.h\<close>) and the macro that reads an array (\<open>bt_types.h\<close>).
\<close>

record parse_hdrs =
  sizeof_features :: nat
  kLength :: nat
  stream_to_array :: "bytes \<Rightarrow> bytes"

definition parse_hdrs_ok :: "parse_hdrs \<Rightarrow> bool" where
  "parse_hdrs_ok D \<longleftrightarrow> sizeof_features D = 8 \<and> kLength D = 6 \<and> (\<forall>bs. stream_to_array D bs = bs)"

definition core_parse_hdrs :: parse_hdrs where
  "core_parse_hdrs = \<lparr>sizeof_features = 8, kLength = 6, stream_to_array = (\<lambda>bs. bs)\<rparr>"

lemma core_parse_hdrs_ok [simp]: "parse_hdrs_ok core_parse_hdrs"
  by (simp add: parse_hdrs_ok_def core_parse_hdrs_def)

lemma parse_hdrs_okD [parser_simps]:
  "parse_hdrs_ok D \<Longrightarrow> sizeof_features D = 8" "parse_hdrs_ok D \<Longrightarrow> kLength D = 6"
  "parse_hdrs_ok D \<Longrightarrow> stream_to_array D bs = bs"
  by (simp_all add: parse_hdrs_ok_def)

definition rd_array :: "parse_hdrs \<Rightarrow> bt_hdr \<Rightarrow> nat \<Rightarrow> nat \<Rightarrow> bytes option" where
  "rd_array D r n pos = map_option (stream_to_array D) (rd_bytes r pos n)"

section \<open>The header of a command complete event\<close>

definition NO_OPCODE_CHECKING :: u16 where
  "NO_OPCODE_CHECKING = 0"

text \<open>The result is the position behind the status, or a null stream.\<close>

definition read_command_complete_header :: "hci_hdrs \<Rightarrow> bt_hdr \<Rightarrow> u16 \<Rightarrow> nat \<Rightarrow> nat option checked" where
  "read_command_complete_header E response expected_opcode minimum_bytes_after =
     (let stream = unat (bt_offset response); parameter_bytes_we_read_here = 4 in
      access (rd8 response stream) (\<lambda>event_code.
      access (rd8 response (stream + 1)) (\<lambda>parameter_length.
        if event_code \<noteq> hci_byte E HCI_COMMAND_COMPLETE_EVT then Inr None
        else CHECK (parameter_bytes_we_read_here + minimum_bytes_after \<le> unat parameter_length)
          (access (rd16 E response (stream + 3)) (\<lambda>opcode.
             CHECK (expected_opcode \<noteq> NO_OPCODE_CHECKING \<longrightarrow> opcode = expected_opcode)
               (access (rd8 response (stream + 5)) (\<lambda>status.
                  Inr (if status \<noteq> hci_byte E HCI_SUCCESS then None else Some (stream + 6)))))))))"

text \<open>
  The two shapes of a parser: with and without \<open>CHECK(stream != NULL)\<close> before the reads. Both end
  by freeing the response.
\<close>

definition with_stream :: "bt_hdr \<Rightarrow> nat option checked \<Rightarrow> (nat \<Rightarrow> 'a option) \<Rightarrow> ('a \<times> bt_hdr list) checked" where
  "with_stream response header reads =
     and_then header (\<lambda>stream. CHECK (stream \<noteq> None)
       (access (Option.bind stream reads) (\<lambda>v. Inr (v, [response]))))"

definition with_any_stream :: "bt_hdr \<Rightarrow> nat option checked \<Rightarrow> (nat \<Rightarrow> 'a option) \<Rightarrow> ('a \<times> bt_hdr list) checked" where
  "with_any_stream response header reads =
     and_then header (\<lambda>stream. access (Option.bind stream reads) (\<lambda>v. Inr (v, [response])))"

section \<open>The parsers\<close>

record bt_version =
  hci_version :: u8
  hci_revision :: u16
  lmp_version :: u8
  manufacturer :: u16
  lmp_subversion :: u16

definition parse_generic_command_complete :: "hci_hdrs \<Rightarrow> bt_hdr \<Rightarrow> (unit \<times> bt_hdr list) checked" where
  "parse_generic_command_complete E response =
     and_then (read_command_complete_header E response NO_OPCODE_CHECKING 0) (\<lambda>_. Inr ((), [response]))"

definition parse_read_buffer_size_response :: "hci_hdrs \<Rightarrow> bt_hdr \<Rightarrow> ((u16 \<times> u16) \<times> bt_hdr list) checked" where
  "parse_read_buffer_size_response E response =
     with_stream response (read_command_complete_header E response (hci_info_opcode E HCI_READ_BUFFER_SIZE) 5)
       (\<lambda>p. do { data_size \<leftarrow> rd16 E response p; acl_buffer_count \<leftarrow> rd16 E response (p + 3);
                 Some (data_size, acl_buffer_count) })"

definition parse_read_local_version_info_response :: "hci_hdrs \<Rightarrow> bt_hdr \<Rightarrow> (bt_version \<times> bt_hdr list) checked" where
  "parse_read_local_version_info_response E response =
     with_stream response (read_command_complete_header E response (hci_info_opcode E HCI_READ_LOCAL_VERSION_INFO) 8)
       (\<lambda>p. do { hv \<leftarrow> rd8 response p; hr \<leftarrow> rd16 E response (p + 1); lv \<leftarrow> rd8 response (p + 3);
                 mf \<leftarrow> rd16 E response (p + 4); ls \<leftarrow> rd16 E response (p + 6);
                 Some \<lparr>hci_version = hv, hci_revision = hr, lmp_version = lv, manufacturer = mf, lmp_subversion = ls\<rparr> })"

text \<open>The loop of the codecs: one byte from the stream to the next element of the caller's array.\<close>

fun copy_codecs :: "bt_hdr \<Rightarrow> nat \<Rightarrow> nat \<Rightarrow> nat \<Rightarrow> bytes \<Rightarrow> bytes option" where
  "copy_codecs response p i 0 codecs = Some codecs"
| "copy_codecs response p i (Suc n) codecs =
     do { b \<leftarrow> rd8 response p;
          if i < length codecs then copy_codecs response (p + 1) (i + 1) n (codecs[i := b]) else None }"

definition parse_read_local_supported_codecs_response ::
    "hci_hdrs \<Rightarrow> u8 \<Rightarrow> bytes \<Rightarrow> bt_hdr \<Rightarrow> ((u8 \<times> bytes) \<times> bt_hdr list) checked" where
  "parse_read_local_supported_codecs_response E number codecs response =
     and_then (read_command_complete_header E response (hci_info_opcode E HCI_READ_LOCAL_SUPPORTED_CODECS) 0) (\<lambda>stream.
       case stream of
         None \<Rightarrow> Inr ((number, codecs), [response])
       | Some p \<Rightarrow>
           access (rd8 response p) (\<lambda>n.
           access (copy_codecs response (p + 1) 0 (unat n) codecs) (\<lambda>codecs'. Inr ((n, codecs'), [response]))))"

definition parse_ble_read_offload_features_response :: "hci_hdrs \<Rightarrow> bt_hdr \<Rightarrow> (bool \<times> bt_hdr list) checked" where
  "parse_ble_read_offload_features_response E response =
     and_then (read_command_complete_header E response NO_OPCODE_CHECKING 0) (\<lambda>stream. Inr (stream \<noteq> None, [response]))"

definition parse_read_bd_addr_response :: "hci_hdrs \<Rightarrow> parse_hdrs \<Rightarrow> bt_hdr \<Rightarrow> (raw_address \<times> bt_hdr list) checked" where
  "parse_read_bd_addr_response E D response =
     with_stream response (read_command_complete_header E response (hci_info_opcode E HCI_READ_BD_ADDR) (kLength D))
       (rd_bdaddr E response)"

definition parse_read_local_supported_commands_response ::
    "hci_hdrs \<Rightarrow> parse_hdrs \<Rightarrow> nat \<Rightarrow> bt_hdr \<Rightarrow> (bytes \<times> bt_hdr list) checked" where
  "parse_read_local_supported_commands_response E D supported_commands_length response =
     with_stream response
       (read_command_complete_header E response (hci_info_opcode E HCI_READ_LOCAL_SUPPORTED_CMDS) supported_commands_length)
       (rd_array D response supported_commands_length)"

definition parse_read_local_extended_features_response ::
    "hci_hdrs \<Rightarrow> parse_hdrs \<Rightarrow> bytes list \<Rightarrow> nat \<Rightarrow> bt_hdr \<Rightarrow> ((u8 \<times> u8 \<times> bytes list) \<times> bt_hdr list) checked" where
  "parse_read_local_extended_features_response E D feature_pages feature_pages_count response =
     and_then (read_command_complete_header E response (hci_info_opcode E HCI_READ_LOCAL_EXT_FEATURES) (2 + sizeof_features D))
       (\<lambda>stream. CHECK (stream \<noteq> None)
         (access (Option.bind stream (rd8 response)) (\<lambda>page_number.
          access (Option.bind stream (\<lambda>p. rd8 response (p + 1))) (\<lambda>max_page_number.
            CHECK (unat page_number < feature_pages_count)
              (access (Option.bind stream (\<lambda>p. rd_array D response (sizeof_features D) (p + 2))) (\<lambda>features.
                 if unat page_number < length feature_pages
                 then Inr ((page_number, max_page_number, feature_pages[unat page_number := features]), [response])
                 else Inl Bad_access))))))"

definition parse_ble_read_white_list_size_response :: "hci_hdrs \<Rightarrow> bt_hdr \<Rightarrow> (u8 \<times> bt_hdr list) checked" where
  "parse_ble_read_white_list_size_response E response =
     with_stream response (read_command_complete_header E response (hci_info_opcode E HCI_BLE_READ_WHITE_LIST_SIZE) 1)
       (rd8 response)"

definition parse_ble_read_buffer_size_response :: "hci_hdrs \<Rightarrow> bt_hdr \<Rightarrow> ((u16 \<times> u8) \<times> bt_hdr list) checked" where
  "parse_ble_read_buffer_size_response E response =
     with_stream response (read_command_complete_header E response (hci_info_opcode E HCI_BLE_READ_BUFFER_SIZE) 3)
       (\<lambda>p. do { data_size \<leftarrow> rd16 E response p; acl_buffer_count \<leftarrow> rd8 response (p + 2);
                 Some (data_size, acl_buffer_count) })"

definition parse_ble_read_supported_states_response ::
    "hci_hdrs \<Rightarrow> parse_hdrs \<Rightarrow> nat \<Rightarrow> bt_hdr \<Rightarrow> (bytes \<times> bt_hdr list) checked" where
  "parse_ble_read_supported_states_response E D supported_states_size response =
     with_stream response
       (read_command_complete_header E response (hci_info_opcode E HCI_BLE_READ_SUPPORTED_STATES) supported_states_size)
       (rd_array D response supported_states_size)"

definition parse_ble_read_local_supported_features_response ::
    "hci_hdrs \<Rightarrow> parse_hdrs \<Rightarrow> bt_hdr \<Rightarrow> (bytes \<times> bt_hdr list) checked" where
  "parse_ble_read_local_supported_features_response E D response =
     with_stream response
       (read_command_complete_header E response (hci_info_opcode E HCI_BLE_READ_LOCAL_SPT_FEAT) (sizeof_features D))
       (rd_array D response (sizeof_features D))"

text \<open>The last five parsers read through the stream without asking whether there is one.\<close>

definition parse_ble_read_resolving_list_size_response :: "hci_hdrs \<Rightarrow> bt_hdr \<Rightarrow> (u8 \<times> bt_hdr list) checked" where
  "parse_ble_read_resolving_list_size_response E response =
     with_any_stream response (read_command_complete_header E response (hci_info_opcode E HCI_BLE_READ_RESOLVING_LIST_SIZE) 1)
       (rd8 response)"

definition parse_ble_read_suggested_default_data_length_response :: "hci_hdrs \<Rightarrow> bt_hdr \<Rightarrow> (u16 \<times> bt_hdr list) checked" where
  "parse_ble_read_suggested_default_data_length_response E response =
     with_any_stream response (read_command_complete_header E response (hci_info_opcode E HCI_BLE_READ_DEFAULT_DATA_LENGTH) 2)
       (rd16 E response)"

definition parse_ble_read_maximum_data_length_response ::
    "hci_hdrs \<Rightarrow> bt_hdr \<Rightarrow> ((u16 \<times> u16 \<times> u16 \<times> u16) \<times> bt_hdr list) checked" where
  "parse_ble_read_maximum_data_length_response E response =
     with_any_stream response (read_command_complete_header E response (hci_info_opcode E HCI_BLE_READ_MAXIMUM_DATA_LENGTH) 8)
       (\<lambda>p. do { tx_octets \<leftarrow> rd16 E response p; tx_time \<leftarrow> rd16 E response (p + 2);
                 rx_octets \<leftarrow> rd16 E response (p + 4); rx_time \<leftarrow> rd16 E response (p + 6);
                 Some (tx_octets, tx_time, rx_octets, rx_time) })"

definition parse_ble_read_maximum_advertising_data_length :: "hci_hdrs \<Rightarrow> bt_hdr \<Rightarrow> (u16 \<times> bt_hdr list) checked" where
  "parse_ble_read_maximum_advertising_data_length E response =
     with_any_stream response
       (read_command_complete_header E response (hci_info_opcode E HCI_LE_READ_MAXIMUM_ADVERTISING_DATA_LENGTH) 2)
       (rd16 E response)"

definition parse_ble_read_number_of_supported_advertising_sets :: "hci_hdrs \<Rightarrow> bt_hdr \<Rightarrow> (u8 \<times> bt_hdr list) checked" where
  "parse_ble_read_number_of_supported_advertising_sets E response =
     with_any_stream response
       (read_command_complete_header E response (hci_info_opcode E HCI_LE_READ_NUMBER_OF_SUPPORTED_ADVERTISING_SETS) 1)
       (rd8 response)"

section \<open>Successful responses\<close>

text \<open>
  A successful command complete event as the Core Specification lays it out: event code, parameter
  length, command credits, opcode, status and return parameters. A response answers a command with
  return parameters when it holds these bytes from its offset on.
\<close>

definition command_complete :: "u8 \<Rightarrow> u16 \<Rightarrow> bytes \<Rightarrow> bytes" where
  "command_complete n op ret = [0x0E, of_nat (4 + length ret), n, ucast op, ucast (drop_bit 8 op), 0] @ ret"

definition answers_with :: "bt_hdr \<Rightarrow> u16 \<Rightarrow> bytes \<Rightarrow> bool" where
  "answers_with r op ret \<longleftrightarrow> length ret \<le> 251 \<and>
     (\<exists>n. \<forall>k < 6 + length ret. rd8 r (unat (bt_offset r) + k) = Some (command_complete n op ret ! k))"

definition le16 :: "bytes \<Rightarrow> nat \<Rightarrow> u16" where
  "le16 bs k = ucast (bs ! k) OR push_bit 8 (ucast (bs ! (k + 1)))"

lemma answers_rd8:
  assumes "answers_with r op ret" "k < length ret"
  shows "rd8 r (unat (bt_offset r) + 6 + k) = Some (ret ! k)"
proof -
  obtain n where "\<forall>k < 6 + length ret. rd8 r (unat (bt_offset r) + k) = Some (command_complete n op ret ! k)"
    using assms(1) by (auto simp: answers_with_def)
  then have "rd8 r (unat (bt_offset r) + (6 + k)) = Some (command_complete n op ret ! (6 + k))"
    using assms(2) by (metis nat_add_left_cancel_less)
  then show ?thesis by (simp add: command_complete_def nth_append add.assoc)
qed

lemma answers_first_of:
  "answers_with r op ret \<Longrightarrow> m \<le> length ret \<Longrightarrow> m \<noteq> 0 \<Longrightarrow> rd8 r (unat (bt_offset r) + 6) = Some (ret ! 0)"
  using answers_rd8 [of r op ret 0] by (cases ret) auto

lemma answers_rd16:
  assumes "hdrs_ok E" "answers_with r op ret" "k + 2 \<le> length ret"
  shows "rd16 E r (unat (bt_offset r) + 6 + k) = Some (le16 ret k)"
  using answers_rd8 [OF assms(2), of k] answers_rd8 [OF assms(2), of "k + 1"] assms(3)
  by (simp add: rd16_def le16_def hdrs_okD [OF assms(1)] add.assoc)

lemma answers_rd_bytes:
  "answers_with r op ret \<Longrightarrow> k + n \<le> length ret \<Longrightarrow>
   rd_bytes r (unat (bt_offset r) + 6 + k) n = Some (take n (drop k ret))"
proof (induction n arbitrary: k)
  case (Suc n)
  then have "rd_bytes r (unat (bt_offset r) + 6 + Suc k) n = Some (take n (drop (Suc k) ret))" by (intro Suc.IH) simp_all
  then show ?case using answers_rd8 [OF Suc.prems(1), of k] Suc.prems(2)
    by (simp add: Cons_nth_drop_Suc [symmetric])
qed simp

lemma answers_header:
  assumes E: "hdrs_ok E" and a: "answers_with r op ret" and m: "m \<le> length ret"
    and ex: "ex = op \<or> ex = NO_OPCODE_CHECKING"
  shows "read_command_complete_header E r ex m = Inr (Some (unat (bt_offset r) + 6))"
proof -
  obtain n where n: "\<forall>k < 6 + length ret. rd8 r (unat (bt_offset r) + k) = Some (command_complete n op ret ! k)"
    and l: "length ret \<le> 251"
    using a by (auto simp: answers_with_def)
  have at: "rd8 r (unat (bt_offset r) + k) = Some (command_complete n op ret ! k)" if "k < 6" for k
    using n that by simp
  have len: "unat (of_nat (4 + length ret) :: u8) = 4 + length ret"
    using l by (simp add: unat_of_nat take_bit_nat_eq_self del: of_nat_add)
  have op: "rd16 E r (unat (bt_offset r) + 3) = Some op"
    using at [of 3] at [of 4] by (simp add: rd16_def command_complete_def hdrs_okD [OF E] join16 add.assoc add.commute)
  show ?thesis
    using at [of 0] at [of 1] at [of 5] m ex len op
    by (auto simp: read_command_complete_header_def command_complete_def hdrs_okD [OF E] parser_simps
        Let_def simp del: of_nat_add)
qed

text \<open>What each parser makes of a successful response, and that it frees the response.\<close>

lemma parse_answers:
  assumes E: "hdrs_ok E" and D: "parse_hdrs_ok D"
  shows "answers_with r op ret \<Longrightarrow> parse_generic_command_complete E r = Inr ((), [r])"
    "answers_with r op ret \<Longrightarrow> parse_ble_read_offload_features_response E r = Inr (True, [r])"
    "answers_with r 0x1005 ret \<Longrightarrow> 5 \<le> length ret \<Longrightarrow>
      parse_read_buffer_size_response E r = Inr ((le16 ret 0, le16 ret 3), [r])"
    "answers_with r 0x1001 ret \<Longrightarrow> 8 \<le> length ret \<Longrightarrow>
      parse_read_local_version_info_response E r =
        Inr (\<lparr>hci_version = ret ! 0, hci_revision = le16 ret 1, lmp_version = ret ! 3, manufacturer = le16 ret 4,
              lmp_subversion = le16 ret 6\<rparr>, [r])"
    "answers_with r 0x1009 ret \<Longrightarrow> 6 \<le> length ret \<Longrightarrow>
      parse_read_bd_addr_response E D r = Inr (rev (take 6 ret), [r])"
    "answers_with r 0x1002 ret \<Longrightarrow> n \<le> length ret \<Longrightarrow>
      parse_read_local_supported_commands_response E D n r = Inr (take n ret, [r])"
    "answers_with r 0x1004 ret \<Longrightarrow> 10 \<le> length ret \<Longrightarrow> unat (ret ! 0) < count \<Longrightarrow> unat (ret ! 0) < length pages \<Longrightarrow>
      parse_read_local_extended_features_response E D pages count r =
        Inr ((ret ! 0, ret ! 1, pages[unat (ret ! 0) := take 8 (drop 2 ret)]), [r])"
    "answers_with r 0x200F ret \<Longrightarrow> 1 \<le> length ret \<Longrightarrow> parse_ble_read_white_list_size_response E r = Inr (ret ! 0, [r])"
    "answers_with r 0x2002 ret \<Longrightarrow> 3 \<le> length ret \<Longrightarrow>
      parse_ble_read_buffer_size_response E r = Inr ((le16 ret 0, ret ! 2), [r])"
    "answers_with r 0x201C ret \<Longrightarrow> n \<le> length ret \<Longrightarrow>
      parse_ble_read_supported_states_response E D n r = Inr (take n ret, [r])"
    "answers_with r 0x2003 ret \<Longrightarrow> 8 \<le> length ret \<Longrightarrow>
      parse_ble_read_local_supported_features_response E D r = Inr (take 8 ret, [r])"
    "answers_with r 0x202A ret \<Longrightarrow> 1 \<le> length ret \<Longrightarrow> parse_ble_read_resolving_list_size_response E r = Inr (ret ! 0, [r])"
    "answers_with r 0x2023 ret \<Longrightarrow> 2 \<le> length ret \<Longrightarrow>
      parse_ble_read_suggested_default_data_length_response E r = Inr (le16 ret 0, [r])"
    "answers_with r 0x202F ret \<Longrightarrow> 8 \<le> length ret \<Longrightarrow>
      parse_ble_read_maximum_data_length_response E r = Inr ((le16 ret 0, le16 ret 2, le16 ret 4, le16 ret 6), [r])"
    "answers_with r 0x203A ret \<Longrightarrow> 2 \<le> length ret \<Longrightarrow>
      parse_ble_read_maximum_advertising_data_length E r = Inr (le16 ret 0, [r])"
    "answers_with r 0x203B ret \<Longrightarrow> 1 \<le> length ret \<Longrightarrow>
      parse_ble_read_number_of_supported_advertising_sets E r = Inr (ret ! 0, [r])"
  subgoal by (simp add: parse_generic_command_complete_def answers_header [OF E] parser_simps)
  subgoal by (simp add: parse_ble_read_offload_features_response_def answers_header [OF E] parser_simps)
  subgoal using answers_rd16 [OF E, of r "0x1005" ret 0] answers_rd16 [OF E, of r "0x1005" ret 3]
    by (simp add: parse_read_buffer_size_response_def with_stream_def answers_header [OF E] parser_simps hdrs_okD [OF E])
  subgoal premises p using p(1) answers_first_of [OF p] answers_rd16 [OF E p(1), of 1] answers_rd8 [OF p(1), of 3]
      answers_rd16 [OF E p(1), of 4] answers_rd16 [OF E p(1), of 6] p(2)
    by (simp add: parse_read_local_version_info_response_def with_stream_def answers_header [OF E] parser_simps hdrs_okD [OF E])
  subgoal using answers_rd_bytes [of r "0x1009" ret 0 6]
    by (simp add: parse_read_bd_addr_response_def with_stream_def answers_header [OF E] parser_simps hdrs_okD [OF E] rd_bdaddr_def parse_hdrs_okD [OF D])
  subgoal using answers_rd_bytes [of r "0x1002" ret 0 n]
    by (simp add: parse_read_local_supported_commands_response_def with_stream_def answers_header [OF E] parser_simps hdrs_okD [OF E] rd_array_def parse_hdrs_okD [OF D])
  subgoal premises p using answers_first_of [OF p(1,2)] answers_rd8 [OF p(1), of 1] answers_rd_bytes [OF p(1), of 2 8] p
    by (simp add: parse_read_local_extended_features_response_def answers_header [OF E] parser_simps hdrs_okD [OF E] rd_array_def parse_hdrs_okD [OF D])
  subgoal premises p using p answers_first_of [OF p]
    by (simp add: parse_ble_read_white_list_size_response_def with_stream_def answers_header [OF E] parser_simps hdrs_okD [OF E])
  subgoal using answers_rd16 [OF E, of r "0x2002" ret 0] answers_rd8 [of r "0x2002" ret 2]
    by (simp add: parse_ble_read_buffer_size_response_def with_stream_def answers_header [OF E] parser_simps hdrs_okD [OF E])
  subgoal using answers_rd_bytes [of r "0x201C" ret 0 n]
    by (simp add: parse_ble_read_supported_states_response_def with_stream_def answers_header [OF E] parser_simps hdrs_okD [OF E] rd_array_def parse_hdrs_okD [OF D])
  subgoal using answers_rd_bytes [of r "0x2003" ret 0 8]
    by (simp add: parse_ble_read_local_supported_features_response_def with_stream_def answers_header [OF E] parser_simps hdrs_okD [OF E] rd_array_def parse_hdrs_okD [OF D])
  subgoal premises p using p answers_first_of [OF p]
    by (simp add: parse_ble_read_resolving_list_size_response_def with_any_stream_def answers_header [OF E] parser_simps hdrs_okD [OF E])
  subgoal using answers_rd16 [OF E, of r "0x2023" ret 0]
    by (simp add: parse_ble_read_suggested_default_data_length_response_def with_any_stream_def answers_header [OF E] parser_simps hdrs_okD [OF E])
  subgoal using answers_rd16 [OF E, of r "0x202F" ret 0] answers_rd16 [OF E, of r "0x202F" ret 2]
      answers_rd16 [OF E, of r "0x202F" ret 4] answers_rd16 [OF E, of r "0x202F" ret 6]
    by (simp add: parse_ble_read_maximum_data_length_response_def with_any_stream_def answers_header [OF E] parser_simps hdrs_okD [OF E])
  subgoal using answers_rd16 [OF E, of r "0x203A" ret 0]
    by (simp add: parse_ble_read_maximum_advertising_data_length_def with_any_stream_def answers_header [OF E] parser_simps hdrs_okD [OF E])
  subgoal premises p using p answers_first_of [OF p]
    by (simp add: parse_ble_read_number_of_supported_advertising_sets_def with_any_stream_def answers_header [OF E] parser_simps hdrs_okD [OF E])
  done

text \<open>The codecs of a successful response fit the caller's array or run past its end.\<close>

lemma copy_codecs_fits:
  "(\<And>k. k < n \<Longrightarrow> rd8 r (p + k) = Some (cs ! k)) \<Longrightarrow> i + n \<le> length arr \<Longrightarrow> n \<le> length cs \<Longrightarrow>
   copy_codecs r p i n arr = Some (take i arr @ take n cs @ drop (i + n) arr)"
proof (induction n arbitrary: p i arr cs)
  case (Suc n)
  from Suc.prems obtain c ds where cs: "cs = c # ds" by (cases cs) auto
  have hd: "rd8 r p = Some c" using Suc.prems(1) [of 0] cs by simp
  have tl: "rd8 r (p + 1 + k) = Some (ds ! k)" if "k < n" for k
    using Suc.prems(1) [of "Suc k"] that cs by simp
  have "copy_codecs r (p + 1) (i + 1) n (arr[i := c]) =
      Some (take (i + 1) (arr[i := c]) @ take n ds @ drop (i + 1 + n) (arr[i := c]))"
    by (rule Suc.IH) (use tl Suc.prems cs in auto)
  then show ?case using hd Suc.prems cs by (simp add: take_Suc_conv_app_nth drop_update_cancel)
qed simp

lemma copy_codecs_length:
  "copy_codecs r p i n arr = Some arr' \<Longrightarrow> length arr' = length arr \<and> (n = 0 \<or> i + n \<le> length arr)"
  by (induction n arbitrary: p i arr) (fastforce simp: fault_simps split: if_splits)+

lemma parse_codecs_answers:
  assumes E: "hdrs_ok E" and a: "answers_with r 0x100B (m # cs)" and n: "unat m \<le> length cs" "unat m \<le> length codecs"
  shows "parse_read_local_supported_codecs_response E num codecs r =
    Inr ((m, take (unat m) cs @ drop (unat m) codecs), [r])"
proof -
  have "copy_codecs r (unat (bt_offset r) + 6 + 1) 0 (unat m) codecs = Some (take 0 codecs @ take (unat m) cs @ drop (0 + unat m) codecs)"
  proof (rule copy_codecs_fits)
    show "rd8 r (unat (bt_offset r) + 6 + 1 + k) = Some (cs ! k)" if "k < unat m" for k
      using answers_rd8 [OF a, of "Suc k"] that n by (simp add: add.assoc)
  qed (use n in simp_all)
  then show ?thesis using answers_rd8 [OF a, of 0] answers_header [OF E a, of 0]
    by (simp add: parse_read_local_supported_codecs_response_def parser_simps hdrs_okD [OF E])
qed

section \<open>Any response\<close>

text \<open>A parser that returns has freed the response, and nothing else, once.\<close>

lemma parse_frees:
  "with_stream r h rd = Inr (x, fs) \<Longrightarrow> fs = [r]"
  "with_any_stream r h rd = Inr (x, fs) \<Longrightarrow> fs = [r]"
  "parse_generic_command_complete E r = Inr (u, fs) \<Longrightarrow> fs = [r]"
  "parse_ble_read_offload_features_response E r = Inr (b, fs) \<Longrightarrow> fs = [r]"
  "parse_read_local_supported_codecs_response E n arr r = Inr (z, fs) \<Longrightarrow> fs = [r]"
  "parse_read_local_extended_features_response E D pages count r = Inr (y, fs) \<Longrightarrow> fs = [r]"
  by (auto simp: with_stream_def with_any_stream_def parse_generic_command_complete_def
      parse_ble_read_offload_features_response_def parse_read_local_supported_codecs_response_def
      parse_read_local_extended_features_response_def checked_Inr split: option.splits if_splits)

text \<open>
  A refused command, by a status that is not success or by a command status event: the stream is
  null. The parsers that ask for it abort, the last five dereference it.
\<close>

definition refused :: "hci_hdrs \<Rightarrow> bt_hdr \<Rightarrow> u16 \<Rightarrow> nat \<Rightarrow> bool" where
  "refused E r op m \<longleftrightarrow> read_command_complete_header E r op m = Inr None"

lemma refused_aborts: "h = Inr None \<Longrightarrow> with_stream r h rd = Inl Check_failed"
  by (simp add: with_stream_def parser_simps)

lemma refused_null_stream: "h = Inr None \<Longrightarrow> with_any_stream r h rd = Inl Bad_access"
  by (simp add: with_any_stream_def parser_simps)

lemma refused_resolving_list:
  assumes "hdrs_ok E" "refused E r 0x202A 1"
  shows "parse_ble_read_resolving_list_size_response E r = Inl Bad_access"
  using assms by (simp add: parse_ble_read_resolving_list_size_response_def refused_def refused_null_stream hdrs_okD)

lemma command_status_is_refused:
  assumes E: "hdrs_ok E" and r: "rd8 r (unat (bt_offset r)) = Some 0x0F" "rd8 r (unat (bt_offset r) + 1) = Some n"
  shows "refused E r op m"
  using r by (simp add: refused_def read_command_complete_header_def parser_simps hdrs_okD [OF E])

lemma rd_bytes_length: "rd_bytes r p n = Some bs \<Longrightarrow> length bs = n"
  by (induction n arbitrary: p bs) (auto simp: fault_simps)

lemma rd_array_length: "parse_hdrs_ok D \<Longrightarrow> rd_array D r n p = Some bs \<Longrightarrow> length bs = n"
  by (auto simp: rd_array_def parse_hdrs_okD dest: rd_bytes_length)

lemma parsed_lengths:
  assumes E: "hdrs_ok E" and D: "parse_hdrs_ok D"
  shows "parse_read_bd_addr_response E D r = Inr (a, fs) \<Longrightarrow> length a = 6"
    "parse_read_local_supported_commands_response E D n r = Inr (bs, fs) \<Longrightarrow> length bs = n"
    "parse_ble_read_supported_states_response E D n r = Inr (bs, fs) \<Longrightarrow> length bs = n"
    "parse_ble_read_local_supported_features_response E D r = Inr (bs, fs) \<Longrightarrow> length bs = 8"
    "parse_read_local_supported_codecs_response E num arr r = Inr ((n', arr'), fs) \<Longrightarrow>
      length arr' = length arr \<and> (unat n' \<le> length arr \<or> (n', arr') = (num, arr))"
    "parse_read_local_extended_features_response E D pages count r = Inr ((pg, mx, pages'), fs) \<Longrightarrow>
      (\<exists>bs. length bs = 8 \<and> pages' = pages[unat pg := bs]) \<and> unat pg < count \<and> unat pg < length pages"
  by (auto simp: parse_read_bd_addr_response_def parse_read_local_supported_commands_response_def
      parse_ble_read_supported_states_response_def parse_ble_read_local_supported_features_response_def
      parse_read_local_supported_codecs_response_def parse_read_local_extended_features_response_def
      with_stream_def checked_Inr rd_bdaddr_def hdrs_okD [OF E] parse_hdrs_okD [OF D] 
      dest!: rd_bytes_length copy_codecs_length dest: rd_array_length [OF D] split: option.splits if_splits)

end
