(* ===== verification/Controller.thy ===== *)
theory Controller
  imports Hci_Parser
begin

text \<open>
  The controller module (\<open>controller.cc\<close>): at start-up it asks the Bluetooth controller what it can
  do, one command at a time, and keeps the answers for the getters of its interface.

  The packet factory and the feature macros are outside the repository. A command is a constructor of
  \<open>ctl_cmd\<close>, named after the factory function with its arguments; the record \<open>ctl_hdrs\<close> stands for
  the headers. The controller is a function \<open>answers\<close> from the commands it was sent so far to its
  response to the last of them, so it may depend on the whole history; \<open>None\<close> is a response that never
  comes. A computation is \<open>None\<close> when it never returns.
\<close>

section \<open>Vocabulary\<close>

datatype (plugins only: code) hci_feature =
    HCI_SIMPLE_PAIRING_SUPPORTED | HCI_LE_SPT_SUPPORTED | HCI_SIMUL_LE_BREDR_SUPPORTED
  | HCI_SC_CTRLR_SUPPORTED | HCI_LE_HOST_SUPPORTED | HCI_LE_ENHANCED_PRIVACY_SUPPORTED
  | HCI_LE_DATA_LEN_EXT_SUPPORTED | HCI_LE_EXTENDED_ADVERTISING_SUPPORTED | HCI_LE_CONN_PARAM_REQ_SUPPORTED
  | HCI_LE_2M_PHY_SUPPORTED | HCI_LE_CODED_PHY_SUPPORTED | HCI_LE_PERIODIC_ADVERTISING_SUPPORTED
  | HCI_LMP_INTERLACED_INQ_SCAN_SUPPORTED | HCI_LMP_INQ_RSSI_SUPPORTED | HCI_EXT_INQ_RSP_SUPPORTED
  | HCI_SWITCH_SUPPORTED | HCI_READ_LOCAL_CODECS_SUPPORTED | HCI_READ_ENCR_KEY_SIZE_SUPPORTED
  | HCI_READ_REMOTE_EXT_FEATURES_SUPPORTED | HCI_ENH_SETUP_SYNCH_CONN_SUPPORTED
  | HCI_ENH_ACCEPT_SYNCH_CONN_SUPPORTED | HCI_LE_SET_PRIVACY_MODE_SUPPORTED

record ctl_hdrs =
  parse_macros :: parse_hdrs
  feature_bit :: "hci_feature \<Rightarrow> bytes \<Rightarrow> bool"
  L2CAP_MTU_SIZE :: u16
  L2CAP_HOST_FC_ACL_BUFS :: u16
  HCI_SP_MODE_ENABLED :: u8
  BTM_BLE_HOST_SUPPORT :: u8
  BTM_BLE_SIMULTANEOUS_HOST :: u8
  HCI_SC_MODE_ENABLED :: u8
  HCI_DATA_PREAMBLE_SIZE :: u16
  PHY_LE_1M :: u8
  HCI_DUMO_EVENT_MASK_EXT :: bytes
  BTM_SCO_ENHANCED_SYNC_ENABLED :: bool
  SC_MODE_INCLUDED :: bool
  BLE_PRIVACY_SPT :: bool
  asserts_enabled :: bool

text \<open>Byte and bit of each feature in its mask, after the Core Specification.\<close>

primrec core_feature :: "hci_feature \<Rightarrow> nat \<times> nat" where
  "core_feature HCI_SIMPLE_PAIRING_SUPPORTED = (6, 3)"
| "core_feature HCI_LE_SPT_SUPPORTED = (4, 6)"
| "core_feature HCI_SIMUL_LE_BREDR_SUPPORTED = (6, 1)"
| "core_feature HCI_SC_CTRLR_SUPPORTED = (1, 0)"
| "core_feature HCI_LE_HOST_SUPPORTED = (0, 1)"
| "core_feature HCI_LE_ENHANCED_PRIVACY_SUPPORTED = (0, 6)"
| "core_feature HCI_LE_DATA_LEN_EXT_SUPPORTED = (0, 5)"
| "core_feature HCI_LE_EXTENDED_ADVERTISING_SUPPORTED = (1, 4)"
| "core_feature HCI_LE_CONN_PARAM_REQ_SUPPORTED = (0, 1)"
| "core_feature HCI_LE_2M_PHY_SUPPORTED = (1, 0)"
| "core_feature HCI_LE_CODED_PHY_SUPPORTED = (1, 3)"
| "core_feature HCI_LE_PERIODIC_ADVERTISING_SUPPORTED = (1, 5)"
| "core_feature HCI_LMP_INTERLACED_INQ_SCAN_SUPPORTED = (3, 4)"
| "core_feature HCI_LMP_INQ_RSSI_SUPPORTED = (3, 6)"
| "core_feature HCI_EXT_INQ_RSP_SUPPORTED = (6, 0)"
| "core_feature HCI_SWITCH_SUPPORTED = (0, 5)"
| "core_feature HCI_READ_LOCAL_CODECS_SUPPORTED = (29, 5)"
| "core_feature HCI_READ_ENCR_KEY_SIZE_SUPPORTED = (20, 4)"
| "core_feature HCI_READ_REMOTE_EXT_FEATURES_SUPPORTED = (2, 5)"
| "core_feature HCI_ENH_SETUP_SYNCH_CONN_SUPPORTED = (29, 3)"
| "core_feature HCI_ENH_ACCEPT_SYNCH_CONN_SUPPORTED = (29, 4)"
| "core_feature HCI_LE_SET_PRIVACY_MODE_SUPPORTED = (39, 2)"

definition in_mask :: "hci_feature \<Rightarrow> bytes \<Rightarrow> bool" where
  "in_mask f bs = (case core_feature f of (i, b) \<Rightarrow> bit (bs ! i) b)"

definition ctl_hdrs_ok :: "ctl_hdrs \<Rightarrow> bool" where
  "ctl_hdrs_ok D \<longleftrightarrow> parse_hdrs_ok (parse_macros D) \<and> (\<forall>f bs. feature_bit D f bs = in_mask f bs)"

lemma ctl_hdrs_okD:
  assumes "ctl_hdrs_ok D"
  shows "parse_hdrs_ok (parse_macros D)" "feature_bit D f bs = in_mask f bs"
  using assms by (simp_all add: ctl_hdrs_ok_def)

text \<open>The functions of the packet factory.\<close>

datatype (plugins only: size) ctl_cmd =
    Make_reset
  | Make_read_buffer_size
  | Make_host_buffer_size u16 u8 u16 u16
  | Make_read_local_version_info
  | Make_read_bd_addr
  | Make_read_local_supported_commands
  | Make_read_local_extended_features u8
  | Make_write_simple_pairing_mode u8
  | Make_ble_write_host_support u8 u8
  | Make_ble_read_offload_features_support
  | Make_write_secure_connections_host_support u8
  | Make_ble_read_white_list_size
  | Make_ble_read_buffer_size
  | Make_ble_read_supported_states
  | Make_ble_read_local_supported_features
  | Make_ble_read_resolving_list_size
  | Make_ble_read_maximum_data_length
  | Make_ble_read_suggested_default_data_length
  | Make_ble_read_maximum_advertising_data_length
  | Make_ble_read_number_of_supported_advertising_sets
  | Make_ble_set_event_mask bytes
  | Make_set_event_mask bytes
  | Make_read_local_supported_codecs

type_synonym answers = "ctl_cmd list \<Rightarrow> bt_hdr option"

section \<open>State\<close>

abbreviation SCO_HOST_BUFFER_SIZE :: u8 where "SCO_HOST_BUFFER_SIZE \<equiv> 0xff"
abbreviation HCI_SUPPORTED_COMMANDS_ARRAY_SIZE :: nat where "HCI_SUPPORTED_COMMANDS_ARRAY_SIZE \<equiv> 64"
abbreviation MAX_FEATURES_CLASSIC_PAGE_COUNT :: nat where "MAX_FEATURES_CLASSIC_PAGE_COUNT \<equiv> 3"
abbreviation BLE_SUPPORTED_STATES_SIZE :: nat where "BLE_SUPPORTED_STATES_SIZE \<equiv> 8"
abbreviation MAX_LOCAL_SUPPORTED_CODECS_SIZE :: nat where "MAX_LOCAL_SUPPORTED_CODECS_SIZE \<equiv> 8"

definition BLE_EVENT_MASK :: "ctl_hdrs \<Rightarrow> bytes" where
  "BLE_EVENT_MASK D = [0x00, 0x00, 0x00, 0x00, 0x00, 0x02, if BLE_PRIVACY_SPT D then 0x1E else 0x1C, 0x7f]"

text \<open>The static variables, with the commands sent and the responses freed so far.\<close>

record ctl =
  ctl_address :: raw_address
  bt_version_info :: bt_version
  supported_commands :: bytes
  features_classic :: "bytes list"
  last_features_classic_page_index :: u8
  acl_data_size_classic :: u16
  acl_data_size_ble :: u16
  acl_buffer_count_classic :: u16
  acl_buffer_count_ble :: u8
  ble_white_list_size :: u8
  ble_resolving_list_max_size :: u8
  ble_supported_states :: bytes
  features_ble :: bytes
  ble_suggested_default_data_length :: u16
  ble_supported_max_tx_octets :: u16
  ble_supported_max_tx_time :: u16
  ble_supported_max_rx_octets :: u16
  ble_supported_max_rx_time :: u16
  ble_maxium_advertising_data_length :: u16
  ble_number_of_supported_advertising_sets :: u8
  local_supported_codecs :: bytes
  number_of_local_supported_codecs :: u8
  ctl_readable :: bool
  ble_supported :: bool
  ble_offload_features_supported :: bool
  simple_pairing_supported :: bool
  secure_connections_supported :: bool
  read_encryption_key_size_supported :: bool
  sent :: "ctl_cmd list"
  freed :: "bt_hdr list"

definition ctl_init :: ctl where
  "ctl_init = \<lparr>ctl_address = replicate 6 0,
     bt_version_info = \<lparr>hci_version = 0, hci_revision = 0, lmp_version = 0, manufacturer = 0, lmp_subversion = 0\<rparr>,
     supported_commands = replicate HCI_SUPPORTED_COMMANDS_ARRAY_SIZE 0,
     features_classic = replicate MAX_FEATURES_CLASSIC_PAGE_COUNT (replicate 8 0),
     last_features_classic_page_index = 0, acl_data_size_classic = 0, acl_data_size_ble = 0,
     acl_buffer_count_classic = 0, acl_buffer_count_ble = 0, ble_white_list_size = 0,
     ble_resolving_list_max_size = 0, ble_supported_states = replicate BLE_SUPPORTED_STATES_SIZE 0,
     features_ble = replicate 8 0, ble_suggested_default_data_length = 0, ble_supported_max_tx_octets = 0,
     ble_supported_max_tx_time = 0, ble_supported_max_rx_octets = 0, ble_supported_max_rx_time = 0,
     ble_maxium_advertising_data_length = 0, ble_number_of_supported_advertising_sets = 0,
     local_supported_codecs = replicate MAX_LOCAL_SUPPORTED_CODECS_SIZE 0, number_of_local_supported_codecs = 0,
     ctl_readable = False, ble_supported = False, ble_offload_features_supported = False,
     simple_pairing_supported = False, secure_connections_supported = False,
     read_encryption_key_size_supported = False, sent = [], freed = []\<rparr>"

section \<open>Awaiting a command\<close>

type_synonym 'a res = "'a checked option"

definition bind_res :: "'a res \<Rightarrow> ('a \<Rightarrow> 'b res) \<Rightarrow> 'b res" where
  "bind_res m f = Option.bind m (\<lambda>x. case x of Inl e \<Rightarrow> Some (Inl e) | Inr v \<Rightarrow> f v)"

definition AWAIT_COMMAND :: "answers \<Rightarrow> ctl_cmd \<Rightarrow> ctl \<Rightarrow> (bt_hdr \<times> ctl) option" where
  "AWAIT_COMMAND A command s =
     map_option (\<lambda>response. (response, s\<lparr>sent := sent s @ [command]\<rparr>)) (A (sent s @ [command]))"

text \<open>Await a command and give the response to a parser that writes the state.\<close>

definition ask :: "answers \<Rightarrow> ctl_cmd \<Rightarrow> (bt_hdr \<Rightarrow> ('v \<times> bt_hdr list) checked) \<Rightarrow> ('v \<Rightarrow> ctl \<Rightarrow> 'b) \<Rightarrow> ctl \<Rightarrow> 'b res" where
  "ask A command parse write s =
     Option.bind (AWAIT_COMMAND A command s) (\<lambda>(response, t).
       Some (and_then (parse response) (\<lambda>(v, fs). Inr (write v (t\<lparr>freed := freed t @ fs\<rparr>)))))"

type_synonym 's step = "'s \<Rightarrow> 's res"
type_synonym stage = "ctl step"

fun run_stages :: "'s step list \<Rightarrow> 's step" where
  "run_stages [] s = Some (Inr s)"
| "run_stages (f # fs) s = bind_res (f s) (run_stages fs)"

definition stages_if :: "('s \<Rightarrow> bool) \<Rightarrow> 's step list \<Rightarrow> 's step" where
  "stages_if c fs s = (if c s then run_stages fs s else Some (Inr s))"

definition set_state :: "('s \<Rightarrow> 's) \<Rightarrow> 's step" where
  "set_state f s = Some (Inr (f s))"

definition ask_generic :: "hci_hdrs \<Rightarrow> answers \<Rightarrow> ctl_cmd \<Rightarrow> stage" where
  "ask_generic E A command = ask A command (parse_generic_command_complete E) (\<lambda>_ s. s)"

section \<open>Start-up\<close>

text \<open>Reset, buffer sizes, version, address and supported commands.\<close>

definition clear_enhanced_sync :: "ctl_hdrs \<Rightarrow> ctl \<Rightarrow> ctl" where
  "clear_enhanced_sync D s =
     (if BTM_SCO_ENHANCED_SYNC_ENABLED D then s
      else s\<lparr>supported_commands := (supported_commands s)[29 := supported_commands s ! 29 AND NOT 0x08]\<rparr>)"

definition read_identity :: "hci_hdrs \<Rightarrow> ctl_hdrs \<Rightarrow> answers \<Rightarrow> stage list" where
  "read_identity E D A =
     [ask_generic E A Make_reset,
      ask A Make_read_buffer_size (parse_read_buffer_size_response E)
        (\<lambda>(size, count) s. s\<lparr>acl_data_size_classic := size, acl_buffer_count_classic := count\<rparr>),
      ask_generic E A (Make_host_buffer_size (L2CAP_MTU_SIZE D) SCO_HOST_BUFFER_SIZE (L2CAP_HOST_FC_ACL_BUFS D) 10),
      ask A Make_read_local_version_info (parse_read_local_version_info_response E)
        (\<lambda>v s. s\<lparr>bt_version_info := v\<rparr>),
      ask A Make_read_bd_addr (parse_read_bd_addr_response E (parse_macros D)) (\<lambda>a s. s\<lparr>ctl_address := a\<rparr>),
      ask A Make_read_local_supported_commands
        (parse_read_local_supported_commands_response E (parse_macros D) HCI_SUPPORTED_COMMANDS_ARRAY_SIZE)
        (\<lambda>cs s. s\<lparr>supported_commands := cs\<rparr>),
      set_state (clear_enhanced_sync D)]"

text \<open>One page of features: the page number the controller answered, and the new state.\<close>

definition read_features_page :: "hci_hdrs \<Rightarrow> ctl_hdrs \<Rightarrow> answers \<Rightarrow> u8 \<Rightarrow> ctl \<Rightarrow> (u8 \<times> ctl) res" where
  "read_features_page E D A page_number s =
     ask A (Make_read_local_extended_features page_number)
       (parse_read_local_extended_features_response E (parse_macros D) (features_classic s) MAX_FEATURES_CLASSIC_PAGE_COUNT)
       (\<lambda>(page, max_page, pages) t. (page, t\<lparr>last_features_classic_page_index := max_page, features_classic := pages\<rparr>)) s"

definition read_page_zero :: "hci_hdrs \<Rightarrow> ctl_hdrs \<Rightarrow> answers \<Rightarrow> stage" where
  "read_page_zero E D A s =
     bind_res (read_features_page E D A 0 s) (\<lambda>(page_number, t). Some (CHECK (page_number = 0) (Inr t)))"

definition write_host_support :: "hci_hdrs \<Rightarrow> ctl_hdrs \<Rightarrow> answers \<Rightarrow> stage list" where
  "write_host_support E D A =
     [set_state (\<lambda>s. s\<lparr>simple_pairing_supported := feature_bit D HCI_SIMPLE_PAIRING_SUPPORTED (features_classic s ! 0)\<rparr>),
      stages_if simple_pairing_supported
        [ask_generic E A (Make_write_simple_pairing_mode (HCI_SP_MODE_ENABLED D))],
      stages_if (\<lambda>s. feature_bit D HCI_LE_SPT_SUPPORTED (features_classic s ! 0))
        [\<lambda>s. ask_generic E A (Make_ble_write_host_support (BTM_BLE_HOST_SUPPORT D)
               (if feature_bit D HCI_SIMUL_LE_BREDR_SUPPORTED (features_classic s ! 0)
                then BTM_BLE_SIMULTANEOUS_HOST D else 0)) s,
         set_state (\<lambda>s. if last_features_classic_page_index s < 1
                        then s\<lparr>last_features_classic_page_index := 1\<rparr> else s)]]"

text \<open>
  The loop over the remaining pages. Both the page number and the last page index are overwritten by
  each response.
\<close>

partial_function (option) read_feature_pages :: "hci_hdrs \<Rightarrow> ctl_hdrs \<Rightarrow> answers \<Rightarrow> u8 \<Rightarrow> ctl \<Rightarrow> ctl checked option" where
  "read_feature_pages E D A page_number s =
     (if page_number \<le> last_features_classic_page_index s \<and> unat page_number < MAX_FEATURES_CLASSIC_PAGE_COUNT
      then Option.bind (read_features_page E D A page_number s) (\<lambda>x. case x of
             Inl e \<Rightarrow> Some (Inl e)
           | Inr (page, t) \<Rightarrow> read_feature_pages E D A (page + 1) t)
      else Some (Inr s))"

declare read_feature_pages.simps [code]

definition read_offload_features :: "hci_hdrs \<Rightarrow> ctl_hdrs \<Rightarrow> answers \<Rightarrow> stage list" where
  "read_offload_features E D A =
     [ask A Make_ble_read_offload_features_support (parse_ble_read_offload_features_response E)
        (\<lambda>b s. s\<lparr>ble_offload_features_supported := b\<rparr>),
      stages_if (\<lambda>s. SC_MODE_INCLUDED D \<and> ble_offload_features_supported s)
        [set_state (\<lambda>s. s\<lparr>secure_connections_supported := feature_bit D HCI_SC_CTRLR_SUPPORTED (features_classic s ! 2)\<rparr>),
         stages_if secure_connections_supported
           [ask_generic E A (Make_write_secure_connections_host_support (HCI_SC_MODE_ENABLED D))]]]"

definition read_ble_features :: "hci_hdrs \<Rightarrow> ctl_hdrs \<Rightarrow> answers \<Rightarrow> stage list" where
  "read_ble_features E D A =
     [ask A Make_ble_read_white_list_size (parse_ble_read_white_list_size_response E)
        (\<lambda>n s. s\<lparr>ble_white_list_size := n\<rparr>),
      ask A Make_ble_read_buffer_size (parse_ble_read_buffer_size_response E)
        (\<lambda>(size, count) s. s\<lparr>acl_data_size_ble := size, acl_buffer_count_ble := count\<rparr>),
      set_state (\<lambda>s. if acl_data_size_ble s = 0 then s\<lparr>acl_data_size_ble := acl_data_size_classic s\<rparr> else s),
      ask A Make_ble_read_supported_states
        (parse_ble_read_supported_states_response E (parse_macros D) BLE_SUPPORTED_STATES_SIZE)
        (\<lambda>bs s. s\<lparr>ble_supported_states := bs\<rparr>),
      ask A Make_ble_read_local_supported_features (parse_ble_read_local_supported_features_response E (parse_macros D))
        (\<lambda>bs s. s\<lparr>features_ble := bs\<rparr>),
      stages_if (\<lambda>s. feature_bit D HCI_LE_ENHANCED_PRIVACY_SUPPORTED (features_ble s))
        [ask A Make_ble_read_resolving_list_size (parse_ble_read_resolving_list_size_response E)
           (\<lambda>n s. s\<lparr>ble_resolving_list_max_size := n\<rparr>)],
      stages_if (\<lambda>s. feature_bit D HCI_LE_DATA_LEN_EXT_SUPPORTED (features_ble s))
        [ask A Make_ble_read_maximum_data_length (parse_ble_read_maximum_data_length_response E)
           (\<lambda>(tx_octets, tx_time, rx_octets, rx_time) s.
              s\<lparr>ble_supported_max_tx_octets := tx_octets, ble_supported_max_tx_time := tx_time,
                ble_supported_max_rx_octets := rx_octets, ble_supported_max_rx_time := rx_time\<rparr>),
         ask A Make_ble_read_suggested_default_data_length (parse_ble_read_suggested_default_data_length_response E)
           (\<lambda>n s. s\<lparr>ble_suggested_default_data_length := n\<rparr>)],
      stages_if (\<lambda>s. feature_bit D HCI_LE_EXTENDED_ADVERTISING_SUPPORTED (features_ble s))
        [ask A Make_ble_read_maximum_advertising_data_length (parse_ble_read_maximum_advertising_data_length E)
           (\<lambda>n s. s\<lparr>ble_maxium_advertising_data_length := n\<rparr>),
         ask A Make_ble_read_number_of_supported_advertising_sets (parse_ble_read_number_of_supported_advertising_sets E)
           (\<lambda>n s. s\<lparr>ble_number_of_supported_advertising_sets := n\<rparr>)],
      stages_if (\<lambda>s. \<not> feature_bit D HCI_LE_EXTENDED_ADVERTISING_SUPPORTED (features_ble s))
        [set_state (\<lambda>s. s\<lparr>ble_maxium_advertising_data_length := 31\<rparr>)],
      ask_generic E A (Make_ble_set_event_mask (BLE_EVENT_MASK D))]"

definition read_codecs :: "hci_hdrs \<Rightarrow> answers \<Rightarrow> stage" where
  "read_codecs E A s =
     ask A Make_read_local_supported_codecs
       (parse_read_local_supported_codecs_response E (number_of_local_supported_codecs s) (local_supported_codecs s))
       (\<lambda>(n, codecs) t. t\<lparr>number_of_local_supported_codecs := n, local_supported_codecs := codecs\<rparr>) s"

definition start_up :: "hci_hdrs \<Rightarrow> ctl_hdrs \<Rightarrow> answers \<Rightarrow> stage" where
  "start_up E D A = run_stages
     (read_identity E D A @
      [read_page_zero E D A] @
      write_host_support E D A @
      [read_feature_pages E D A 1] @
      read_offload_features E D A @
      [set_state (\<lambda>s. s\<lparr>ble_supported := 1 \<le> last_features_classic_page_index s \<and>
                           feature_bit D HCI_LE_HOST_SUPPORTED (features_classic s ! 1)\<rparr>),
       stages_if ble_supported (read_ble_features E D A),
       stages_if simple_pairing_supported [ask_generic E A (Make_set_event_mask (HCI_DUMO_EVENT_MASK_EXT D))],
       stages_if (\<lambda>s. feature_bit D HCI_READ_LOCAL_CODECS_SUPPORTED (supported_commands s)) [read_codecs E A],
       set_state (\<lambda>s. s\<lparr>read_encryption_key_size_supported :=
                           feature_bit D HCI_READ_ENCR_KEY_SIZE_SUPPORTED (supported_commands s)\<rparr>),
       set_state (\<lambda>s. s\<lparr>ctl_readable := True\<rparr>)])"

definition shut_down :: "ctl \<Rightarrow> ctl" where
  "shut_down s = s\<lparr>ctl_readable := False\<rparr>"

section \<open>The interface\<close>

text \<open>A getter that checks \<open>readable\<close>; one that also reports nothing without LE; an asserting one.\<close>

definition when_readable :: "(ctl \<Rightarrow> 'a) \<Rightarrow> ctl \<Rightarrow> 'a checked" where
  "when_readable f s = CHECK (ctl_readable s) (Inr (f s))"

definition when_ble :: "(ctl \<Rightarrow> 'a) \<Rightarrow> 'a \<Rightarrow> ctl \<Rightarrow> 'a" where
  "when_ble f z s = (if \<not> ble_supported s then z else f s)"

definition when_asserted :: "ctl_hdrs \<Rightarrow> (ctl \<Rightarrow> 'a) \<Rightarrow> ctl \<Rightarrow> 'a checked" where
  "when_asserted D f s = CHECK (asserts_enabled D \<longrightarrow> ctl_readable s) (Inr (f s))"

definition get_is_ready :: "ctl \<Rightarrow> bool" where
  "get_is_ready s = ctl_readable s"

definition get_address :: "ctl \<Rightarrow> raw_address checked" where
  "get_address = when_readable ctl_address"

definition get_bt_version :: "ctl \<Rightarrow> bt_version checked" where
  "get_bt_version = when_readable bt_version_info"

definition get_features_classic :: "int \<Rightarrow> ctl \<Rightarrow> bytes checked" where
  "get_features_classic index s =
     CHECK (ctl_readable s) (CHECK (index < int MAX_FEATURES_CLASSIC_PAGE_COUNT)
       (if index < 0 then Inl Bad_access else Inr (features_classic s ! nat index)))"

definition get_last_features_classic_index :: "ctl \<Rightarrow> u8 checked" where
  "get_last_features_classic_index = when_readable last_features_classic_page_index"

text \<open>The number of codecs and the codecs, or a null pointer.\<close>

definition get_local_supported_codecs :: "ctl \<Rightarrow> (u8 \<times> bytes) option checked" where
  "get_local_supported_codecs = when_readable (\<lambda>s.
     if number_of_local_supported_codecs s \<noteq> 0
     then Some (number_of_local_supported_codecs s, local_supported_codecs s) else None)"

definition get_features_ble :: "ctl \<Rightarrow> bytes checked" where
  "get_features_ble = when_readable features_ble"

definition get_ble_supported_states :: "ctl \<Rightarrow> bytes checked" where
  "get_ble_supported_states = when_readable ble_supported_states"

definition supports_simple_pairing :: "ctl \<Rightarrow> bool checked" where
  "supports_simple_pairing = when_readable simple_pairing_supported"

definition supports_secure_connections :: "ctl \<Rightarrow> bool checked" where
  "supports_secure_connections = when_readable secure_connections_supported"

definition supports_read_encryption_key_size :: "ctl \<Rightarrow> bool" where
  "supports_read_encryption_key_size s = read_encryption_key_size_supported s"

definition supports_simultaneous_le_bredr :: "ctl_hdrs \<Rightarrow> ctl \<Rightarrow> bool checked" where
  "supports_simultaneous_le_bredr D = when_readable (\<lambda>s. feature_bit D HCI_SIMUL_LE_BREDR_SUPPORTED (features_classic s ! 0))"

definition supports_reading_remote_extended_features :: "ctl_hdrs \<Rightarrow> ctl \<Rightarrow> bool checked" where
  "supports_reading_remote_extended_features D =
     when_readable (\<lambda>s. feature_bit D HCI_READ_REMOTE_EXT_FEATURES_SUPPORTED (supported_commands s))"

definition supports_interlaced_inquiry_scan :: "ctl_hdrs \<Rightarrow> ctl \<Rightarrow> bool checked" where
  "supports_interlaced_inquiry_scan D =
     when_readable (\<lambda>s. feature_bit D HCI_LMP_INTERLACED_INQ_SCAN_SUPPORTED (features_classic s ! 0))"

definition supports_rssi_with_inquiry_results :: "ctl_hdrs \<Rightarrow> ctl \<Rightarrow> bool checked" where
  "supports_rssi_with_inquiry_results D =
     when_readable (\<lambda>s. feature_bit D HCI_LMP_INQ_RSSI_SUPPORTED (features_classic s ! 0))"

definition supports_extended_inquiry_response :: "ctl_hdrs \<Rightarrow> ctl \<Rightarrow> bool checked" where
  "supports_extended_inquiry_response D =
     when_readable (\<lambda>s. feature_bit D HCI_EXT_INQ_RSP_SUPPORTED (features_classic s ! 0))"

definition supports_master_slave_role_switch :: "ctl_hdrs \<Rightarrow> ctl \<Rightarrow> bool checked" where
  "supports_master_slave_role_switch D = when_readable (\<lambda>s. feature_bit D HCI_SWITCH_SUPPORTED (features_classic s ! 0))"

definition supports_enhanced_setup_synchronous_connection :: "ctl_hdrs \<Rightarrow> ctl \<Rightarrow> bool checked" where
  "supports_enhanced_setup_synchronous_connection D =
     when_asserted D (\<lambda>s. feature_bit D HCI_ENH_SETUP_SYNCH_CONN_SUPPORTED (supported_commands s))"

definition supports_enhanced_accept_synchronous_connection :: "ctl_hdrs \<Rightarrow> ctl \<Rightarrow> bool checked" where
  "supports_enhanced_accept_synchronous_connection D =
     when_asserted D (\<lambda>s. feature_bit D HCI_ENH_ACCEPT_SYNCH_CONN_SUPPORTED (supported_commands s))"

definition supports_ble :: "ctl \<Rightarrow> bool checked" where
  "supports_ble = when_readable ble_supported"

definition supports_ble_privacy :: "ctl_hdrs \<Rightarrow> ctl \<Rightarrow> bool checked" where
  "supports_ble_privacy D =
     when_readable (when_ble (\<lambda>s. feature_bit D HCI_LE_ENHANCED_PRIVACY_SUPPORTED (features_ble s)) False)"

definition supports_ble_set_privacy_mode :: "ctl_hdrs \<Rightarrow> ctl \<Rightarrow> bool checked" where
  "supports_ble_set_privacy_mode D =
     when_readable (when_ble (\<lambda>s. feature_bit D HCI_LE_ENHANCED_PRIVACY_SUPPORTED (features_ble s) \<and>
       feature_bit D HCI_LE_SET_PRIVACY_MODE_SUPPORTED (supported_commands s)) False)"

definition supports_ble_packet_extension :: "ctl_hdrs \<Rightarrow> ctl \<Rightarrow> bool checked" where
  "supports_ble_packet_extension D =
     when_readable (when_ble (\<lambda>s. feature_bit D HCI_LE_DATA_LEN_EXT_SUPPORTED (features_ble s)) False)"

definition supports_ble_connection_parameters_request :: "ctl_hdrs \<Rightarrow> ctl \<Rightarrow> bool checked" where
  "supports_ble_connection_parameters_request D =
     when_readable (when_ble (\<lambda>s. feature_bit D HCI_LE_CONN_PARAM_REQ_SUPPORTED (features_ble s)) False)"

definition supports_ble_2m_phy :: "ctl_hdrs \<Rightarrow> ctl \<Rightarrow> bool checked" where
  "supports_ble_2m_phy D = when_readable (when_ble (\<lambda>s. feature_bit D HCI_LE_2M_PHY_SUPPORTED (features_ble s)) False)"

definition supports_ble_coded_phy :: "ctl_hdrs \<Rightarrow> ctl \<Rightarrow> bool checked" where
  "supports_ble_coded_phy D =
     when_readable (when_ble (\<lambda>s. feature_bit D HCI_LE_CODED_PHY_SUPPORTED (features_ble s)) False)"

definition supports_ble_extended_advertising :: "ctl_hdrs \<Rightarrow> ctl \<Rightarrow> bool checked" where
  "supports_ble_extended_advertising D =
     when_readable (when_ble (\<lambda>s. feature_bit D HCI_LE_EXTENDED_ADVERTISING_SUPPORTED (features_ble s)) False)"

definition supports_ble_periodic_advertising :: "ctl_hdrs \<Rightarrow> ctl \<Rightarrow> bool checked" where
  "supports_ble_periodic_advertising D =
     when_readable (when_ble (\<lambda>s. feature_bit D HCI_LE_PERIODIC_ADVERTISING_SUPPORTED (features_ble s)) False)"

definition supports_ble_offload_features :: "ctl_hdrs \<Rightarrow> ctl \<Rightarrow> bool checked" where
  "supports_ble_offload_features D = when_asserted D (when_ble ble_offload_features_supported False)"

definition get_acl_data_size_classic :: "ctl \<Rightarrow> u16 checked" where
  "get_acl_data_size_classic = when_readable acl_data_size_classic"

definition get_acl_data_size_ble :: "ctl \<Rightarrow> u16 checked" where
  "get_acl_data_size_ble = when_readable (when_ble acl_data_size_ble 0)"

definition get_acl_packet_size_classic :: "ctl_hdrs \<Rightarrow> ctl \<Rightarrow> u16 checked" where
  "get_acl_packet_size_classic D = when_readable (\<lambda>s. acl_data_size_classic s + HCI_DATA_PREAMBLE_SIZE D)"

definition get_acl_packet_size_ble :: "ctl_hdrs \<Rightarrow> ctl \<Rightarrow> u16 checked" where
  "get_acl_packet_size_ble D = when_readable (\<lambda>s. acl_data_size_ble s + HCI_DATA_PREAMBLE_SIZE D)"

definition get_ble_suggested_default_data_length :: "ctl \<Rightarrow> u16 checked" where
  "get_ble_suggested_default_data_length = when_readable (when_ble ble_suggested_default_data_length 0)"

definition get_ble_maximum_tx_data_length :: "ctl \<Rightarrow> u16 checked" where
  "get_ble_maximum_tx_data_length = when_readable (when_ble ble_supported_max_tx_octets 0)"

definition get_ble_maxium_advertising_data_length :: "ctl \<Rightarrow> u16 checked" where
  "get_ble_maxium_advertising_data_length = when_readable (when_ble ble_maxium_advertising_data_length 0)"

definition get_ble_number_of_supported_advertising_sets :: "ctl \<Rightarrow> u8 checked" where
  "get_ble_number_of_supported_advertising_sets = when_readable (when_ble ble_number_of_supported_advertising_sets 0)"

definition get_acl_buffer_count_classic :: "ctl \<Rightarrow> u16 checked" where
  "get_acl_buffer_count_classic = when_readable acl_buffer_count_classic"

definition get_acl_buffer_count_ble :: "ctl \<Rightarrow> u8 checked" where
  "get_acl_buffer_count_ble = when_readable (when_ble acl_buffer_count_ble 0)"

definition get_ble_white_list_size :: "ctl \<Rightarrow> u8 checked" where
  "get_ble_white_list_size = when_readable (when_ble ble_white_list_size 0)"

definition get_ble_resolving_list_max_size :: "ctl \<Rightarrow> u8 checked" where
  "get_ble_resolving_list_max_size = when_readable (when_ble ble_resolving_list_max_size 0)"

definition set_ble_resolving_list_max_size :: "int \<Rightarrow> ctl \<Rightarrow> ctl checked" where
  "set_ble_resolving_list_max_size resolving_list_max_size s =
     CHECK (resolving_list_max_size \<noteq> 0 \<longrightarrow> ctl_readable s)
       (Inr (if \<not> ble_supported s then s
             else s\<lparr>ble_resolving_list_max_size := word_of_int resolving_list_max_size\<rparr>))"

definition get_le_all_initiating_phys :: "ctl_hdrs \<Rightarrow> u8" where
  "get_le_all_initiating_phys D = PHY_LE_1M D"

end
