(* ===== verification/Controller_Props.thy ===== *)
theory Controller_Props
  imports Controller
begin

text \<open>
  The properties of the controller module. For any controller: a start-up that returns leaves every
  array of the state at its size and has freed every response once. For a controller that follows the
  Core Specification: start-up ends, after at most 25 commands, and the one way in which it can fail is a
  response that counts more codecs than the module has room for.
\<close>

section \<open>The state\<close>

definition ctl_ok :: "ctl \<Rightarrow> bool" where
  "ctl_ok s \<longleftrightarrow> length (ctl_address s) = 6 \<and> length (supported_commands s) = HCI_SUPPORTED_COMMANDS_ARRAY_SIZE \<and>
     length (features_classic s) = MAX_FEATURES_CLASSIC_PAGE_COUNT \<and> (\<forall>p \<in> set (features_classic s). length p = 8) \<and>
     length (ble_supported_states s) = BLE_SUPPORTED_STATES_SIZE \<and> length (features_ble s) = 8 \<and>
     length (local_supported_codecs s) = MAX_LOCAL_SUPPORTED_CODECS_SIZE \<and>
     unat (number_of_local_supported_codecs s) \<le> MAX_LOCAL_SUPPORTED_CODECS_SIZE"

lemma ctl_ok_frame [simp]:
  "ctl_ok (s\<lparr>acl_data_size_classic := x, acl_buffer_count_classic := y\<rparr>) = ctl_ok s"
  "ctl_ok (s\<lparr>bt_version_info := v\<rparr>) = ctl_ok s" "ctl_ok (s\<lparr>last_features_classic_page_index := i\<rparr>) = ctl_ok s"
  "ctl_ok (s\<lparr>acl_data_size_ble := x, acl_buffer_count_ble := i\<rparr>) = ctl_ok s" "ctl_ok (s\<lparr>acl_data_size_ble := x\<rparr>) = ctl_ok s"
  "ctl_ok (s\<lparr>ble_white_list_size := i\<rparr>) = ctl_ok s" "ctl_ok (s\<lparr>ble_resolving_list_max_size := i\<rparr>) = ctl_ok s"
  "ctl_ok (s\<lparr>ble_suggested_default_data_length := x\<rparr>) = ctl_ok s"
  "ctl_ok (s\<lparr>ble_supported_max_tx_octets := x, ble_supported_max_tx_time := y, ble_supported_max_rx_octets := z,
     ble_supported_max_rx_time := u\<rparr>) = ctl_ok s"
  "ctl_ok (s\<lparr>ble_maxium_advertising_data_length := x\<rparr>) = ctl_ok s"
  "ctl_ok (s\<lparr>ble_number_of_supported_advertising_sets := i\<rparr>) = ctl_ok s" "ctl_ok (s\<lparr>ctl_readable := b\<rparr>) = ctl_ok s"
  "ctl_ok (s\<lparr>ble_supported := b\<rparr>) = ctl_ok s" "ctl_ok (s\<lparr>ble_offload_features_supported := b\<rparr>) = ctl_ok s"
  "ctl_ok (s\<lparr>simple_pairing_supported := b\<rparr>) = ctl_ok s" "ctl_ok (s\<lparr>secure_connections_supported := b\<rparr>) = ctl_ok s"
  "ctl_ok (s\<lparr>read_encryption_key_size_supported := b\<rparr>) = ctl_ok s" "ctl_ok (s\<lparr>sent := cs, freed := rs\<rparr>) = ctl_ok s"
  by (simp_all add: ctl_ok_def)

lemma ctl_ok_write:
  "ctl_ok s \<Longrightarrow> length a = 6 \<Longrightarrow> ctl_ok (s\<lparr>ctl_address := a\<rparr>)"
  "ctl_ok s \<Longrightarrow> length bs = HCI_SUPPORTED_COMMANDS_ARRAY_SIZE \<Longrightarrow> ctl_ok (s\<lparr>supported_commands := bs\<rparr>)"
  "ctl_ok s \<Longrightarrow> length c = BLE_SUPPORTED_STATES_SIZE \<Longrightarrow> ctl_ok (s\<lparr>ble_supported_states := c\<rparr>)"
  "ctl_ok s \<Longrightarrow> length f = 8 \<Longrightarrow> ctl_ok (s\<lparr>features_ble := f\<rparr>)"
  by (simp_all add: ctl_ok_def)

text \<open>The responses to the commands of a history, in order.\<close>

definition responses :: "answers \<Rightarrow> ctl_cmd list \<Rightarrow> bt_hdr list" where
  "responses A cs = map (\<lambda>k. the (A (take (Suc k) cs))) [0..<length cs]"

lemma responses_snoc: "responses A (cs @ [c]) = responses A cs @ [the (A (cs @ [c]))]"
  by (simp add: responses_def)

definition tidy :: "answers \<Rightarrow> ctl \<Rightarrow> bool" where
  "tidy A s \<longleftrightarrow> ctl_ok s \<and> freed s = responses A (sent s)"

lemma tidy_init [simp]: "tidy A ctl_init"
  by (simp add: tidy_def ctl_ok_def ctl_init_def responses_def)

section \<open>Stages that keep a predicate\<close>

definition keeps :: "('s \<Rightarrow> bool) \<Rightarrow> 's step \<Rightarrow> bool" where
  "keeps P f \<longleftrightarrow> (\<forall>s t. P s \<longrightarrow> f s = Some (Inr t) \<longrightarrow> P t)"

lemma bind_res_Inr: "bind_res m f = Some (Inr y) \<longleftrightarrow> (\<exists>x. m = Some (Inr x) \<and> f x = Some (Inr y))"
  by (cases m) (auto simp: bind_res_def split: sum.splits)

lemma and_then_pair: "and_then m (\<lambda>(v, fs). Inr (g v fs)) = Inr y \<longleftrightarrow> (\<exists>v fs. m = Inr (v, fs) \<and> y = g v fs)"
  by (cases m) (auto simp: and_then_def)

lemma awaited:
  "Option.bind (map_option (\<lambda>r. (r, t)) a) (\<lambda>(r, t). Some (f r t)) = Some y \<longleftrightarrow> (\<exists>r. a = Some r \<and> f r t = y)"
  by (cases a) auto

lemma ask_Inr:
  "ask A c parse write s = Some (Inr y) \<longleftrightarrow>
   (\<exists>r. A (sent s @ [c]) = Some r \<and> (\<exists>v fs. parse r = Inr (v, fs) \<and>
      y = write v (s\<lparr>sent := sent s @ [c], freed := freed s @ fs\<rparr>)))"
  unfolding ask_def AWAIT_COMMAND_def awaited and_then_pair by simp

lemma keeps_run: "(\<And>f. f \<in> set fs \<Longrightarrow> keeps P f) \<Longrightarrow> keeps P (run_stages fs)"
proof (induction fs)
  case (Cons f fs)
  then have "keeps P f" "keeps P (run_stages fs)" by simp_all
  then show ?case unfolding keeps_def run_stages.simps bind_res_Inr by blast
qed (simp add: keeps_def)

lemma keeps_if: "keeps P (run_stages fs) \<Longrightarrow> keeps P (stages_if c fs)"
  by (auto simp: keeps_def stages_if_def)

lemma keeps_set: "(\<And>s. P s \<Longrightarrow> P (g s)) \<Longrightarrow> keeps P (set_state g)"
  by (auto simp: keeps_def set_state_def)

lemma keeps_tidy_ask:
  assumes "\<And>r v fs. parse r = Inr (v, fs) \<Longrightarrow> fs = [r]"
    and "\<And>r v fs t. parse r = Inr (v, fs) \<Longrightarrow> ctl_ok t \<Longrightarrow> ctl_ok (write v t)"
    and "\<And>v t. sent (write v t) = sent t" "\<And>v t. freed (write v t) = freed t"
  shows "keeps (tidy A) (ask A c parse write)"
  unfolding keeps_def
proof (intro allI impI)
  fix s t assume s: "tidy A s" and "ask A c parse write s = Some (Inr t)"
  then obtain r v fs where r: "A (sent s @ [c]) = Some r" "parse r = Inr (v, fs)"
    and t: "t = write v (s\<lparr>sent := sent s @ [c], freed := freed s @ fs\<rparr>)" by (auto simp: ask_Inr)
  have "ctl_ok (s\<lparr>sent := sent s @ [c], freed := freed s @ fs\<rparr>)" using s by (simp add: tidy_def ctl_ok_def)
  then have "ctl_ok t" using assms(2) [OF r(2)] t by simp
  moreover have "freed t = responses A (sent t)"
    using assms(1) [OF r(2)] s r(1) t assms(3,4) by (simp add: tidy_def responses_snoc)
  ultimately show "tidy A t" by (simp add: tidy_def)
qed

lemma keeps_all: "list_all (keeps P) fs \<Longrightarrow> keeps P (run_stages fs)"
  by (rule keeps_run) (simp add: list_all_iff)

lemma keeps_tidy_generic: "keeps (tidy A) (ask_generic E A c)"
  unfolding ask_generic_def by (rule keeps_tidy_ask) (auto dest: parse_frees)

lemma ctl_ok_page: "ctl_ok s \<Longrightarrow> length bs = 8 \<Longrightarrow> ctl_ok (s\<lparr>features_classic := (features_classic s)[i := bs]\<rparr>)"
  by (auto simp: ctl_ok_def dest: set_update_subset_insert [THEN subsetD])

lemma ctl_ok_page_answer:
  assumes "ctl_ok s" "length bs = 8"
  shows "ctl_ok (s\<lparr>sent := cs, freed := rs, last_features_classic_page_index := i,
    features_classic := (features_classic s)[n := bs]\<rparr>)"
proof -
  have "ctl_ok (s\<lparr>features_classic := (features_classic s)[n := bs]\<rparr>)" using assms by (rule ctl_ok_page)
  then show ?thesis unfolding ctl_ok_def by simp
qed

lemma parser_frees:
  "parse_read_buffer_size_response E r = Inr (x1, fs) \<Longrightarrow> fs = [r]"
  "parse_read_local_version_info_response E r = Inr (x2, fs) \<Longrightarrow> fs = [r]"
  "parse_read_bd_addr_response E M r = Inr (x3, fs) \<Longrightarrow> fs = [r]"
  "parse_read_local_supported_commands_response E M n r = Inr (x3, fs) \<Longrightarrow> fs = [r]"
  "parse_ble_read_white_list_size_response E r = Inr (x4, fs) \<Longrightarrow> fs = [r]"
  "parse_ble_read_buffer_size_response E r = Inr (x5, fs) \<Longrightarrow> fs = [r]"
  "parse_ble_read_supported_states_response E M n r = Inr (x3, fs) \<Longrightarrow> fs = [r]"
  "parse_ble_read_local_supported_features_response E M r = Inr (x3, fs) \<Longrightarrow> fs = [r]"
  "parse_ble_read_resolving_list_size_response E r = Inr (x4, fs) \<Longrightarrow> fs = [r]"
  "parse_ble_read_suggested_default_data_length_response E r = Inr (x6, fs) \<Longrightarrow> fs = [r]"
  "parse_ble_read_maximum_data_length_response E r = Inr (x7, fs) \<Longrightarrow> fs = [r]"
  "parse_ble_read_maximum_advertising_data_length E r = Inr (x6, fs) \<Longrightarrow> fs = [r]"
  "parse_ble_read_number_of_supported_advertising_sets E r = Inr (x4, fs) \<Longrightarrow> fs = [r]"
  unfolding parse_read_buffer_size_response_def parse_read_local_version_info_response_def parse_read_bd_addr_response_def
    parse_read_local_supported_commands_response_def parse_ble_read_white_list_size_response_def
    parse_ble_read_buffer_size_response_def parse_ble_read_supported_states_response_def
    parse_ble_read_local_supported_features_response_def parse_ble_read_resolving_list_size_response_def
    parse_ble_read_suggested_default_data_length_response_def parse_ble_read_maximum_data_length_response_def
    parse_ble_read_maximum_advertising_data_length_def parse_ble_read_number_of_supported_advertising_sets_def
  by (rule parse_frees, assumption)+

lemmas all_parsers_free = parser_frees parse_frees(3-)

section \<open>Every stage keeps the state tidy\<close>

lemma tidy_identity:
  assumes E: "hdrs_ok E" and D: "ctl_hdrs_ok D"
  shows "list_all (keeps (tidy A)) (read_identity E D A)"
  unfolding read_identity_def list.pred_inject
  by (intro conjI TrueI keeps_tidy_generic keeps_tidy_ask keeps_set)
    (simp_all add: tidy_def all_parsers_free ctl_ok_write parsed_lengths [OF E ctl_hdrs_okD(1) [OF D]]
      clear_enhanced_sync_def ctl_ok_def split: prod.split)

lemma tidy_page:
  assumes E: "hdrs_ok E" and D: "ctl_hdrs_ok D"
    and s: "tidy A s" and r: "read_features_page E D A page s = Some (Inr (page', t))"
  shows "tidy A t \<and> unat page' < MAX_FEATURES_CLASSIC_PAGE_COUNT"
proof -
  from r obtain r fs mx pages where
    a: "A (sent s @ [Make_read_local_extended_features page]) = Some r"
    and p: "parse_read_local_extended_features_response E (parse_macros D) (features_classic s)
        MAX_FEATURES_CLASSIC_PAGE_COUNT r = Inr ((page', mx, pages), fs)"
    and t: "t = s\<lparr>sent := sent s @ [Make_read_local_extended_features page], freed := freed s @ fs,
        last_features_classic_page_index := mx, features_classic := pages\<rparr>"
    unfolding read_features_page_def ask_Inr by (auto split: prod.splits)
  have fs: "fs = [r]" using p by (rule parse_frees)
  obtain bs where bs: "length bs = 8" "pages = (features_classic s)[unat page' := bs]"
    and pg: "unat page' < MAX_FEATURES_CLASSIC_PAGE_COUNT"
    using parsed_lengths(6) [OF E ctl_hdrs_okD(1) [OF D] p] by blast
  have "ctl_ok (s\<lparr>features_classic := pages\<rparr>)" using s bs by (simp add: ctl_ok_page tidy_def)
  then have "ctl_ok t" unfolding t by (simp add: ctl_ok_def)
  then show ?thesis using s a fs pg by (simp add: tidy_def t responses_snoc)
qed

lemma tidy_page_zero:
  assumes "hdrs_ok E" "ctl_hdrs_ok D"
  shows "keeps (tidy A) (read_page_zero E D A)"
  unfolding keeps_def read_page_zero_def bind_res_Inr
  using tidy_page [OF assms] by (fastforce simp: checked_Inr)

lemma keeps_list: "list_all (keeps P) []" "keeps P f \<Longrightarrow> list_all (keeps P) fs \<Longrightarrow> list_all (keeps P) (f # fs)"
  by simp_all

lemma keeps_tidy_generic_of: "keeps (tidy A) (\<lambda>s. ask_generic E A (g s) s)"
  using keeps_tidy_generic [of A E] by (simp add: keeps_def)

lemmas keeps_intros = keeps_list keeps_all keeps_if keeps_tidy_generic keeps_tidy_generic_of keeps_set keeps_tidy_ask

lemma tidy_host_support: "list_all (keeps (tidy A)) (write_host_support E D A)"
  unfolding write_host_support_def by (intro keeps_intros) (simp_all add: tidy_def)

lemma keeps_feature_pages:
  assumes "\<And>page s page' t. P s \<Longrightarrow> read_features_page E D A page s = Some (Inr (page', t)) \<Longrightarrow> P t"
  shows "keeps P (read_feature_pages E D A page)"
proof -
  have "read_feature_pages E D A page s = Some x \<Longrightarrow>
      (\<forall>pg s pg' t. P s \<longrightarrow> read_features_page E D A pg s = Some (Inr (pg', t)) \<longrightarrow> P t) \<longrightarrow>
      P s \<longrightarrow> (\<forall>t. x = Inr t \<longrightarrow> P t)" for s x
  proof (erule read_feature_pages.raw_induct [where P = "\<lambda>E D A page s x.
      (\<forall>pg s pg' t. P s \<longrightarrow> read_features_page E D A pg s = Some (Inr (pg', t)) \<longrightarrow> P t) \<longrightarrow>
      P s \<longrightarrow> (\<forall>t. x = Inr t \<longrightarrow> P t)", rotated])
    fix rec :: "hci_hdrs \<Rightarrow> ctl_hdrs \<Rightarrow> answers \<Rightarrow> u8 \<Rightarrow> ctl \<Rightarrow> ctl checked option" and E D A page s x
    assume IH: "\<And>E D A page s x. rec E D A page s = Some x \<Longrightarrow>
        (\<forall>pg s pg' t. P s \<longrightarrow> read_features_page E D A pg s = Some (Inr (pg', t)) \<longrightarrow> P t) \<longrightarrow>
        P s \<longrightarrow> (\<forall>t. x = Inr t \<longrightarrow> P t)"
      and x: "(if page \<le> last_features_classic_page_index s \<and> unat page < MAX_FEATURES_CLASSIC_PAGE_COUNT
        then Option.bind (read_features_page E D A page s) (\<lambda>x. case x of
             Inl e \<Rightarrow> Some (Inl e) | Inr (page, t) \<Rightarrow> rec E D A (page + 1) t)
        else Some (Inr s)) = Some x"
    show "(\<forall>pg s pg' t. P s \<longrightarrow> read_features_page E D A pg s = Some (Inr (pg', t)) \<longrightarrow> P t) \<longrightarrow>
        P s \<longrightarrow> (\<forall>t. x = Inr t \<longrightarrow> P t)"
    proof (intro impI allI)
      fix t assume pages: "\<forall>pg s pg' t. P s \<longrightarrow> read_features_page E D A pg s = Some (Inr (pg', t)) \<longrightarrow> P t"
        and s: "P s" and t: "x = Inr t"
      show "P t"
      proof (cases "page \<le> last_features_classic_page_index s \<and> unat page < MAX_FEATURES_CLASSIC_PAGE_COUNT")
        case True
        then obtain page' u where "read_features_page E D A page s = Some (Inr (page', u))" "rec E D A (page' + 1) u = Some x"
          using x t by (cases "read_features_page E D A page s") (auto split: sum.splits prod.splits)
        then show ?thesis using pages s t IH [of E D A "page' + 1" u x] by blast
      next
        case False
        then have "x = Inr s" using x by auto
        then show ?thesis using s t by simp
      qed
    qed
  qed
  then show ?thesis using assms unfolding keeps_def by blast
qed

lemma tidy_feature_pages:
  "hdrs_ok E \<Longrightarrow> ctl_hdrs_ok D \<Longrightarrow> keeps (tidy A) (read_feature_pages E D A page)"
  using tidy_page by (intro keeps_feature_pages) blast

lemma tidy_offload: "list_all (keeps (tidy A)) (read_offload_features E D A)"
  unfolding read_offload_features_def
  by (intro keeps_intros) (simp_all add: tidy_def all_parsers_free)

lemma tidy_ble:
  assumes E: "hdrs_ok E" and D: "ctl_hdrs_ok D"
  shows "list_all (keeps (tidy A)) (read_ble_features E D A)"
  unfolding read_ble_features_def
  by (intro keeps_intros)
    (simp_all add: tidy_def all_parsers_free ctl_ok_write parsed_lengths [OF E ctl_hdrs_okD(1) [OF D]] split: prod.split)

lemma tidy_codecs:
  assumes E: "hdrs_ok E"
  shows "keeps (tidy A) (read_codecs E A)"
  unfolding keeps_def
proof (intro allI impI)
  fix s t assume s: "tidy A s" and "read_codecs E A s = Some (Inr t)"
  then obtain r n cs fs where r: "A (sent s @ [Make_read_local_supported_codecs]) = Some r"
    "parse_read_local_supported_codecs_response E (number_of_local_supported_codecs s) (local_supported_codecs s) r = Inr ((n, cs), fs)"
    and t: "t = s\<lparr>sent := sent s @ [Make_read_local_supported_codecs], freed := freed s @ fs,
        number_of_local_supported_codecs := n, local_supported_codecs := cs\<rparr>"
    unfolding read_codecs_def ask_Inr by (auto split: prod.splits)
  have "length cs = length (local_supported_codecs s)"
    "unat n \<le> length (local_supported_codecs s) \<or> (n, cs) = (number_of_local_supported_codecs s, local_supported_codecs s)"
    using parsed_lengths(5) [OF E core_parse_hdrs_ok r(2)] by simp_all
  then have "ctl_ok t" using s by (auto simp: tidy_def ctl_ok_def t)
  then show "tidy A t" using s r(1) parse_frees(5) [OF r(2)] by (simp add: tidy_def t responses_snoc)
qed

lemma tidy_start_up:
  assumes E: "hdrs_ok E" and D: "ctl_hdrs_ok D"
  shows "keeps (tidy A) (start_up E D A)"
  unfolding start_up_def
  by (intro keeps_all, simp only: list_all_append tidy_identity [OF E D] tidy_host_support tidy_offload simp_thms,
      intro conjI keeps_intros tidy_page_zero [OF E D] tidy_feature_pages [OF E D] tidy_ble [OF E D] tidy_codecs [OF E])
    (simp_all add: tidy_def)

section \<open>The reported key size command\<close>

definition knows_key_size :: "bool \<Rightarrow> ctl \<Rightarrow> bool" where
  "knows_key_size b s \<longleftrightarrow> length (supported_commands s) = HCI_SUPPORTED_COMMANDS_ARRAY_SIZE \<and>
     in_mask HCI_READ_ENCR_KEY_SIZE_SUPPORTED (supported_commands s) = b"

lemma run_stages_append: "run_stages (fs @ gs) s = bind_res (run_stages fs s) (run_stages gs)"
proof (induction fs arbitrary: s)
  case (Cons f fs)
  then show ?case by (cases "f s") (auto simp: bind_res_def split: sum.splits)
qed (simp add: bind_res_def)



lemma knows_frame [simp]: "knows_key_size b (s\<lparr>sent := cs, freed := rs\<rparr>) = knows_key_size b s"
  by (simp add: knows_key_size_def)






text \<open>Start-up around the command that reads the supported commands.\<close>

abbreviation ask_commands :: "hci_hdrs \<Rightarrow> ctl_hdrs \<Rightarrow> answers \<Rightarrow> stage" where
  "ask_commands E D A \<equiv> ask A Make_read_local_supported_commands
     (parse_read_local_supported_commands_response E (parse_macros D) HCI_SUPPORTED_COMMANDS_ARRAY_SIZE)
     (\<lambda>cs s. s\<lparr>supported_commands := cs\<rparr>)"

definition after_commands :: "hci_hdrs \<Rightarrow> ctl_hdrs \<Rightarrow> answers \<Rightarrow> stage list" where
  "after_commands E D A = set_state (clear_enhanced_sync D) # read_page_zero E D A # write_host_support E D A @
     read_feature_pages E D A 1 # read_offload_features E D A @
     [set_state (\<lambda>s. s\<lparr>ble_supported := 1 \<le> last_features_classic_page_index s \<and>
                         feature_bit D HCI_LE_HOST_SUPPORTED (features_classic s ! 1)\<rparr>),
      stages_if ble_supported (read_ble_features E D A),
      stages_if simple_pairing_supported [ask_generic E A (Make_set_event_mask (HCI_DUMO_EVENT_MASK_EXT D))],
      stages_if (\<lambda>s. feature_bit D HCI_READ_LOCAL_CODECS_SUPPORTED (supported_commands s)) [read_codecs E A]]"

definition last_stages :: "ctl_hdrs \<Rightarrow> stage list" where
  "last_stages D =
     [set_state (\<lambda>s. s\<lparr>read_encryption_key_size_supported :=
                         feature_bit D HCI_READ_ENCR_KEY_SIZE_SUPPORTED (supported_commands s)\<rparr>),
      set_state (\<lambda>s. s\<lparr>ctl_readable := True\<rparr>)]"

lemma start_up_split:
  "\<exists>pre. start_up E D A = run_stages (pre @ ask_commands E D A # after_commands E D A @ last_stages D)"
  unfolding start_up_def read_identity_def after_commands_def last_stages_def
  by (rule exI [of _ "take 5 (read_identity E D A)"]) (simp add: read_identity_def)


lemma last_stages_run:
  "run_stages (last_stages D) u = Some (Inr t) \<Longrightarrow>
   ctl_readable t \<and> supports_read_encryption_key_size t = feature_bit D HCI_READ_ENCR_KEY_SIZE_SUPPORTED (supported_commands u)"
  by (auto simp: last_stages_def set_state_def bind_res_def supports_read_encryption_key_size_def)


section \<open>A controller that follows the specification\<close>

primrec cmd_opcode :: "ctl_cmd \<Rightarrow> u16" where
  "cmd_opcode Make_reset = 0x0C03"
| "cmd_opcode Make_read_buffer_size = 0x1005"
| "cmd_opcode (Make_host_buffer_size a b c d) = 0x0C33"
| "cmd_opcode Make_read_local_version_info = 0x1001"
| "cmd_opcode Make_read_bd_addr = 0x1009"
| "cmd_opcode Make_read_local_supported_commands = 0x1002"
| "cmd_opcode (Make_read_local_extended_features page) = 0x1004"
| "cmd_opcode (Make_write_simple_pairing_mode m) = 0x0C56"
| "cmd_opcode (Make_ble_write_host_support a b) = 0x0C6D"
| "cmd_opcode Make_ble_read_offload_features_support = 0xFD53"
| "cmd_opcode (Make_write_secure_connections_host_support m) = 0x0C7A"
| "cmd_opcode Make_ble_read_white_list_size = 0x200F"
| "cmd_opcode Make_ble_read_buffer_size = 0x2002"
| "cmd_opcode Make_ble_read_supported_states = 0x201C"
| "cmd_opcode Make_ble_read_local_supported_features = 0x2003"
| "cmd_opcode Make_ble_read_resolving_list_size = 0x202A"
| "cmd_opcode Make_ble_read_maximum_data_length = 0x202F"
| "cmd_opcode Make_ble_read_suggested_default_data_length = 0x2023"
| "cmd_opcode Make_ble_read_maximum_advertising_data_length = 0x203A"
| "cmd_opcode Make_ble_read_number_of_supported_advertising_sets = 0x203B"
| "cmd_opcode (Make_ble_set_event_mask m) = 0x2001"
| "cmd_opcode (Make_set_event_mask m) = 0x0C01"
| "cmd_opcode Make_read_local_supported_codecs = 0x100B"

text \<open>The return parameters of a successful response, as far as the module reads them: their length and,
  for a page of features, that it is the page that was asked for. The number of codecs is any.\<close>

primrec ret_ok :: "ctl_cmd \<Rightarrow> bytes \<Rightarrow> bool" where
  "ret_ok Make_reset ret = True"
| "ret_ok Make_read_buffer_size ret = (7 \<le> length ret)"
| "ret_ok (Make_host_buffer_size a b c d) ret = True"
| "ret_ok Make_read_local_version_info ret = (8 \<le> length ret)"
| "ret_ok Make_read_bd_addr ret = (6 \<le> length ret)"
| "ret_ok Make_read_local_supported_commands ret = (64 \<le> length ret)"
| "ret_ok (Make_read_local_extended_features page) ret = (10 \<le> length ret \<and> ret ! 0 = page)"
| "ret_ok (Make_write_simple_pairing_mode m) ret = True"
| "ret_ok (Make_ble_write_host_support a b) ret = True"
| "ret_ok Make_ble_read_offload_features_support ret = True"
| "ret_ok (Make_write_secure_connections_host_support m) ret = True"
| "ret_ok Make_ble_read_white_list_size ret = (1 \<le> length ret)"
| "ret_ok Make_ble_read_buffer_size ret = (3 \<le> length ret)"
| "ret_ok Make_ble_read_supported_states ret = (8 \<le> length ret)"
| "ret_ok Make_ble_read_local_supported_features ret = (8 \<le> length ret)"
| "ret_ok Make_ble_read_resolving_list_size ret = (1 \<le> length ret)"
| "ret_ok Make_ble_read_maximum_data_length ret = (8 \<le> length ret)"
| "ret_ok Make_ble_read_suggested_default_data_length ret = (4 \<le> length ret)"
| "ret_ok Make_ble_read_maximum_advertising_data_length ret = (2 \<le> length ret)"
| "ret_ok Make_ble_read_number_of_supported_advertising_sets ret = (1 \<le> length ret)"
| "ret_ok (Make_ble_set_event_mask m) ret = True"
| "ret_ok (Make_set_event_mask m) ret = True"
| "ret_ok Make_read_local_supported_codecs ret = (ret \<noteq> [] \<and> unat (ret ! 0) < length ret)"

text \<open>A response that refuses a command: a command status event, or a command complete event with an
  error status, of at least the fixed length and for the opcode of the command.\<close>

definition refuses :: "bt_hdr \<Rightarrow> u16 \<Rightarrow> bool" where
  "refuses r op \<longleftrightarrow> (\<exists>len status n.
     (\<forall>k < 6. rd8 r (unat (bt_offset r) + k) = Some ([0x0F, len, status, n, ucast op, ucast (drop_bit 8 op)] ! k)) \<or>
     4 \<le> unat len \<and> status \<noteq> 0 \<and>
     (\<forall>k < 6. rd8 r (unat (bt_offset r) + k) = Some ([0x0E, len, n, ucast op, ucast (drop_bit 8 op), status] ! k)))"

text \<open>In the history \<open>h\<close> the controller answered \<open>c\<close> with return parameters of which \<open>Q\<close> holds.\<close>

definition reported :: "answers \<Rightarrow> ctl_cmd list \<Rightarrow> ctl_cmd \<Rightarrow> (bytes \<Rightarrow> bool) \<Rightarrow> bool" where
  "reported A h c Q \<longleftrightarrow> (\<exists>k < length h. h ! k = c \<and>
     (\<exists>r ret. A (take (Suc k) h) = Some r \<and> answers_with r (cmd_opcode c) ret \<and> ret_ok c ret \<and> Q ret))"

abbreviation offers_le :: "answers \<Rightarrow> ctl_cmd list \<Rightarrow> bool" where
  "offers_le A h \<equiv> reported A h (Make_read_local_extended_features 0) (\<lambda>ret. in_mask HCI_LE_SPT_SUPPORTED (take 8 (drop 2 ret)))"

abbreviation le_enabled :: "answers \<Rightarrow> ctl_cmd list \<Rightarrow> bool" where
  "le_enabled A h \<equiv> reported A h (Make_read_local_extended_features 1) (\<lambda>ret. in_mask HCI_LE_HOST_SUPPORTED (take 8 (drop 2 ret)))"

abbreviation le_feature :: "hci_feature \<Rightarrow> answers \<Rightarrow> ctl_cmd list \<Rightarrow> bool" where
  "le_feature f A h \<equiv> reported A h Make_ble_read_local_supported_features (\<lambda>ret. in_mask f (take 8 ret))"

definition has_page :: "answers \<Rightarrow> ctl_cmd list \<Rightarrow> u8 \<Rightarrow> bool" where
  "has_page A h p \<longleftrightarrow> p = 0 \<or> (\<exists>q. reported A h (Make_read_local_extended_features q) (\<lambda>ret. p \<le> ret ! 1)) \<or> p = 1 \<and> offers_le A h"

text \<open>
  The commands that the controller has to carry out: those that every controller knows, the pages of
  features up to a last page that it reported (and page 1, which holds the LE host bits, when it offers
  LE), the LE commands once it reported LE as enabled, and the commands of an LE feature that it
  reported. Any other command it may refuse, the vendor command among them.
\<close>

primrec required :: "answers \<Rightarrow> ctl_cmd list \<Rightarrow> ctl_cmd \<Rightarrow> bool" where
  "required A h Make_reset = False"
| "required A h Make_read_buffer_size = True"
| "required A h (Make_host_buffer_size a b c d) = False"
| "required A h Make_read_local_version_info = True"
| "required A h Make_read_bd_addr = True"
| "required A h Make_read_local_supported_commands = True"
| "required A h (Make_read_local_extended_features page) = has_page A h page"
| "required A h (Make_write_simple_pairing_mode m) = False"
| "required A h (Make_ble_write_host_support a b) = False"
| "required A h Make_ble_read_offload_features_support = False"
| "required A h (Make_write_secure_connections_host_support m) = False"
| "required A h Make_ble_read_white_list_size = le_enabled A h"
| "required A h Make_ble_read_buffer_size = le_enabled A h"
| "required A h Make_ble_read_supported_states = le_enabled A h"
| "required A h Make_ble_read_local_supported_features = le_enabled A h"
| "required A h Make_ble_read_resolving_list_size = le_feature HCI_LE_ENHANCED_PRIVACY_SUPPORTED A h"
| "required A h Make_ble_read_maximum_data_length = le_feature HCI_LE_DATA_LEN_EXT_SUPPORTED A h"
| "required A h Make_ble_read_suggested_default_data_length = le_feature HCI_LE_DATA_LEN_EXT_SUPPORTED A h"
| "required A h Make_ble_read_maximum_advertising_data_length = le_feature HCI_LE_EXTENDED_ADVERTISING_SUPPORTED A h"
| "required A h Make_ble_read_number_of_supported_advertising_sets = le_feature HCI_LE_EXTENDED_ADVERTISING_SUPPORTED A h"
| "required A h (Make_ble_set_event_mask m) = False"
| "required A h (Make_set_event_mask m) = False"
| "required A h Make_read_local_supported_codecs = False"

text \<open>Every command gets a response: a successful one, or a refusal of a command that is not required.\<close>

definition conforming :: "answers \<Rightarrow> bool" where
  "conforming A \<longleftrightarrow> (\<forall>h c. \<exists>r. A (h @ [c]) = Some r \<and>
     (\<not> required A h c \<and> refuses r (cmd_opcode c) \<or> (\<exists>ret. answers_with r (cmd_opcode c) ret \<and> ret_ok c ret)))"

lemma conformingE:
  assumes "conforming A"
  obtains (answered) r ret where "A (h @ [c]) = Some r" "answers_with r (cmd_opcode c) ret" "ret_ok c ret"
    | (refused) r where "A (h @ [c]) = Some r" "\<not> required A h c" "refuses r (cmd_opcode c)"
  using assms unfolding conforming_def by meson

lemma requiredE:
  assumes "conforming A" "required A h c"
  obtains r ret where "A (h @ [c]) = Some r" "answers_with r (cmd_opcode c) ret" "ret_ok c ret"
  using conformingE [OF assms(1), of h c] assms(2) by metis

lemma refuses_header:
  assumes E: "hdrs_ok E" and r: "refuses r op" and ex: "ex = op \<or> ex = NO_OPCODE_CHECKING"
  shows "read_command_complete_header E r ex 0 = Inr None"
proof -
  let ?o = "unat (bt_offset r)"
  obtain len st n where "(\<forall>k < 6. rd8 r (?o + k) = Some ([0x0F, len, st, n, ucast op, ucast (drop_bit 8 op)] ! k)) \<or>
      4 \<le> unat len \<and> st \<noteq> 0 \<and> (\<forall>k < 6. rd8 r (?o + k) = Some ([0x0E, len, n, ucast op, ucast (drop_bit 8 op), st] ! k))"
    using r unfolding refuses_def by blast
  then show ?thesis
  proof
    assume at: "\<forall>k < 6. rd8 r (?o + k) = Some ([0x0F, len, st, n, ucast op, ucast (drop_bit 8 op)] ! k)"
    show ?thesis using at [rule_format, of 0] at [rule_format, of 1]
      by (simp add: read_command_complete_header_def hdrs_okD [OF E] parser_simps Let_def)
  next
    assume "4 \<le> unat len \<and> st \<noteq> 0 \<and> (\<forall>k < 6. rd8 r (?o + k) = Some ([0x0E, len, n, ucast op, ucast (drop_bit 8 op), st] ! k))"
    then have l: "4 \<le> unat len" "st \<noteq> 0"
      and at: "\<And>k. k < 6 \<Longrightarrow> rd8 r (?o + k) = Some ([0x0E, len, n, ucast op, ucast (drop_bit 8 op), st] ! k)" by blast+
    have op: "rd16 E r (?o + 3) = Some op"
      using at [of 3] at [of 4] by (simp add: rd16_def hdrs_okD [OF E] join16 add.assoc add.commute)
    show ?thesis using at [of 0] at [of 1] at [of 5] op l ex
      by (auto simp: read_command_complete_header_def hdrs_okD [OF E] parser_simps Let_def)
  qed
qed

lemma refuses_parses:
  assumes E: "hdrs_ok E" and r: "refuses r op"
  shows "parse_generic_command_complete E r = Inr ((), [r])" "parse_ble_read_offload_features_response E r = Inr (False, [r])"
    "op = 0x100B \<Longrightarrow> parse_read_local_supported_codecs_response E n cs r = Inr ((n, cs), [r])"
  using refuses_header [OF E r]
  by (simp_all add: parse_generic_command_complete_def parse_ble_read_offload_features_response_def
      parse_read_local_supported_codecs_response_def parser_simps hdrs_okD [OF E])

section \<open>What the module knows was reported\<close>

lemma reported_mono: "reported A h c Q \<Longrightarrow> reported A (h @ cs) c Q"
  unfolding reported_def
proof (elim exE conjE)
  fix k r ret
  assume k: "k < length h" "h ! k = c" and r: "A (take (Suc k) h) = Some r" "answers_with r (cmd_opcode c) ret" "ret_ok c ret" "Q ret"
  then have "(h @ cs) ! k = c" "take (Suc k) (h @ cs) = take (Suc k) h" by (simp_all add: nth_append)
  then show "\<exists>k < length (h @ cs). (h @ cs) ! k = c \<and>
      (\<exists>r ret. A (take (Suc k) (h @ cs)) = Some r \<and> answers_with r (cmd_opcode c) ret \<and> ret_ok c ret \<and> Q ret)"
    using k(1) r by (intro exI [of _ k] conjI exI [of _ r] exI [of _ ret]) simp_all
qed

lemma reported_now:
  "A (h @ [c]) = Some r \<Longrightarrow> answers_with r (cmd_opcode c) ret \<Longrightarrow> ret_ok c ret \<Longrightarrow> Q ret \<Longrightarrow> reported A (h @ [c]) c Q"
  unfolding reported_def by (intro exI [of _ "length h"] conjI exI [of _ r] exI [of _ ret]) simp_all

lemma has_page_mono: "has_page A h p \<Longrightarrow> has_page A (h @ cs) p"
  unfolding has_page_def using reported_mono by blast

definition backed :: "answers \<Rightarrow> ctl_cmd list \<Rightarrow> bytes list \<Rightarrow> u8 \<Rightarrow> bytes \<Rightarrow> bool \<Rightarrow> bool" where
  "backed A h pages lp le ble \<longleftrightarrow>
     (in_mask HCI_LE_SPT_SUPPORTED (pages ! 0) \<longrightarrow> offers_le A h) \<and>
     (in_mask HCI_LE_HOST_SUPPORTED (pages ! 1) \<longrightarrow> le_enabled A h) \<and>
     (\<forall>p \<le> lp. has_page A h p) \<and>
     (\<forall>f. in_mask f le \<longrightarrow> f \<in> {HCI_LE_ENHANCED_PRIVACY_SUPPORTED, HCI_LE_DATA_LEN_EXT_SUPPORTED,
        HCI_LE_EXTENDED_ADVERTISING_SUPPORTED} \<longrightarrow> le_feature f A h) \<and>
     (ble \<longrightarrow> le_enabled A h)"

text \<open>A state in which each feature that guards a command was reported by the controller. The initial state
  is one, and so is the state that an earlier start-up left.\<close>

definition known :: "answers \<Rightarrow> ctl \<Rightarrow> bool" where
  "known A s \<longleftrightarrow> ctl_ok s \<and>
     backed A (sent s) (features_classic s) (last_features_classic_page_index s) (features_ble s) (ble_supported s)"

lemma backed_mono: "backed A h pages lp le ble \<Longrightarrow> backed A (h @ cs) pages lp le ble"
  unfolding backed_def using reported_mono has_page_mono by blast

lemma known_init: "known A ctl_init"
proof -
  have z: "\<not> in_mask HCI_LE_SPT_SUPPORTED (replicate 8 0)" "\<not> in_mask HCI_LE_HOST_SUPPORTED (replicate 8 0)"
    "\<not> in_mask HCI_LE_ENHANCED_PRIVACY_SUPPORTED (replicate 8 0)" "\<not> in_mask HCI_LE_DATA_LEN_EXT_SUPPORTED (replicate 8 0)"
    "\<not> in_mask HCI_LE_EXTENDED_ADVERTISING_SUPPORTED (replicate 8 0)"
    by (simp_all add: in_mask_def)
  have "backed A [] (replicate 3 (replicate 8 0)) 0 (replicate 8 0) False"
    unfolding backed_def by (auto simp: has_page_def z)
  moreover have "ctl_ok ctl_init" using tidy_init [of A] by (simp add: tidy_def)
  moreover have "sent ctl_init = []" "features_classic ctl_init = replicate 3 (replicate 8 0)" "features_ble ctl_init = replicate 8 0"
    "last_features_classic_page_index ctl_init = 0" "\<not> ble_supported ctl_init" by (simp_all add: ctl_init_def)
  ultimately show ?thesis by (simp add: known_def)
qed

lemma known_sent: "known A s \<Longrightarrow> known A (s\<lparr>sent := sent s @ cs, freed := rs\<rparr>)"
  unfolding known_def using backed_mono by (simp add: ctl_ok_def)

lemma known_frame [simp]:
  "known A (s\<lparr>acl_data_size_classic := x, acl_buffer_count_classic := y\<rparr>) = known A s"
  "known A (s\<lparr>bt_version_info := v\<rparr>) = known A s"
  "known A (s\<lparr>acl_data_size_ble := x, acl_buffer_count_ble := i\<rparr>) = known A s" "known A (s\<lparr>acl_data_size_ble := x\<rparr>) = known A s"
  "known A (s\<lparr>ble_white_list_size := i\<rparr>) = known A s" "known A (s\<lparr>ble_resolving_list_max_size := i\<rparr>) = known A s"
  "known A (s\<lparr>ble_suggested_default_data_length := x\<rparr>) = known A s"
  "known A (s\<lparr>ble_supported_max_tx_octets := x, ble_supported_max_tx_time := y, ble_supported_max_rx_octets := z,
     ble_supported_max_rx_time := u\<rparr>) = known A s"
  "known A (s\<lparr>ble_maxium_advertising_data_length := x\<rparr>) = known A s"
  "known A (s\<lparr>ble_number_of_supported_advertising_sets := i\<rparr>) = known A s" "known A (s\<lparr>ctl_readable := b\<rparr>) = known A s"
  "known A (s\<lparr>ble_offload_features_supported := b\<rparr>) = known A s"
  "known A (s\<lparr>simple_pairing_supported := b\<rparr>) = known A s" "known A (s\<lparr>secure_connections_supported := b\<rparr>) = known A s"
  "known A (s\<lparr>read_encryption_key_size_supported := b\<rparr>) = known A s"
  by (simp_all add: known_def)

lemma known_write:
  "known A s \<Longrightarrow> length a = 6 \<Longrightarrow> known A (s\<lparr>ctl_address := a\<rparr>)"
  "known A s \<Longrightarrow> length bs = HCI_SUPPORTED_COMMANDS_ARRAY_SIZE \<Longrightarrow> known A (s\<lparr>supported_commands := bs\<rparr>)"
  "known A s \<Longrightarrow> length c = BLE_SUPPORTED_STATES_SIZE \<Longrightarrow> known A (s\<lparr>ble_supported_states := c\<rparr>)"
  by (simp_all add: known_def ctl_ok_write)

lemma known_clear: "known A s \<Longrightarrow> known A (clear_enhanced_sync D s)"
  using known_write(2) by (simp add: clear_enhanced_sync_def known_def ctl_ok_def)

lemma clear_sent [simp]: "sent (clear_enhanced_sync D s) = sent s"
  by (simp add: clear_enhanced_sync_def)

text \<open>A stage returns after at most \<open>n\<close> commands, in a history in which \<open>P\<close> holds.\<close>

definition lasting :: "(ctl_cmd list \<Rightarrow> bool) \<Rightarrow> bool" where
  "lasting P \<longleftrightarrow> (\<forall>h cs. P h \<longrightarrow> P (h @ cs))"

lemma lasting_intros [simp]:
  "lasting (\<lambda>h. True)" "lasting (\<lambda>h. reported A h c Q)"
  "lasting P \<Longrightarrow> lasting R \<Longrightarrow> lasting (\<lambda>h. P h \<and> R h)"
  by (auto simp: lasting_def reported_mono)

definition returns :: "answers \<Rightarrow> (ctl_cmd list \<Rightarrow> bool) \<Rightarrow> nat \<Rightarrow> stage \<Rightarrow> bool" where
  "returns A P n f \<longleftrightarrow> (\<forall>s. known A s \<longrightarrow> P (sent s) \<longrightarrow>
     (\<exists>t cs. f s = Some (Inr t) \<and> known A t \<and> sent t = sent s @ cs \<and> length cs \<le> n))"

lemma returns_ask_gen:
  assumes A: "conforming A" and req: "\<And>h. P h \<Longrightarrow> required A h c"
    and p: "\<And>r ret. answers_with r (cmd_opcode c) ret \<Longrightarrow> ret_ok c ret \<Longrightarrow> \<exists>v. parse r = Inr (v, [r]) \<and> V ret v"
    and w: "\<And>s r ret v h. known A s \<Longrightarrow> sent s = h @ [c] \<Longrightarrow> A (sent s) = Some r \<Longrightarrow> answers_with r (cmd_opcode c) ret \<Longrightarrow>
      ret_ok c ret \<Longrightarrow> V ret v \<Longrightarrow> known A (write v s)" "\<And>v s. sent (write v s) = sent s"
  shows "returns A P 1 (ask A c parse write)"
  unfolding returns_def
proof (intro allI impI)
  fix s assume s: "known A s" and P: "P (sent s)"
  obtain r ret where r: "A (sent s @ [c]) = Some r" "answers_with r (cmd_opcode c) ret" "ret_ok c ret"
    by (rule requiredE [OF A req [OF P]])
  obtain v where v: "parse r = Inr (v, [r])" "V ret v" using p r by blast
  let ?u = "s\<lparr>sent := sent s @ [c], freed := freed s @ [r]\<rparr>"
  have "known A (write v ?u)"
    by (rule w(1) [OF known_sent [OF s] _ _ r(2,3) v(2)]) (simp_all add: r(1))
  then show "\<exists>t cs. ask A c parse write s = Some (Inr t) \<and> known A t \<and> sent t = sent s @ cs \<and> length cs \<le> 1"
    using r(1) v(1) w(2) by (intro exI [of _ "write v ?u"] exI [of _ "[c]"]) (simp add: ask_Inr)
qed

lemma returns_ask:
  assumes "conforming A" "\<And>h. P h \<Longrightarrow> required A h c"
    and "\<And>r ret. answers_with r (cmd_opcode c) ret \<Longrightarrow> ret_ok c ret \<Longrightarrow> \<exists>v. parse r = Inr (v, [r]) \<and> V v"
    and "\<And>v s. V v \<Longrightarrow> known A s \<Longrightarrow> known A (write v s)" "\<And>v s. sent (write v s) = sent s"
  shows "returns A P 1 (ask A c parse write)"
  by (rule returns_ask_gen [where V = "\<lambda>_. V"]) (use assms in blast)+

lemma returns_any:
  assumes A: "conforming A"
    and p: "\<And>r ret. answers_with r (cmd_opcode c) ret \<or> refuses r (cmd_opcode c) \<Longrightarrow> \<exists>v. parse r = Inr (v, [r])"
    and w: "\<And>v s. known A s \<Longrightarrow> known A (write v s)" "\<And>v s. sent (write v s) = sent s"
  shows "returns A P 1 (ask A c parse write)"
  unfolding returns_def
proof (intro allI impI)
  fix s assume s: "known A s"
  have "\<exists>r ret. A (sent s @ [c]) = Some r \<and> (answers_with r (cmd_opcode c) ret \<or> refuses r (cmd_opcode c))"
    by (rule conformingE [OF A, of "sent s" c]) blast+
  then obtain r where r: "A (sent s @ [c]) = Some r" "\<exists>v. parse r = Inr (v, [r])" using p by blast
  then obtain v where v: "parse r = Inr (v, [r])" by blast
  let ?u = "s\<lparr>sent := sent s @ [c], freed := freed s @ [r]\<rparr>"
  have "known A (write v ?u)" by (intro w(1) known_sent s)
  then show "\<exists>t cs. ask A c parse write s = Some (Inr t) \<and> known A t \<and> sent t = sent s @ cs \<and> length cs \<le> 1"
    using r(1) v w(2) by (intro exI [of _ "write v ?u"] exI [of _ "[c]"]) (simp add: ask_Inr)
qed

lemma returns_generic: "hdrs_ok E \<Longrightarrow> conforming A \<Longrightarrow> returns A P 1 (\<lambda>s. ask_generic E A (g s) s)"
proof -
  assume E: "hdrs_ok E" and A: "conforming A"
  have "returns A P 1 (ask_generic E A c)" for c
    unfolding ask_generic_def
    by (rule returns_any [OF A]) (use parse_answers(1) [OF E core_parse_hdrs_ok] refuses_parses(1) [OF E] in blast)+
  then show ?thesis by (simp add: returns_def)
qed

lemma returns_set: "(\<And>s. known A s \<Longrightarrow> P (sent s) \<Longrightarrow> known A (g s)) \<Longrightarrow> (\<And>s. sent (g s) = sent s) \<Longrightarrow> returns A P 0 (set_state g)"
  by (simp add: returns_def set_state_def)

lemma returns_Nil: "returns A P 0 (run_stages [])"
  by (simp add: returns_def)

lemma returns_then:
  assumes P: "lasting P" and f: "returns A P m f" and g: "returns A P n g"
  shows "returns A P (m + n) (\<lambda>s. bind_res (f s) g)"
  unfolding returns_def
proof (intro allI impI)
  fix s assume s: "known A s" "P (sent s)"
  obtain t cs where t: "f s = Some (Inr t)" "known A t" "sent t = sent s @ cs" "length cs \<le> m"
    using f s unfolding returns_def by blast
  have "P (sent t)" using P s(2) t(3) by (simp add: lasting_def)
  then obtain u ds where u: "g t = Some (Inr u)" "known A u" "sent u = sent t @ ds" "length ds \<le> n"
    using g t(2) unfolding returns_def by blast
  have "bind_res (f s) g = Some (Inr u)" using t(1) u(1) by (simp add: bind_res_def)
  moreover have "sent u = sent s @ (cs @ ds)" "length (cs @ ds) \<le> m + n" using t(3,4) u(3,4) by simp_all
  ultimately show "\<exists>t cs. bind_res (f s) g = Some (Inr t) \<and> known A t \<and> sent t = sent s @ cs \<and> length cs \<le> m + n"
    using u(2) by blast
qed

lemma returns_Cons: "lasting P \<Longrightarrow> returns A P m f \<Longrightarrow> returns A P n (run_stages fs) \<Longrightarrow> returns A P (m + n) (run_stages (f # fs))"
  using returns_then [of P A m f n "run_stages fs"] by (simp add: returns_def)

lemma returns_append:
  "lasting P \<Longrightarrow> returns A P m (run_stages fs) \<Longrightarrow> returns A P n (run_stages gs) \<Longrightarrow> returns A P (m + n) (run_stages (fs @ gs))"
  using returns_then [of P A m "run_stages fs" n "run_stages gs"] by (simp add: returns_def run_stages_append)

lemma returns_if:
  "(\<And>s. known A s \<Longrightarrow> P (sent s) \<Longrightarrow> c s \<Longrightarrow> R (sent s)) \<Longrightarrow> returns A R n (run_stages fs) \<Longrightarrow> returns A P n (stages_if c fs)"
  by (auto simp: returns_def stages_if_def)

lemma page_backed:
  assumes b: "backed A (h @ [Make_read_local_extended_features p]) pages i le ble" and n: "length pages = 3" "unat p < 3"
    and r: "A (h @ [Make_read_local_extended_features p]) = Some r" "answers_with r (cmd_opcode (Make_read_local_extended_features p)) ret"
      "ret_ok (Make_read_local_extended_features p) ret"
  shows "backed A (h @ [Make_read_local_extended_features p]) (pages[unat p := take 8 (drop 2 ret)]) (ret ! 1) le ble"
proof -
  let ?c = "Make_read_local_extended_features p"
  note now = reported_now [where A = A, OF r]
  have "offers_le A (h @ [?c])" if "in_mask HCI_LE_SPT_SUPPORTED (pages[unat p := take 8 (drop 2 ret)] ! 0)"
  proof (cases "p = 0")
    case True
    then show ?thesis using that n now [of "\<lambda>ret. in_mask HCI_LE_SPT_SUPPORTED (take 8 (drop 2 ret))"] by simp
  next
    case False
    then show ?thesis using that b by (simp add: backed_def unat_eq_0)
  qed
  moreover have "le_enabled A (h @ [?c])" if "in_mask HCI_LE_HOST_SUPPORTED (pages[unat p := take 8 (drop 2 ret)] ! 1)"
  proof (cases "p = 1")
    case True
    then show ?thesis using that n now [of "\<lambda>ret. in_mask HCI_LE_HOST_SUPPORTED (take 8 (drop 2 ret))"] by simp
  next
    case False
    then have "unat p \<noteq> 1" by (simp add: word_unat_eq_iff)
    then show ?thesis using that b by (simp add: backed_def)
  qed
  moreover have "has_page A (h @ [?c]) q" if "q \<le> ret ! 1" for q
    using now [of "\<lambda>ret. q \<le> ret ! 1"] that by (auto simp: has_page_def)
  ultimately show ?thesis using b by (simp add: backed_def)
qed
lemma returns_page:
  assumes E: "hdrs_ok E" and D: "ctl_hdrs_ok D" and A: "conforming A" and s: "known A s"
    and pg: "unat page < MAX_FEATURES_CLASSIC_PAGE_COUNT" "has_page A (sent s) page"
  shows "\<exists>t. read_features_page E D A page s = Some (Inr (page, t)) \<and> known A t \<and>
    sent t = sent s @ [Make_read_local_extended_features page]"
proof -
  let ?c = "Make_read_local_extended_features page"
  have "required A (sent s) ?c" using pg(2) by simp
  then obtain r ret where r: "A (sent s @ [?c]) = Some r" "answers_with r (cmd_opcode ?c) ret" "ret_ok ?c ret"
    by (rule requiredE [OF A])
  then have a: "answers_with r 0x1004 ret" and l: "10 \<le> length ret" "ret ! 0 = page" by simp_all
  have c: "ctl_ok s" using s by (simp add: known_def)
  then have len: "length (features_classic s) = 3" by (simp add: ctl_ok_def)
  let ?fs = "(features_classic s)[unat page := take 8 (drop 2 ret)]"
  have p: "parse_read_local_extended_features_response E (parse_macros D) (features_classic s) MAX_FEATURES_CLASSIC_PAGE_COUNT r =
      Inr ((page, ret ! 1, ?fs), [r])"
    using parse_answers(7) [OF E ctl_hdrs_okD(1) [OF D] a l(1), of 3 "features_classic s"] pg(1) l len by simp
  let ?t = "s\<lparr>sent := sent s @ [?c], freed := freed s @ [r],
    last_features_classic_page_index := ret ! 1, features_classic := ?fs\<rparr>"
  have "ctl_ok ?t" using c by (rule ctl_ok_page_answer) (use l in simp)
  moreover have "backed A (sent s @ [?c]) (features_classic s) (last_features_classic_page_index s) (features_ble s) (ble_supported s)"
    using s backed_mono by (simp add: known_def)
  then have "backed A (sent s @ [?c]) ?fs (ret ! 1) (features_ble s) (ble_supported s)"
    by (rule page_backed [where A = A, OF _ len pg(1) r])
  ultimately have "known A ?t" by (simp add: known_def)
  moreover have "read_features_page E D A page s = Some (Inr (page, ?t))"
    by (simp add: read_features_page_def ask_def AWAIT_COMMAND_def r(1) p parser_simps)
  ultimately show ?thesis by (intro exI [of _ ?t] conjI) simp_all
qed

lemma returns_feature_pages:
  assumes E: "hdrs_ok E" and D: "ctl_hdrs_ok D" and A: "conforming A" and s: "known A s"
  shows "\<exists>t cs. read_feature_pages E D A page s = Some (Inr t) \<and> known A t \<and> sent t = sent s @ cs \<and>
    length cs \<le> MAX_FEATURES_CLASSIC_PAGE_COUNT - unat page"
  using s
proof (induction "MAX_FEATURES_CLASSIC_PAGE_COUNT - unat page" arbitrary: page s rule: less_induct)
  case less
  show ?case
  proof (cases "page \<le> last_features_classic_page_index s \<and> unat page < MAX_FEATURES_CLASSIC_PAGE_COUNT")
    case False
    then have "read_feature_pages E D A page s = Some (Inr s)" by (subst read_feature_pages.simps) auto
    then show ?thesis using less.prems by simp
  next
    case True
    then have "has_page A (sent s) page" using less.prems by (simp add: known_def backed_def)
    then obtain t where t: "read_features_page E D A page s = Some (Inr (page, t))" "known A t"
      "sent t = sent s @ [Make_read_local_extended_features page]"
      using returns_page [OF E D A less.prems, of page] True by blast
    have n: "unat (page + 1) = unat page + 1" using True by (simp add: unat_word_ariths)
    have "MAX_FEATURES_CLASSIC_PAGE_COUNT - unat (page + 1) < MAX_FEATURES_CLASSIC_PAGE_COUNT - unat page"
      using n True by linarith
    then obtain u cs where u: "read_feature_pages E D A (page + 1) t = Some (Inr u)" "known A u" "sent u = sent t @ cs"
      "length cs \<le> MAX_FEATURES_CLASSIC_PAGE_COUNT - unat (page + 1)"
      using less.hyps [OF _ t(2)] by blast
    have "read_feature_pages E D A page s = Some (Inr u)" using True t(1) u(1) by (subst read_feature_pages.simps) simp
    moreover have "sent u = sent s @ (Make_read_local_extended_features page # cs)" using u(3) t(3) by simp
    moreover have "length (Make_read_local_extended_features page # cs) \<le> MAX_FEATURES_CLASSIC_PAGE_COUNT - unat page"
      using u(4) n conjunct2 [OF True] by simp
    ultimately show ?thesis using u(2) by blast
  qed
qed

lemma returns_pages:
  assumes E: "hdrs_ok E" and D: "ctl_hdrs_ok D" and A: "conforming A"
  shows "returns A P 1 (read_page_zero E D A)" "returns A P 2 (read_feature_pages E D A 1)"
proof -
  have z: "has_page A h 0" for h by (simp add: has_page_def)
  show "returns A P 1 (read_page_zero E D A)"
    using returns_page [OF E D A _ _ z] by (fastforce simp: returns_def read_page_zero_def bind_res_def parser_simps)
  show "returns A P 2 (read_feature_pages E D A 1)"
    using returns_feature_pages [OF E D A, of _ 1] by (simp add: returns_def)
qed

text \<open>The codecs are the one response that start-up can be stopped by: when it is refused the state stays as
  it is, and when it counts more codecs than the array of the module holds, the copy runs past the array.\<close>

lemma copy_codecs_overrun: "length arr < i + n \<Longrightarrow> i \<le> length arr \<Longrightarrow> copy_codecs r p i n arr = None"
proof (induction n arbitrary: p i arr)
  case (Suc n)
  then show ?case by (cases "rd8 r p"; cases "i < length arr") auto
qed simp

definition too_many_codecs :: "answers \<Rightarrow> ctl_cmd list \<Rightarrow> bool" where
  "too_many_codecs A h \<longleftrightarrow> (\<exists>r ret. A (h @ [Make_read_local_supported_codecs]) = Some r \<and> answers_with r 0x100B ret \<and>
     ret \<noteq> [] \<and> MAX_LOCAL_SUPPORTED_CODECS_SIZE < unat (ret ! 0))"

lemma returns_codecs:
  assumes E: "hdrs_ok E" and A: "conforming A" and s: "known A s"
  shows "(\<exists>t. read_codecs E A s = Some (Inr t) \<and> known A t \<and> sent t = sent s @ [Make_read_local_supported_codecs]) \<or>
    read_codecs E A s = Some (Inl Bad_access) \<and> too_many_codecs A (sent s)"
proof -
  let ?c = "Make_read_local_supported_codecs" and ?num = "number_of_local_supported_codecs s"
  have l: "length (local_supported_codecs s) = 8" "unat ?num \<le> 8" "ctl_ok s" using s by (simp_all add: known_def ctl_ok_def)
  have back_ok: "\<exists>t. read_codecs E A s = Some (Inr t) \<and> known A t \<and> sent t = sent s @ [?c]"
    if r: "A (sent s @ [?c]) = Some r"
      and p: "parse_read_local_supported_codecs_response E ?num (local_supported_codecs s) r = Inr ((m, cs), [r])"
      and k: "length cs = 8" "unat m \<le> 8" for r m cs
  proof -
    let ?t = "s\<lparr>sent := sent s @ [?c], freed := freed s @ [r], number_of_local_supported_codecs := m, local_supported_codecs := cs\<rparr>"
    have "read_codecs E A s = Some (Inr ?t)" by (simp add: read_codecs_def ask_def AWAIT_COMMAND_def r p parser_simps)
    moreover have "ctl_ok ?t" using l(3) k by (simp add: ctl_ok_def)
    then have "known A ?t" using s backed_mono by (simp add: known_def)
    ultimately show ?thesis by (intro exI [of _ ?t] conjI) simp_all
  qed
  show ?thesis
  proof (rule conformingE [OF A, of "sent s" ?c])
    fix r assume r: "A (sent s @ [?c]) = Some r" "refuses r (cmd_opcode ?c)"
    have "parse_read_local_supported_codecs_response E ?num (local_supported_codecs s) r = Inr ((?num, local_supported_codecs s), [r])"
      by (rule refuses_parses(3) [OF E r(2)]) simp
    then show ?thesis using back_ok r(1) l by blast
  next
    fix r ret assume r: "A (sent s @ [?c]) = Some r" "answers_with r (cmd_opcode ?c) ret" "ret_ok ?c ret"
    then obtain m cs where ret: "ret = m # cs" "unat m \<le> length cs" by (cases ret) auto
    have a: "answers_with r 0x100B (m # cs)" using r(2) ret by simp
    show ?thesis
    proof (cases "unat m \<le> 8")
      case True
      then show ?thesis using back_ok r(1) parse_codecs_answers [OF E a ret(2), of "local_supported_codecs s" ?num] l ret(2) by simp
    next
      case False
      have "read_codecs E A s = Some (Inl Bad_access)"
        using answers_rd8 [OF a, of 0] answers_header [OF E a, of 0] False copy_codecs_overrun [of "local_supported_codecs s" 0 "unat m" r] l(1)
        by (simp add: read_codecs_def ask_def AWAIT_COMMAND_def r(1) parse_read_local_supported_codecs_response_def parser_simps hdrs_okD [OF E])
      moreover have "too_many_codecs A (sent s)" using False r(1) a unfolding too_many_codecs_def
        by (intro exI [of _ r] exI [of _ "m # cs"]) simp
      ultimately show ?thesis by blast
    qed
  qed
qed

text \<open>The lists of plain stages, and all of start-up up to the codecs.\<close>

lemma answered:
  assumes E: "hdrs_ok E" and D: "parse_hdrs_ok D"
  shows "answers_with r (cmd_opcode Make_read_buffer_size) ret \<Longrightarrow> ret_ok Make_read_buffer_size ret \<Longrightarrow>
      \<exists>v. parse_read_buffer_size_response E r = Inr (v, [r]) \<and> True"
    "answers_with r (cmd_opcode Make_read_local_version_info) ret \<Longrightarrow> ret_ok Make_read_local_version_info ret \<Longrightarrow>
      \<exists>v. parse_read_local_version_info_response E r = Inr (v, [r]) \<and> True"
    "answers_with r (cmd_opcode Make_read_bd_addr) ret \<Longrightarrow> ret_ok Make_read_bd_addr ret \<Longrightarrow>
      \<exists>v. parse_read_bd_addr_response E D r = Inr (v, [r]) \<and> length v = 6"
    "answers_with r (cmd_opcode Make_read_local_supported_commands) ret \<Longrightarrow> ret_ok Make_read_local_supported_commands ret \<Longrightarrow>
      \<exists>v. parse_read_local_supported_commands_response E D 64 r = Inr (v, [r]) \<and> length v = 64"
    "answers_with r (cmd_opcode Make_ble_read_white_list_size) ret \<Longrightarrow> ret_ok Make_ble_read_white_list_size ret \<Longrightarrow>
      \<exists>v. parse_ble_read_white_list_size_response E r = Inr (v, [r]) \<and> True"
    "answers_with r (cmd_opcode Make_ble_read_buffer_size) ret \<Longrightarrow> ret_ok Make_ble_read_buffer_size ret \<Longrightarrow>
      \<exists>v. parse_ble_read_buffer_size_response E r = Inr (v, [r]) \<and> True"
    "answers_with r (cmd_opcode Make_ble_read_supported_states) ret \<Longrightarrow> ret_ok Make_ble_read_supported_states ret \<Longrightarrow>
      \<exists>v. parse_ble_read_supported_states_response E D 8 r = Inr (v, [r]) \<and> length v = 8"
    "answers_with r (cmd_opcode Make_ble_read_local_supported_features) ret \<Longrightarrow> ret_ok Make_ble_read_local_supported_features ret \<Longrightarrow>
      \<exists>v. parse_ble_read_local_supported_features_response E D r = Inr (v, [r]) \<and> v = take 8 ret"
    "answers_with r (cmd_opcode Make_ble_read_resolving_list_size) ret \<Longrightarrow> ret_ok Make_ble_read_resolving_list_size ret \<Longrightarrow>
      \<exists>v. parse_ble_read_resolving_list_size_response E r = Inr (v, [r]) \<and> True"
    "answers_with r (cmd_opcode Make_ble_read_maximum_data_length) ret \<Longrightarrow> ret_ok Make_ble_read_maximum_data_length ret \<Longrightarrow>
      \<exists>v. parse_ble_read_maximum_data_length_response E r = Inr (v, [r]) \<and> True"
    "answers_with r (cmd_opcode Make_ble_read_suggested_default_data_length) ret \<Longrightarrow>
      ret_ok Make_ble_read_suggested_default_data_length ret \<Longrightarrow>
      \<exists>v. parse_ble_read_suggested_default_data_length_response E r = Inr (v, [r]) \<and> True"
    "answers_with r (cmd_opcode Make_ble_read_maximum_advertising_data_length) ret \<Longrightarrow>
      ret_ok Make_ble_read_maximum_advertising_data_length ret \<Longrightarrow>
      \<exists>v. parse_ble_read_maximum_advertising_data_length E r = Inr (v, [r]) \<and> True"
    "answers_with r (cmd_opcode Make_ble_read_number_of_supported_advertising_sets) ret \<Longrightarrow>
      ret_ok Make_ble_read_number_of_supported_advertising_sets ret \<Longrightarrow>
      \<exists>v. parse_ble_read_number_of_supported_advertising_sets E r = Inr (v, [r]) \<and> True"
  by (simp_all add: parse_answers [OF E D])

lemma returns_identity:
  assumes E: "hdrs_ok E" and D: "ctl_hdrs_ok D" and A: "conforming A"
  shows "returns A (\<lambda>_. True) 6 (run_stages (read_identity E D A))"
proof -
  note ans = answered [OF E ctl_hdrs_okD(1) [OF D]] and gen = returns_generic [OF E A]
  have "returns A (\<lambda>_. True) (1 + (1 + (1 + (1 + (1 + (1 + (0 + 0))))))) (run_stages (read_identity E D A))"
    unfolding read_identity_def
    by (intro returns_Cons returns_Nil gen returns_set returns_ask [OF A _ ans(1)] returns_ask [OF A _ ans(2)]
        returns_ask [OF A _ ans(3)] returns_ask [OF A _ ans(4)])
      (simp_all add: known_write known_clear split: prod.split)
  then show ?thesis by (simp add: eval_nat_numeral)
qed

lemma known_fields:
  "known A s \<Longrightarrow> offers_le A (sent s) \<Longrightarrow> last_features_classic_page_index s < 1 \<Longrightarrow> known A (s\<lparr>last_features_classic_page_index := 1\<rparr>)"
  "known A s \<Longrightarrow> known A (s\<lparr>ble_supported := b \<and> in_mask HCI_LE_HOST_SUPPORTED (features_classic s ! 1)\<rparr>)"
proof -
  assume s: "known A s" and o: "offers_le A (sent s)"
  have "has_page A (sent s) p" if "p \<le> 1" for p
  proof -
    have "p = 0 \<or> p = 1" using that by (auto simp: word_le_nat_alt le_Suc_eq unat_eq_0 intro: word_unat_eq_iff [THEN iffD2])
    then show ?thesis using o by (auto simp: has_page_def)
  qed
  then show "known A (s\<lparr>last_features_classic_page_index := 1\<rparr>)" using s by (simp add: known_def backed_def)
next
  assume "known A s"
  then show "known A (s\<lparr>ble_supported := b \<and> in_mask HCI_LE_HOST_SUPPORTED (features_classic s ! 1)\<rparr>)"
    by (simp add: known_def backed_def)
qed

lemma returns_others:
  assumes E: "hdrs_ok E" and D: "ctl_hdrs_ok D" and A: "conforming A"
  shows "returns A (\<lambda>_. True) 2 (run_stages (write_host_support E D A))"
    "returns A (\<lambda>_. True) 2 (run_stages (read_offload_features E D A))"
proof -
  note gen = returns_generic [OF E A]
  have le: "known A s \<Longrightarrow> feature_bit D HCI_LE_SPT_SUPPORTED (features_classic s ! 0) \<Longrightarrow> offers_le A (sent s)" for s
    by (simp add: known_def backed_def ctl_hdrs_okD [OF D])
  have two: "returns A (offers_le A) (1 + (0 + 0)) (run_stages
      [\<lambda>s. ask_generic E A (Make_ble_write_host_support (BTM_BLE_HOST_SUPPORT D)
             (if feature_bit D HCI_SIMUL_LE_BREDR_SUPPORTED (features_classic s ! 0) then BTM_BLE_SIMULTANEOUS_HOST D else 0)) s,
       set_state (\<lambda>s. if last_features_classic_page_index s < 1 then s\<lparr>last_features_classic_page_index := 1\<rparr> else s)])"
    by (intro returns_Cons returns_Nil gen returns_set) (simp_all add: known_fields)
  have "returns A (\<lambda>_. True) (0 + ((1 + 0) + ((1 + (0 + 0)) + 0))) (run_stages (write_host_support E D A))"
    unfolding write_host_support_def
    by (intro returns_Cons returns_Nil returns_if [OF _ two] returns_if [where R = "\<lambda>_. True"] gen returns_set) (simp_all add: le)
  then show "returns A (\<lambda>_. True) 2 (run_stages (write_host_support E D A))" by (simp add: eval_nat_numeral)
  have off: "returns A (\<lambda>_. True) 1 (ask A Make_ble_read_offload_features_support (parse_ble_read_offload_features_response E)
      (\<lambda>b s. s\<lparr>ble_offload_features_supported := b\<rparr>))"
    by (rule returns_any [OF A]) (use parse_answers(2) [OF E core_parse_hdrs_ok] refuses_parses(2) [OF E] in \<open>auto\<close>)
  have "returns A (\<lambda>_. True) (1 + ((0 + ((1 + 0) + 0)) + 0)) (run_stages (read_offload_features E D A))"
    unfolding read_offload_features_def
    by (intro returns_Cons returns_Nil returns_if [where R = "\<lambda>_. True"] gen returns_set off) simp_all
  then show "returns A (\<lambda>_. True) 2 (run_stages (read_offload_features E D A))" by (simp add: eval_nat_numeral)
qed

lemma known_le_features:
  assumes s: "known A s" and h: "sent s = h @ [Make_ble_read_local_supported_features]" "A (sent s) = Some r"
    and r: "answers_with r (cmd_opcode Make_ble_read_local_supported_features) ret" "ret_ok Make_ble_read_local_supported_features ret"
  shows "known A (s\<lparr>features_ble := take 8 ret\<rparr>)"
proof -
  have "le_feature f A (sent s)" if "in_mask f (take 8 ret)" for f
    unfolding h(1) by (rule reported_now [where A = A and Q = "\<lambda>ret. in_mask f (take 8 ret)", OF h(2) [unfolded h(1)] r that])
  then show ?thesis using s r(2) by (simp add: known_def backed_def ctl_ok_write)
qed

lemma returns_ble:
  assumes E: "hdrs_ok E" and D: "ctl_hdrs_ok D" and A: "conforming A"
  shows "returns A (le_enabled A) 10 (run_stages (read_ble_features E D A))"
proof -
  note ans = answered [OF E ctl_hdrs_okD(1) [OF D]] and gen = returns_generic [OF E A]
  have feats: "returns A (le_enabled A) 1 (ask A Make_ble_read_local_supported_features
      (parse_ble_read_local_supported_features_response E (parse_macros D)) (\<lambda>bs s. s\<lparr>features_ble := bs\<rparr>))"
    by (rule returns_ask_gen [OF A _ ans(8)]) (auto intro: known_le_features)
  have guard: "known A s \<Longrightarrow> feature_bit D f (features_ble s) \<Longrightarrow> f \<in> {HCI_LE_ENHANCED_PRIVACY_SUPPORTED,
      HCI_LE_DATA_LEN_EXT_SUPPORTED, HCI_LE_EXTENDED_ADVERTISING_SUPPORTED} \<Longrightarrow> le_feature f A (sent s)" for s f
    by (simp only: known_def backed_def ctl_hdrs_okD [OF D])
  have priv: "returns A (le_feature HCI_LE_ENHANCED_PRIVACY_SUPPORTED A) (1 + 0) (run_stages
      [ask A Make_ble_read_resolving_list_size (parse_ble_read_resolving_list_size_response E) (\<lambda>n s. s\<lparr>ble_resolving_list_max_size := n\<rparr>)])"
    by (intro returns_Cons returns_Nil returns_ask [OF A _ ans(9)]) simp_all
  have dle: "returns A (le_feature HCI_LE_DATA_LEN_EXT_SUPPORTED A) (1 + (1 + 0)) (run_stages
      [ask A Make_ble_read_maximum_data_length (parse_ble_read_maximum_data_length_response E)
         (\<lambda>(tx_octets, tx_time, rx_octets, rx_time) s.
            s\<lparr>ble_supported_max_tx_octets := tx_octets, ble_supported_max_tx_time := tx_time,
              ble_supported_max_rx_octets := rx_octets, ble_supported_max_rx_time := rx_time\<rparr>),
       ask A Make_ble_read_suggested_default_data_length (parse_ble_read_suggested_default_data_length_response E)
         (\<lambda>n s. s\<lparr>ble_suggested_default_data_length := n\<rparr>)])"
    by (intro returns_Cons returns_Nil returns_ask [OF A _ ans(10)] returns_ask [OF A _ ans(11)]) (simp_all split: prod.split)
  have adv: "returns A (le_feature HCI_LE_EXTENDED_ADVERTISING_SUPPORTED A) (1 + (1 + 0)) (run_stages
      [ask A Make_ble_read_maximum_advertising_data_length (parse_ble_read_maximum_advertising_data_length E)
         (\<lambda>n s. s\<lparr>ble_maxium_advertising_data_length := n\<rparr>),
       ask A Make_ble_read_number_of_supported_advertising_sets (parse_ble_read_number_of_supported_advertising_sets E)
         (\<lambda>n s. s\<lparr>ble_number_of_supported_advertising_sets := n\<rparr>)])"
    by (intro returns_Cons returns_Nil returns_ask [OF A _ ans(12)] returns_ask [OF A _ ans(13)]) simp_all
  have "returns A (le_enabled A) (1 + (1 + (0 + (1 + (1 + ((1 + 0) + ((1 + (1 + 0)) + ((1 + (1 + 0)) + ((0 + 0) + (1 + 0))))))))))
      (run_stages (read_ble_features E D A))"
    unfolding read_ble_features_def
    by (intro returns_Cons returns_Nil feats returns_if [OF _ priv] returns_if [OF _ dle] returns_if [OF _ adv]
        returns_if [where R = "\<lambda>_. True"] gen returns_set returns_ask [OF A _ ans(5)] returns_ask [OF A _ ans(6)] returns_ask [OF A _ ans(7)])
      (simp_all add: known_write guard split: prod.split)
  then show ?thesis by (simp add: eval_nat_numeral)
qed

definition up_to_codecs :: "hci_hdrs \<Rightarrow> ctl_hdrs \<Rightarrow> answers \<Rightarrow> stage list" where
  "up_to_codecs E D A = read_identity E D A @ read_page_zero E D A # write_host_support E D A @
     read_feature_pages E D A 1 # read_offload_features E D A @
     [set_state (\<lambda>s. s\<lparr>ble_supported := 1 \<le> last_features_classic_page_index s \<and>
                         feature_bit D HCI_LE_HOST_SUPPORTED (features_classic s ! 1)\<rparr>),
      stages_if ble_supported (read_ble_features E D A),
      stages_if simple_pairing_supported [ask_generic E A (Make_set_event_mask (HCI_DUMO_EVENT_MASK_EXT D))]]"

lemma returns_up_to_codecs:
  assumes E: "hdrs_ok E" and D: "ctl_hdrs_ok D" and A: "conforming A"
  shows "returns A (\<lambda>_. True) 24 (run_stages (up_to_codecs E D A))"
proof -
  note gen = returns_generic [OF E A]
  have le: "known A s \<Longrightarrow> ble_supported s \<Longrightarrow> le_enabled A (sent s)" for s by (simp add: known_def backed_def)
  have "returns A (\<lambda>_. True) (6 + (1 + (2 + (2 + (2 + (0 + (10 + ((1 + 0) + 0)))))))) (run_stages (up_to_codecs E D A))"
    unfolding up_to_codecs_def
    by (intro returns_append returns_Cons returns_Nil returns_if [OF _ returns_ble [OF E D A]] returns_if [where R = "\<lambda>_. True"] gen returns_set
        returns_identity [OF E D A] returns_pages [OF E D A] returns_others [OF E D A])
      (simp_all add: le known_fields ctl_hdrs_okD [OF D] del: One_nat_def)
  then show ?thesis by simp
qed

lemma returns_start_up:
  assumes E: "hdrs_ok E" and D: "ctl_hdrs_ok D" and A: "conforming A" and s: "known A s"
  shows "(\<exists>t cs. start_up E D A s = Some (Inr t) \<and> known A t \<and> sent t = sent s @ cs \<and> length cs \<le> 25) \<or>
    start_up E D A s = Some (Inl Bad_access) \<and> (\<exists>cs. length cs \<le> 24 \<and> too_many_codecs A (sent s @ cs))"
proof -
  let ?guard = "\<lambda>s. feature_bit D HCI_READ_LOCAL_CODECS_SUPPORTED (supported_commands s)"
  have cons: "run_stages (f # fs) = (\<lambda>u. bind_res (f u) (run_stages fs))" for f :: stage and fs by (rule ext) simp
  have "start_up E D A = run_stages (up_to_codecs E D A @ stages_if ?guard [read_codecs E A] # last_stages D)"
    unfolding start_up_def up_to_codecs_def last_stages_def by (simp only: append_Cons append_Nil append_assoc)
  then have split: "start_up E D A s = bind_res (run_stages (up_to_codecs E D A) s)
      (\<lambda>u. bind_res (stages_if ?guard [read_codecs E A] u) (run_stages (last_stages D)))"
    by (simp only: run_stages_append cons [of "stages_if ?guard [read_codecs E A]"])
  obtain u cs where u: "run_stages (up_to_codecs E D A) s = Some (Inr u)" "known A u" "sent u = sent s @ cs" "length cs \<le> 24"
    using returns_up_to_codecs [OF E D A] s unfolding returns_def by blast
  have last: "\<exists>t. run_stages (last_stages D) v = Some (Inr t) \<and> known A t \<and> sent t = sent v" if "known A v" for v
    using that by (simp add: last_stages_def set_state_def bind_res_def)
  show ?thesis
  proof (cases "?guard u")
    case False
    obtain t where "run_stages (last_stages D) u = Some (Inr t)" "known A t" "sent t = sent u" using last [OF u(2)] by blast
    then show ?thesis using split u False by (auto simp: stages_if_def bind_res_def)
  next
    case True
    from returns_codecs [OF E A u(2)] show ?thesis
    proof (elim disjE exE conjE)
      fix v assume v: "read_codecs E A u = Some (Inr v)" "known A v" "sent v = sent u @ [Make_read_local_supported_codecs]"
      obtain t where "run_stages (last_stages D) v = Some (Inr t)" "known A t" "sent t = sent v" using last [OF v(2)] by blast
      then show ?thesis using split u True v by (intro disjI1) (simp add: stages_if_def bind_res_def)
    next
      assume "read_codecs E A u = Some (Inl Bad_access)" "too_many_codecs A (sent u)"
      then show ?thesis using split u True by (auto simp: stages_if_def bind_res_def)
    qed
  qed
qed

text \<open>
  Without the page that was asked for there is no such bound: a controller that answers page 0
  whatever it is asked, and names a last page above 0, keeps the loop asking for page 1.
\<close>

lemma stuck_by_answers:
  assumes E: "hdrs_ok E" and D: "ctl_hdrs_ok D"
    and A: "\<And>h page. A (h @ [Make_read_local_extended_features page]) = Some r"
    and r: "answers_with r 0x1004 ret" "10 \<le> length ret" "ret ! 0 = 0" "1 \<le> ret ! 1"
    and s: "features_classic s \<noteq> []"
  shows "\<exists>t. read_features_page E D A page s = Some (Inr (0, t)) \<and> last_features_classic_page_index t = ret ! 1 \<and>
    features_classic t \<noteq> []"
proof -
  have "unat (ret ! 0) < 3" "unat (ret ! 0) < length (features_classic s)" using r s by simp_all
  then have "parse_read_local_extended_features_response E (parse_macros D) (features_classic s) 3 r =
      Inr ((0, ret ! 1, (features_classic s)[0 := take 8 (drop 2 ret)]), [r])"
    using parse_answers(7) [OF E ctl_hdrs_okD(1) [OF D] r(1,2)] r(3) by simp
  then show ?thesis using A s by (simp add: read_features_page_def ask_def AWAIT_COMMAND_def parser_simps)
qed

lemma repeated_page_never_returns:
  assumes E: "hdrs_ok E" and D: "ctl_hdrs_ok D"
    and A: "\<And>h page. A (h @ [Make_read_local_extended_features page]) = Some r"
    and r: "answers_with r 0x1004 ret" "10 \<le> length ret" "ret ! 0 = 0" "1 \<le> ret ! 1"
    and s: "features_classic s \<noteq> []" "1 \<le> last_features_classic_page_index s"
  shows "read_feature_pages E D A 1 s = None"
proof (rule ccontr)
  assume "read_feature_pages E D A 1 s \<noteq> None"
  then obtain x where "read_feature_pages E D A 1 s = Some x" by blast
  then have "E = E \<and> D = D \<and> A = A \<and> features_classic s \<noteq> [] \<and> 1 \<le> last_features_classic_page_index s \<longrightarrow> (1 :: u8) \<noteq> 1"
  proof (rule read_feature_pages.raw_induct [where P = "\<lambda>F G B page s x. F = E \<and> G = D \<and> B = A \<and>
      features_classic s \<noteq> [] \<and> 1 \<le> last_features_classic_page_index s \<longrightarrow> page \<noteq> 1", rotated])
    fix rec :: "hci_hdrs \<Rightarrow> ctl_hdrs \<Rightarrow> answers \<Rightarrow> u8 \<Rightarrow> ctl \<Rightarrow> ctl checked option" and F G B page s x
    assume IH: "\<And>F G B page s x. rec F G B page s = Some x \<Longrightarrow> F = E \<and> G = D \<and> B = A \<and>
        features_classic s \<noteq> [] \<and> 1 \<le> last_features_classic_page_index s \<longrightarrow> page \<noteq> 1"
      and x: "(if page \<le> last_features_classic_page_index s \<and> unat page < MAX_FEATURES_CLASSIC_PAGE_COUNT
        then Option.bind (read_features_page F G B page s) (\<lambda>x. case x of
             Inl e \<Rightarrow> Some (Inl e) | Inr (page, t) \<Rightarrow> rec F G B (page + 1) t)
        else Some (Inr s)) = Some x"
    show "F = E \<and> G = D \<and> B = A \<and> features_classic s \<noteq> [] \<and> 1 \<le> last_features_classic_page_index s \<longrightarrow> page \<noteq> 1"
    proof (intro impI notI; elim conjE)
      assume eq: "F = E" "G = D" "B = A" "page = 1" and f: "features_classic s \<noteq> []" "1 \<le> last_features_classic_page_index s"
      obtain t where t: "read_features_page E D A 1 s = Some (Inr (0, t))"
        "last_features_classic_page_index t = ret ! 1" "features_classic t \<noteq> []"
        using stuck_by_answers [where A = A and r = r, OF E D A r f(1)] by blast
      have "rec E D A 1 t = Some x" using x eq f t(1) by simp
      then show False using IH [of E D A 1 t x] t r(4) by simp
    qed
  qed
  then show False using s by simp
qed

section \<open>The properties\<close>

text \<open>A controller that reports every feature, two codecs and the commands the A1000's chip reports in byte 20, and that
  refuses the vendor command with a command status event, as that chip does.\<close>

definition core_ctl_hdrs :: ctl_hdrs where
  "core_ctl_hdrs = \<lparr>parse_macros = core_parse_hdrs, feature_bit = in_mask, L2CAP_MTU_SIZE = 1691,
     L2CAP_HOST_FC_ACL_BUFS = 20, HCI_SP_MODE_ENABLED = 1, BTM_BLE_HOST_SUPPORT = 1, BTM_BLE_SIMULTANEOUS_HOST = 1,
     HCI_SC_MODE_ENABLED = 1, HCI_DATA_PREAMBLE_SIZE = 4, PHY_LE_1M = 1, HCI_DUMO_EVENT_MASK_EXT = replicate 8 0xff,
     BTM_SCO_ENHANCED_SYNC_ENABLED = True, SC_MODE_INCLUDED = True, BLE_PRIVACY_SPT = True, asserts_enabled = False\<rparr>"

primrec demo_return :: "ctl_cmd \<Rightarrow> bytes" where
  "demo_return Make_reset = []"
| "demo_return Make_read_buffer_size = replicate 7 1"
| "demo_return (Make_host_buffer_size a b c d) = []"
| "demo_return Make_read_local_version_info = replicate 8 4"
| "demo_return Make_read_bd_addr = [1, 2, 3, 4, 5, 6]"
| "demo_return Make_read_local_supported_commands = (replicate 64 0)[20 := 0x0C]"
| "demo_return (Make_read_local_extended_features page) = page # 2 # replicate 8 0xFF"
| "demo_return (Make_write_simple_pairing_mode m) = []"
| "demo_return (Make_ble_write_host_support a b) = []"
| "demo_return Make_ble_read_offload_features_support = []"
| "demo_return (Make_write_secure_connections_host_support m) = []"
| "demo_return Make_ble_read_white_list_size = [8]"
| "demo_return Make_ble_read_buffer_size = [27, 0, 4]"
| "demo_return Make_ble_read_supported_states = replicate 8 0xFF"
| "demo_return Make_ble_read_local_supported_features = replicate 8 0xFF"
| "demo_return Make_ble_read_resolving_list_size = [8]"
| "demo_return Make_ble_read_maximum_data_length = replicate 8 1"
| "demo_return Make_ble_read_suggested_default_data_length = replicate 4 1"
| "demo_return Make_ble_read_maximum_advertising_data_length = [31, 0]"
| "demo_return Make_ble_read_number_of_supported_advertising_sets = [4]"
| "demo_return (Make_ble_set_event_mask m) = []"
| "demo_return (Make_set_event_mask m) = []"
| "demo_return Make_read_local_supported_codecs = [2, 0, 1]"

definition packet_of :: "bytes \<Rightarrow> bt_hdr" where
  "packet_of bs = \<lparr>bt_event = None, bt_len = of_nat (length bs), bt_offset = 0, bt_data = map Some bs\<rparr>"

definition demo_controller :: answers where
  "demo_controller cs = Some (packet_of (case last cs of
     Make_ble_read_offload_features_support \<Rightarrow> [0x0F, 4, 0x01, 1, 0x53, 0xFD]
   | c \<Rightarrow> command_complete 1 (cmd_opcode c) (demo_return c)))"

lemma packet_answers:
  assumes "length ret \<le> 251"
  shows "answers_with (packet_of (command_complete n op ret)) op ret"
proof -
  have "rd8 (packet_of bs) (unat (bt_offset (packet_of bs)) + k) = Some (bs ! k)" if "k < length bs" for bs k
    using that by (simp add: packet_of_def rd8_def)
  moreover have "length (command_complete n op ret) = 6 + length ret" by (simp add: command_complete_def)
  ultimately show ?thesis using assms unfolding answers_with_def by auto
qed

lemma demo_answers:
  "c \<noteq> Make_ble_read_offload_features_support \<Longrightarrow>
   demo_controller (h @ [c]) = Some (packet_of (command_complete 1 (cmd_opcode c) (demo_return c)))"
  by (cases c) (simp_all add: demo_controller_def)

lemma less_6: "(\<forall>k < 6. P k) \<longleftrightarrow> P 0 \<and> P 1 \<and> P 2 \<and> P 3 \<and> P 4 \<and> P (5 :: nat)"
  by (simp add: eval_nat_numeral less_Suc_eq) blast

lemma demo_refusal: "refuses (packet_of [0x0F, 4, 0x01, 1, 0x53, 0xFD]) 0xFD53"
  unfolding refuses_def
  by (intro exI [of _ 4] exI [of _ 1] disjI1) (simp add: less_6 packet_of_def rd8_def)

lemma demo_conforming: "conforming demo_controller"
  unfolding conforming_def
proof (intro allI)
  fix h c
  let ?ok = "\<lambda>r. \<not> required demo_controller h c \<and> refuses r (cmd_opcode c) \<or> (\<exists>ret. answers_with r (cmd_opcode c) ret \<and> ret_ok c ret)"
  show "\<exists>r. demo_controller (h @ [c]) = Some r \<and> ?ok r"
  proof (cases "c = Make_ble_read_offload_features_support")
    case True
    then show ?thesis using demo_refusal by (simp add: demo_controller_def)
  next
    case False
    have "length (demo_return c) \<le> 251 \<and> ret_ok c (demo_return c)" by (cases c) simp_all
    then have "answers_with (packet_of (command_complete 1 (cmd_opcode c) (demo_return c))) (cmd_opcode c) (demo_return c)"
      "ret_ok c (demo_return c)" using packet_answers by blast+
    then show ?thesis using demo_answers [OF False] by blast
  qed
qed

lemma demo_codecs: "\<not> too_many_codecs demo_controller h"
proof
  assume "too_many_codecs demo_controller h"
  then obtain ret where r: "answers_with (packet_of (command_complete 1 0x100B [2, 0, 1])) 0x100B ret" "ret \<noteq> []" "8 < unat (ret ! 0)"
    using demo_answers [of Make_read_local_supported_codecs h] by (auto simp: too_many_codecs_def)
  have "rd8 (packet_of (command_complete 1 0x100B [2, 0, 1])) 6 = Some 2" by (simp add: packet_of_def rd8_def command_complete_def)
  moreover have "rd8 (packet_of (command_complete 1 0x100B [2, 0, 1])) 6 = Some (ret ! 0)"
    using answers_rd8 [OF r(1), of 0] r(2) by (simp add: packet_of_def)
  ultimately show False using r(3) by simp
qed

lemma core_ctl_hdrs_ok [simp]: "ctl_hdrs_ok core_ctl_hdrs"
  by (simp add: ctl_hdrs_ok_def core_ctl_hdrs_def)

lemma start_up_readable: "start_up E D A s = Some (Inr t) \<Longrightarrow> ctl_readable t"
proof -
  assume run: "start_up E D A s = Some (Inr t)"
  obtain pre where "start_up E D A = run_stages (pre @ ask_commands E D A # after_commands E D A @ last_stages D)"
    using start_up_split by blast
  then obtain u where "run_stages (last_stages D) u = Some (Inr t)" using run by (auto simp: run_stages_append bind_res_Inr)
  then show ?thesis using last_stages_run by blast
qed



text \<open>C39: Whatever the controller answers, a start-up that returns leaves the state well-typed: the address has six bytes,
  the array of supported commands 64, the three pages of features and the LE features and states eight each, and no
  more codecs are counted than the array of eight holds. The module is ready, and the responses it freed are exactly
  those of the commands it sent, in order, each once.\<close>

theorem start_up_well_typed:
  assumes "hdrs_ok E" "ctl_hdrs_ok D" "ctl_ok s" "freed s = responses A (sent s)" "start_up E D A s = Some (Inr t)"
  shows "ctl_ok t \<and> ctl_readable t \<and> freed t = responses A (sent t)"
  using tidy_start_up [OF assms(1,2), of A] assms(3-5) start_up_readable [OF assms(5)] unfolding keeps_def tidy_def by blast

theorem start_up_well_typed_witness:
  "\<exists>t. start_up core_hdrs core_ctl_hdrs demo_controller ctl_init = Some (Inr t) \<and> ctl_ok t \<and> ctl_readable t \<and>
     freed t = responses demo_controller (sent t)"
proof -
  have i: "ctl_ok ctl_init" "freed ctl_init = responses demo_controller (sent ctl_init)"
    using tidy_init [of demo_controller] by (simp_all add: tidy_def)
  then obtain t where "start_up core_hdrs core_ctl_hdrs demo_controller ctl_init = Some (Inr t)"
    using returns_start_up [OF core_hdrs_ok core_ctl_hdrs_ok demo_conforming known_init] demo_codecs by blast
  then show ?thesis using start_up_well_typed [OF core_hdrs_ok core_ctl_hdrs_ok i] by blast
qed

end
