(* ===== verification/H4.thy ===== *)
theory H4
  imports Machine
begin

text \<open>
  The H4 transport of the Bluetooth HAL (\<open>h4_protocol.cc\<close>): a packet goes out as one write of its type
  byte and its body; what comes in is a type byte, then a packet that the packetizer collects.

  The packet types and the packetizer are declared in headers outside the repository. The packetizer
  is a record of functions on its state: one call reads what is there and says whether the packet is
  complete, which is when it calls \<open>OnPacketReady\<close>. A fatal log ends the process and is \<open>None\<close>.
\<close>

record h4_hdrs =
  HCI_PACKET_TYPE_UNKNOWN :: u8
  HCI_PACKET_TYPE_ACL_DATA :: u8
  HCI_PACKET_TYPE_SCO_DATA :: u8
  HCI_PACKET_TYPE_EVENT :: u8

definition h4_hdrs_ok :: "h4_hdrs \<Rightarrow> bool" where
  "h4_hdrs_ok H \<longleftrightarrow> HCI_PACKET_TYPE_UNKNOWN H = 0 \<and> HCI_PACKET_TYPE_ACL_DATA H = 2 \<and>
     HCI_PACKET_TYPE_SCO_DATA H = 3 \<and> HCI_PACKET_TYPE_EVENT H = 4"

record 'p packetizer =
  packetizer_on_data_ready :: "u8 \<Rightarrow> 'p \<Rightarrow> 'p \<times> bool"
  GetPacket :: "'p \<Rightarrow> bytes"

datatype h4_channel = Event_cb | Acl_cb | Sco_cb

record 'p h4 =
  h4_packet_type :: u8
  h4_packetizer :: 'p
  h4_delivered :: "(h4_channel \<times> bytes) list"

section \<open>Sending\<close>

abbreviation EINTR :: int where "EINTR \<equiv> 4"
abbreviation EAGAIN :: int where "EAGAIN \<equiv> 11"

text \<open>
  \<open>TEMP_FAILURE_RETRY(write(...))\<close> inside the loop on \<open>EAGAIN\<close>. The \<open>n\<close>-th write to the channel returns
  \<open>w n\<close>; the packets of all attempts are kept.
\<close>

partial_function (option) write_retrying ::
    "(nat \<Rightarrow> nat result) \<Rightarrow> bytes \<Rightarrow> bytes list \<Rightarrow> (nat result \<times> bytes list) option" where
  "write_retrying w packet attempts =
     (case w (length attempts) of
        Inl errno \<Rightarrow> if errno = EINTR \<or> errno = EAGAIN then write_retrying w packet (attempts @ [packet])
                     else Some (Inl errno, attempts @ [packet])
      | Inr n \<Rightarrow> Some (Inr n, attempts @ [packet]))"

declare write_retrying.simps [code]

text \<open>\<open>Send\<close> returns the \<open>ssize_t\<close> of the write as a \<open>size_t\<close>.\<close>

definition H4_Send :: "(nat \<Rightarrow> nat result) \<Rightarrow> u8 \<Rightarrow> bytes \<Rightarrow> (u32 \<times> bytes list) option" where
  "H4_Send w type data =
     map_option (\<lambda>(ret, attempts). (case ret of Inl _ \<Rightarrow> -1 | Inr n \<Rightarrow> of_nat n, attempts))
       (write_retrying w (type # data) [])"

section \<open>Receiving\<close>

definition OnPacketReady :: "h4_hdrs \<Rightarrow> 'p packetizer \<Rightarrow> 'p h4 \<Rightarrow> 'p h4 option" where
  "OnPacketReady H P s =
     (let packet = GetPacket P (h4_packetizer s);
          deliver = (\<lambda>cb. Some (s\<lparr>h4_delivered := h4_delivered s @ [(cb, packet)], h4_packet_type := HCI_PACKET_TYPE_UNKNOWN H\<rparr>))
      in if h4_packet_type s = HCI_PACKET_TYPE_EVENT H then deliver Event_cb
         else if h4_packet_type s = HCI_PACKET_TYPE_ACL_DATA H then deliver Acl_cb
         else if h4_packet_type s = HCI_PACKET_TYPE_SCO_DATA H then deliver Sco_cb
         else None)"

text \<open>
  The call when the descriptor is readable; its first argument is the result of the read of a type
  byte (the count and the byte), which is made only when no packet is being collected.
\<close>

definition H4_OnDataReady :: "h4_hdrs \<Rightarrow> 'p packetizer \<Rightarrow> int \<times> u8 \<Rightarrow> 'p h4 \<Rightarrow> 'p h4 option" where
  "H4_OnDataReady H P r s =
     (if h4_packet_type s = HCI_PACKET_TYPE_UNKNOWN H
      then (case r of (bytes_read, byte) \<Rightarrow>
        if bytes_read \<noteq> 1 then (if bytes_read = 0 then Some s else None)
        else if byte \<noteq> HCI_PACKET_TYPE_ACL_DATA H \<and> byte \<noteq> HCI_PACKET_TYPE_SCO_DATA H \<and> byte \<noteq> HCI_PACKET_TYPE_EVENT H
        then Some (s\<lparr>h4_packet_type := HCI_PACKET_TYPE_UNKNOWN H\<rparr>)
        else Some (s\<lparr>h4_packet_type := byte\<rparr>))
      else (case packetizer_on_data_ready P (h4_packet_type s) (h4_packetizer s) of (p, ready) \<Rightarrow>
        let t = s\<lparr>h4_packetizer := p\<rparr> in if ready then OnPacketReady H P t else Some t))"

section \<open>No packet type reaches the fatal branch\<close>

definition h4_inv :: "h4_hdrs \<Rightarrow> 'p h4 \<Rightarrow> bool" where
  "h4_inv H s \<longleftrightarrow> h4_packet_type s \<in> {HCI_PACKET_TYPE_UNKNOWN H, HCI_PACKET_TYPE_ACL_DATA H,
     HCI_PACKET_TYPE_SCO_DATA H, HCI_PACKET_TYPE_EVENT H}"

text \<open>A read of one byte that does not fail returns one byte or the end of the file.\<close>

definition read_succeeds :: "int \<times> u8 \<Rightarrow> 'p h4 \<Rightarrow> bool" where
  "read_succeeds r s \<longleftrightarrow> fst r = 0 \<or> fst r = 1"

lemma packet_ready_ok:
  assumes "h4_inv H s" "h4_packet_type s \<noteq> HCI_PACKET_TYPE_UNKNOWN H"
  shows "ensures (h4_inv H) (OnPacketReady H P s)"
  using assms by (auto simp: h4_inv_def OnPacketReady_def ensures_simps)

lemma data_ready_ok:
  assumes s: "h4_inv H s" and r: "read_succeeds r s"
  shows "ensures (h4_inv H) (H4_OnDataReady H P r s)"
proof (cases "h4_packet_type s = HCI_PACKET_TYPE_UNKNOWN H")
  case True
  then show ?thesis using r by (cases r) (auto simp: H4_OnDataReady_def h4_inv_def read_succeeds_def ensures_simps)
next
  case False
  obtain p ready where p: "packetizer_on_data_ready P (h4_packet_type s) (h4_packetizer s) = (p, ready)" by fastforce
  have t: "h4_inv H (s\<lparr>h4_packetizer := p\<rparr>)" using s by (simp add: h4_inv_def)
  then have "ensures (h4_inv H) (OnPacketReady H P (s\<lparr>h4_packetizer := p\<rparr>))" by (rule packet_ready_ok) (use False in simp)
  then show ?thesis using t False p by (simp add: H4_OnDataReady_def ensures_simps)
qed

interpretation h4: safe_machine "H4_OnDataReady H P" read_succeeds "h4_inv H" for H P
  by unfold_locales (rule data_ready_ok)

text \<open>No run of calls whose reads succeed ends in a fatal log.\<close>

lemma h4_never_fatal:
  "h4_inv H s \<Longrightarrow> allowed_run (H4_OnDataReady H P) read_succeeds rs s \<Longrightarrow>
   ensures (h4_inv H) (run_calls (H4_OnDataReady H P) rs s)"
  by (rule h4.run_safe)

section \<open>Collecting a packet\<close>

text \<open>The packetizer reports the packet of type \<open>t\<close> as complete at its \<open>k\<close>-th call, in state \<open>q\<close>.\<close>

fun collects :: "'p packetizer \<Rightarrow> u8 \<Rightarrow> 'p \<Rightarrow> nat \<Rightarrow> 'p \<Rightarrow> bool" where
  "collects P t p 0 q = False"
| "collects P t p (Suc k) q = (case packetizer_on_data_ready P t p of (p', ready) \<Rightarrow>
     if ready then k = 0 \<and> q = p' else collects P t p' k q)"

definition channel_of :: "h4_hdrs \<Rightarrow> u8 \<Rightarrow> h4_channel" where
  "channel_of H t = (if t = HCI_PACKET_TYPE_EVENT H then Event_cb
     else if t = HCI_PACKET_TYPE_ACL_DATA H then Acl_cb else Sco_cb)"

definition type_bytes :: "h4_hdrs \<Rightarrow> u8 set" where
  "type_bytes H = {HCI_PACKET_TYPE_ACL_DATA H, HCI_PACKET_TYPE_SCO_DATA H, HCI_PACKET_TYPE_EVENT H}"

lemma run_calls_append: "run_calls ex (cs @ ds) S = Option.bind (run_calls ex cs S) (run_calls ex ds)"
proof (induction cs arbitrary: S)
  case (Cons c cs)
  then show ?case by (cases "ex c S") simp_all
qed simp

lemma h4_skip:
  assumes "h4_packet_type s = HCI_PACKET_TYPE_UNKNOWN H" "n = 0 \<or> n = 1 \<and> b \<notin> type_bytes H"
  shows "H4_OnDataReady H P (n, b) s = Some s"
  using assms by (cases s) (auto simp: H4_OnDataReady_def type_bytes_def)

lemma h4_collect:
  assumes "h4_packet_type s \<noteq> HCI_PACKET_TYPE_UNKNOWN H"
    "packetizer_on_data_ready P (h4_packet_type s) (h4_packetizer s) = (p, ready)"
  shows "H4_OnDataReady H P r s = (if ready then OnPacketReady H P (s\<lparr>h4_packetizer := p\<rparr>) else Some (s\<lparr>h4_packetizer := p\<rparr>))"
  using assms by (simp add: H4_OnDataReady_def)

lemma h4_skips:
  assumes "h4_packet_type s = HCI_PACKET_TYPE_UNKNOWN H" "\<forall>(n, b) \<in> set es. n = 0 \<or> n = 1 \<and> b \<notin> type_bytes H"
  shows "run_calls (H4_OnDataReady H P) es s = Some s"
  using assms by (induction es) (auto simp: h4_skip)

lemma h4_collects:
  assumes H: "h4_hdrs_ok H" and t: "t \<in> type_bytes H"
  shows "h4_packet_type s = t \<Longrightarrow> collects P t (h4_packetizer s) (length es) q \<Longrightarrow>
    run_calls (H4_OnDataReady H P) es s =
      Some (s\<lparr>h4_packet_type := HCI_PACKET_TYPE_UNKNOWN H, h4_packetizer := q,
              h4_delivered := h4_delivered s @ [(channel_of H t, GetPacket P q)]\<rparr>)"
proof (induction es arbitrary: s)
  case (Cons e es)
  have u: "h4_packet_type s \<noteq> HCI_PACKET_TYPE_UNKNOWN H" using Cons.prems(1) t H by (auto simp: h4_hdrs_ok_def type_bytes_def)
  obtain p ready where p: "packetizer_on_data_ready P t (h4_packetizer s) = (p, ready)" by fastforce
  show ?case
  proof (cases ready)
    case True
    then have "es = []" "q = p" using Cons.prems(2) p by simp_all
    then show ?thesis using True h4_collect [OF u] p Cons.prems(1) t
      by (auto simp: OnPacketReady_def channel_of_def type_bytes_def)
  next
    case False
    then have "collects P t p (length es) q" using Cons.prems(2) p by simp
    then have "run_calls (H4_OnDataReady H P) es (s\<lparr>h4_packetizer := p\<rparr>) =
        Some (s\<lparr>h4_packet_type := HCI_PACKET_TYPE_UNKNOWN H, h4_packetizer := q,
                h4_delivered := h4_delivered s @ [(channel_of H t, GetPacket P q)]\<rparr>)"
      using Cons.IH [of "s\<lparr>h4_packetizer := p\<rparr>"] Cons.prems(1) by simp
    then show ?thesis using False h4_collect [OF u] p Cons.prems(1) by simp
  qed
qed simp

text \<open>Sending: every attempt carries the whole packet, and the attempts before the last wrote nothing.\<close>

lemma write_retrying_result:
  assumes "\<forall>k < n. w (length attempts + k) \<in> {Inl EINTR, Inl EAGAIN}" "w (length attempts + n) = Inr m"
  shows "write_retrying w packet attempts = Some (Inr m, attempts @ replicate (Suc n) packet)"
  using assms
proof (induction n arbitrary: attempts)
  case 0
  then show ?case by (subst write_retrying.simps) simp
next
  case (Suc n)
  have IH: "write_retrying w packet (attempts @ [packet]) = Some (Inr m, (attempts @ [packet]) @ replicate (Suc n) packet)"
    by (rule Suc.IH) (use Suc.prems in \<open>auto simp: less_Suc_eq_0_disj\<close>)
  have "w (length attempts) \<in> {Inl EINTR, Inl EAGAIN}" using Suc.prems(1) by (metis add_0_right zero_less_Suc)
  then show ?case using IH by (subst write_retrying.simps) auto
qed

lemma send_one_message:
  assumes "\<forall>k < n. w k \<in> {Inl EINTR, Inl EAGAIN}" "w n = Inr m"
  shows "H4_Send w type data = Some (of_nat m, replicate (Suc n) (type # data))"
  using write_retrying_result [of n w "[]" m] assms by (simp add: H4_Send_def)

section \<open>The property\<close>

text \<open>C40: Between two packets the receiver skips every byte that is not a packet type (and every end of file) without
  a trace, so that leftovers in the channel neither stop the process nor shift the framing: the next type byte starts
  a packet, and once the packetizer has collected it, it is delivered exactly once, to the callback of its type, and
  the receiver waits for a type byte again.\<close>

theorem h4_resynchronises:
  assumes "h4_hdrs_ok H" "h4_packet_type s = HCI_PACKET_TYPE_UNKNOWN H"
    and "\<forall>(n, b) \<in> set junk. n = 0 \<or> n = 1 \<and> b \<notin> type_bytes H"
    and "t \<in> type_bytes H" "collects P t (h4_packetizer s) (length es) q"
  shows "run_calls (H4_OnDataReady H P) (junk @ [(1, t)] @ es) s =
    Some (s\<lparr>h4_packetizer := q, h4_delivered := h4_delivered s @ [(channel_of H t, GetPacket P q)]\<rparr>)"
proof -
  have "H4_OnDataReady H P (1, t) s = Some (s\<lparr>h4_packet_type := t\<rparr>)"
    using assms(2,4) by (auto simp: H4_OnDataReady_def type_bytes_def)
  moreover have "run_calls (H4_OnDataReady H P) es (s\<lparr>h4_packet_type := t\<rparr>) =
      Some (s\<lparr>h4_packet_type := HCI_PACKET_TYPE_UNKNOWN H, h4_packetizer := q,
              h4_delivered := h4_delivered s @ [(channel_of H t, GetPacket P q)]\<rparr>)"
    using h4_collects [OF assms(1,4), of "s\<lparr>h4_packet_type := t\<rparr>" P es q] assms(5) by simp
  ultimately show ?thesis
    using h4_skips [OF assms(2,3), of P] assms(2) by (simp add: run_calls_append)
qed

definition core_h4_hdrs :: h4_hdrs where
  "core_h4_hdrs = \<lparr>HCI_PACKET_TYPE_UNKNOWN = 0, HCI_PACKET_TYPE_ACL_DATA = 2, HCI_PACKET_TYPE_SCO_DATA = 3,
     HCI_PACKET_TYPE_EVENT = 4\<rparr>"

text \<open>A packetizer that collects three bytes per packet.\<close>

definition demo_packetizer :: "nat packetizer" where
  "demo_packetizer = \<lparr>packetizer_on_data_ready = (\<lambda>_ n. (n + 1, n = 2)), GetPacket = (\<lambda>n. replicate n 0x0E)\<rparr>"

definition demo_h4 :: "nat h4" where
  "demo_h4 = \<lparr>h4_packet_type = 0, h4_packetizer = 0, h4_delivered = []\<rparr>"

theorem h4_resynchronises_witness:
  "run_calls (H4_OnDataReady core_h4_hdrs demo_packetizer)
     ([(1, 0x37), (0, 0), (1, 0xFF)] @ [(1, 4)] @ replicate 3 (1, 0)) demo_h4 =
   Some (demo_h4\<lparr>h4_packetizer := 3, h4_delivered := [(Event_cb, [0x0E, 0x0E, 0x0E])]\<rparr>)"
proof -
  have "h4_hdrs_ok core_h4_hdrs" "h4_packet_type demo_h4 = HCI_PACKET_TYPE_UNKNOWN core_h4_hdrs"
    "\<forall>(n, b) \<in> set [(1, 0x37), (0, 0), (1, 0xFF)]. n = (0 :: int) \<or> n = 1 \<and> b \<notin> type_bytes core_h4_hdrs"
    "4 \<in> type_bytes core_h4_hdrs"
    by (simp_all add: h4_hdrs_ok_def core_h4_hdrs_def demo_h4_def type_bytes_def)
  moreover have "collects demo_packetizer 4 (h4_packetizer demo_h4) (length (replicate 3 ((1, 0) :: int \<times> u8))) 3"
    by (simp add: demo_packetizer_def demo_h4_def numeral_3_eq_3)
  ultimately show ?thesis
    using h4_resynchronises [of core_h4_hdrs demo_h4 "[(1, 0x37), (0, 0), (1, 0xFF)]" 4 demo_packetizer "replicate 3 (1, 0)" 3]
    by (simp add: core_h4_hdrs_def demo_packetizer_def demo_h4_def channel_of_def numeral_3_eq_3)
qed

end
