(* ===== verification/Spec2Isabelle.thy ===== *)
theory Spec2Isabelle
  imports Fuse_Props Hci_Props Ble_Props Btu_Event_Props Controller_Props H4
begin

text \<open>
  A verification library for the LineageOS 17.1 port to the Lenovo A1000 (sc8830 board, 32-bit ARM).
  The repository holds the files that the port adds to or changes in Android, not the whole system,
  so a component is modelled where the repository has enough of it to be read as a program. Two
  subsystems are: the \<open>sdcard\<close> daemon, which serves the emulated storage over FUSE, and the host
  side of the Bluetooth stack between the transport and the upper layers.

  \<^bold>\<open>The sdcard daemon\<close> (\<open>src/system/core/sdcard\<close>: \<open>fuse.h\<close>, \<open>fuse.cpp\<close>, \<open>sdcard.cpp\<close>). One tree of
  nodes stands behind four mounted views. The kernel sends requests on the descriptor of a view and
  owns references on nodes; a request finds its node by number, checks the caller, works on the
  file system underneath and writes one reply. A second loop watches the package list with inotify.

  \<^item> \<open>Prelude\<close>, \<open>Codec\<close>: machine integers, C strings, error numbers, byte fields.
  \<^item> \<open>Fuse_Types\<close>: \<open>struct node\<close>, \<open>struct fuse_global\<close>, \<open>struct fuse\<close> and the kernel messages as records
    and datatypes. The C heap of nodes is a map from addresses to node records; the intrusive lists
    (\<open>child\<close>, \<open>next\<close>, \<open>parent\<close>) are kept as pointers.
  \<^item> \<open>Fuse_Node\<close>: the \<open>*_locked\<close> node functions. \<open>None\<close> is a null or dangling dereference. Loops over
    a sibling list and the recursions that release nodes and derive permissions are
    \<open>partial_function (option)\<close>, so a malformed list shows as \<open>None\<close>; there is no fuel to choose.
  \<^item> \<open>Fuse_Handlers\<close>: one definition per \<open>handle_*\<close> function, the dispatcher and the request loop.
    System calls are the parameter \<open>'fs sys\<close>: a call gets the state of the file system underneath and
    returns any result, so other processes may change files between calls.
  \<^item> \<open>Sdcard\<close>: start-up of the four views, the package list, its inotify loop, \<open>sdcardfs\<close> mounts
    and \<open>main\<close>. The package parser, \<open>mount\<close>, \<open>getopt\<close> and the property service are parameters.
  \<^item> \<open>Fuse_Tree\<close>, \<open>Fuse_Ops\<close>, \<open>Fuse_Path\<close>, \<open>Fuse_Perm\<close>, \<open>Fuse_Move\<close>, \<open>Fuse_Global\<close>: the invariant in
    layers. \<open>Fuse_Tree\<close>: sibling lists are chains that agree with the parent fields, parents are
    acyclic, a reference count is the number of children plus the kernel's references.
    \<open>Fuse_Path\<close>: stored names agree with their lengths and paths follow the tree. \<open>Fuse_Perm\<close>:
    permissions are those derived from the parent. \<open>Fuse_Global\<close> combines them.
  \<^item> \<open>Fuse_Daemon\<close>, \<open>Fuse_Reply\<close>, \<open>Fuse_System\<close>: every handler keeps the invariant and returns, every
    request gets its one reply, and both hold in all states that the daemon reaches from start-up.
  \<^item> \<open>Fuse_Props\<close>: the properties C1 to C19.

  \<^bold>\<open>The Bluetooth host stack\<close>. Upper layers call a command writer (\<open>src/system/bt/stack/hcic/hciblecmds.cc\<close>
  for LE), which hands the packet to \<open>src/system/bt/stack/btu/btu_hcif.cc\<close>; that queues it in
  \<open>src/system/bt/hci/src/hci_layer.cc\<close>, which sends it when the controller has credit. Answers come
  back through the HCI layer's filter to callbacks and futures, other events to the dispatcher of
  \<open>btu_hcif.cc\<close>.

  \<^item> \<open>Machine\<close>: the interfaces of a component driven by calls, as locales. \<open>Hci_System\<close> interprets them
    on the HCI layer.
  \<^item> \<open>Hci_Env\<close>: the packets (\<open>BT_HDR\<close>), the stream macros and the constants of headers that are not in
    the repository. They are the record \<open>hci_hdrs\<close>, an argument of the definitions; \<open>hdrs_ok\<close> says
    that it holds the values the Core Specification documents, and \<open>core_hdrs\<close> is an instance.
  \<^item> \<open>Hci_Layer\<close>, \<open>Hci_Layer_Inv\<close>, \<open>Hci_System\<close>, \<open>Hci_Props\<close> (C20 to C26): the module as a record with a
    store of packets and a store of wait entries, so that double use and double free are faults. The
    invariant says who owns each packet and entry. The thread of the module and the timers enter as
    calls that may come in any allowed order. The fragmenter, the transport and the callbacks
    are recorded calls.
  \<^item> \<open>Btu_Hcif\<close>, \<open>Hci_Ble_Cmds\<close>, \<open>Hci_Ble_Spec\<close>, \<open>Ble_Props\<close> (C27 to C33): the sending side. Each writer of
    \<open>hciblecmds.cc\<close> is a definition over the stream macros; \<open>Hci_Ble_Spec\<close> states the packet format
    independently of them, and its decoder is the specification the writers are checked against. Three of the
    forty-three writers send packets that are not whole; C28 and C29 say what they send.
    What the stack registers and logs beyond the repository is the record \<open>btu_ext\<close>.
  \<^item> \<open>Btu_Events\<close>, \<open>Btu_Event_Props\<close> (C34 to C37): the receiving side, one definition per
    \<open>btu_hcif_*_evt\<close> function. The calls into \<open>btm_*\<close> and \<open>l2c_*\<close>, which are not in the repository,
    are values of a datatype in the order they are made; what those modules answer is \<open>btm_ext\<close>,
    and event codes are \<open>evt_hdrs\<close> with \<open>evt_hdrs_ok\<close> as their documented values.

  \<^item> \<open>Hci_Parser\<close>, \<open>Controller\<close>, \<open>Controller_Props\<close> (C38, C39): the parser of command complete events
    (\<open>src/system/bt/hci/src/hci_packet_parser.cc\<close>) and the controller module
    (\<open>src/system/bt/device/src/controller.cc\<close>), which asks the controller for its features at start-up.
    The controller is any function from the commands it was sent to its responses. A failed \<open>CHECK\<close> and a
    bad access are values of \<open>stop\<close>; a response that never comes and an endless loop are \<open>None\<close>.
    \<open>conforming\<close> says what start-up relies on: every command gets a response, what the controller
    reported itself to support is carried out, and any other command may be refused.
  \<^item> \<open>H4\<close> (C40): the transport of the Bluetooth HAL
    (\<open>src/hardware/interfaces/bluetooth/1.0/default/h4_protocol.cc\<close>), sending and receiving; the packetizer is
    a parameter.

  \<^bold>\<open>Bounds and fuel.\<close> No definition takes fuel. The loops that may not end are
  \<open>partial_function (option)\<close>: sibling lists and subtrees of nodes, the package events, the feature pages and the
  retried writes; that they return is proved where it is claimed. Integers that the code keeps in a fixed width are
  words of that width. Buffers keep their sizes (a path buffer of 4096 bytes, a read buffer of 128
  KiB, a command buffer of \<open>HCI_CMD_BUF_SIZE\<close> bytes), and a write past one is a fault.

  \<^bold>\<open>Not modelled.\<close> A handler of the daemon runs as one step: the interleaving of handler threads
  between two critical sections is left out, and so is the interleaving inside one operation of the
  HCI layer. Logging and tracing text is left out where it does not change state. The
  controller module waits for one response at a time, and its waiting is not composed with the steps of the HCI
  layer. Of the other files of the repository: the device manager \<open>btm_devctl.cc\<close> and the vendor library mostly call
  code that is not here; the radio service is a marshalling layer over generated types; SurfaceFlinger,
  render engine, Wi-Fi, audio, sensors and graphics files are upstream files with small changes
  whose classes are declared elsewhere; the kernel files are upstream files with small patches; the
  camera, display and sensor shims and the device tools work by interposing on vendor binaries,
  \<open>ioctl\<close> and \<open>sysfs\<close>; the Java overrides and the build scripts are not in the modelled language.
\<close>

end
